theory Spec2Isabelle
  imports Complex_Main "HOL-Library.Word"
begin

section \<open>Numeric execution layer (runtime/ops/math.cc)\<close>

subsection \<open>Dtypes, errors, arrays\<close>

text \<open>
  Modelled from the spec: the dtype enumeration. Neither \<open>chainerx::Dtype\<close> nor
  \<open>compiler/dtype.h\<close> is part of the sources at hand; the spec names boolean, unsigned
  8-bit, signed 16-bit, 64-bit integer and 32-bit floating dtypes, and the source uses the
  enumerators \<open>kBool\<close>, \<open>kUInt8\<close>, \<open>kInt16\<close>, \<open>kInt64\<close> and \<open>kFloat32\<close>. The remaining
  enumerators complete the usual family of widths; \<open>kUnknown\<close> is the dtype of a graph
  \<open>Value\<close> whose type was never set (no array has it).
\<close>

datatype Dtype =
  kUnknown | kBool | kInt8 | kInt16 | kInt32 | kInt64 | kUInt8 | kFloat32 | kFloat64

text \<open>
  Modelled from the spec: the operator kinds, \<open>Node::OpType\<close> of \<open>compiler/node.h\<close>
  (generated, not part of the sources at hand). These are the kinds the source registers a
  gradient rule for, followed by the kinds its rules emit.
\<close>

datatype OpType =
    kAdd | kSub | kMul | kDiv | kNeg | kExp | kSigmoid | kRelu | kSqrt | kTanh
  | kIdentity | kReshape | kOnikuxSelectItem | kReduceSum | kReduceMean | kGemm | kConv
  | kMaxPool | kAveragePool | kLogSoftmax | kSoftmax | kBatchNormalization | kLRN
  | kDropout | kGreater | kConstant | kLoop | kOnikuxSequenceStack | kOnikuxSequenceAppend
  | kOnikuxBackpropStackPush | kOnikuxBackpropStackPop | kOnikuxReluGrad | kShape
  | kOnikuxSelectItemGrad | kExpand | kGather | kCast
  | kOnikuxConvTransposeWithDynamicOutputShape | kOnikuxConvGradWeight
  | kOnikuxMaxPoolGrad | kOnikuxAveragePoolGrad | kOnikuxBatchNormalizationGrad
  | kOnikuxLRNGrad | kOnikuxLoopRef | kOnikuxSequenceSplit | kOnikuxSequencePop

text \<open>
  Every \<open>CHECK\<close> of the source aborts the process. Each kind of check is a constructor
  here, so that a failing run says what stopped it. Reading through a null pointer and
  indexing a vector out of range are undefined behaviour in the source; the model makes
  them fatal outcomes of their own.
\<close>

datatype error =
    UnknownTypeCoerce Dtype Dtype  \<comment> \<open>\<open>CHECK(false) << "Unknown type coerce: "\<close>\<close>
  | ChainerxError                  \<comment> \<open>an exception thrown inside a chainerx routine\<close>
  | IndexCheckFailed int           \<comment> \<open>\<open>CHECK_LE(0, i)\<close>, \<open>CHECK_GT(size, i)\<close> of the context\<close>
  | DtypeCheckFailed Dtype         \<comment> \<open>\<open>CHECK_EQ(Dtype::kFloat32, ...)\<close> of the sigmoid rule\<close>
  | GradientNotSupported OpType    \<comment> \<open>\<open>CHECK(found != end) << "Gradient not supported: "\<close>\<close>
  | ArityMismatch int nat          \<comment> \<open>\<open>CHECK_EQ(func.num_inputs, node->inputs().size())\<close> and outputs\<close>
  | DuplicateRegistration OpType   \<comment> \<open>\<open>CHECK(s_gradient_funcs->emplace(op_type, func).second)\<close>\<close>
  | LoopShapeCheckFailed           \<comment> \<open>the two \<open>CHECK_EQ\<close> on the counts of the loop and its body\<close>
  | NotImplementedYet              \<comment> \<open>\<open>CHECK_EQ(0, ...) << "Not implemented yet"\<close>\<close>
  | GradientCheckFailed            \<comment> \<open>\<open>CHECK(y->grad() == nullptr)\<close>, \<open>CHECK(x->grad())\<close> of the loop rule\<close>
  | LoopBodyUnnamed                \<comment> \<open>\<open>CHECK(!body->name().empty())\<close>\<close>
  | NullPointer                    \<comment> \<open>a null pointer is dereferenced\<close>
  | OutOfRange                     \<comment> \<open>a vector is indexed out of range\<close>

text \<open>
  Modelled from the spec: \<open>IsFloat\<close> (runtime/chainerx_util.h) and
  \<open>chainerx::GetItemSize\<close> are not part of the sources at hand. The functions of the
  source that call them take them as the parameters \<open>isFloat\<close> and \<open>itemSize\<close>; the two
  definitions below are the instances used on concrete inputs: the floating dtypes are the
  two float widths, and the item size is the width in bytes.
\<close>

fun IsFloat :: "Dtype \<Rightarrow> bool" where
  "IsFloat kFloat32 = True"
| "IsFloat kFloat64 = True"
| "IsFloat _ = False"

fun GetItemSize :: "Dtype \<Rightarrow> int" where
  "GetItemSize kUnknown = 0"
| "GetItemSize kBool = 1"
| "GetItemSize kInt8 = 1"
| "GetItemSize kInt16 = 2"
| "GetItemSize kInt32 = 4"
| "GetItemSize kInt64 = 8"
| "GetItemSize kUInt8 = 1"
| "GetItemSize kFloat32 = 4"
| "GetItemSize kFloat64 = 8"

text \<open>
  Modelled from the spec: a \<open>chainerx::Array\<close> carries a dtype, a shape and its elements
  (here in row-major order). The element type is a parameter.
\<close>

record 'a Array =
  dtype :: Dtype
  shape :: "nat list"
  data :: "'a list"

subsection \<open>Binary dtype coercion\<close>

text \<open>\<open>CoerceDtype\<close>, lines 22 to 32, one branch per line of the source.\<close>

definition CoerceDtype :: "(Dtype \<Rightarrow> bool) \<Rightarrow> (Dtype \<Rightarrow> int) \<Rightarrow> Dtype \<Rightarrow> Dtype \<Rightarrow> error + Dtype" where
  "CoerceDtype isFloat itemSize dtype0 dtype1 =
     (if dtype0 = dtype1 then Inr dtype0
      else if isFloat dtype0 \<and> \<not> isFloat dtype1 then Inr dtype0
      else if \<not> isFloat dtype0 \<and> isFloat dtype1 then Inr dtype1
      else if itemSize dtype0 > itemSize dtype1 then Inr dtype0
      else if itemSize dtype0 < itemSize dtype1 then Inr dtype1
      else if dtype1 = kBool then Inr dtype0
      else if dtype0 = kBool then Inr dtype1
      else if dtype0 = kUInt8 \<or> dtype1 = kUInt8 then Inr kInt16
      else Inl (UnknownTypeCoerce dtype0 dtype1))"

text \<open>
  The coercion rule in the words of the spec (section 6), for comparison with the code:
  equal dtypes are kept; otherwise a floating dtype beats a non-floating one; otherwise the
  wider item size wins; otherwise a boolean loses to the other dtype; otherwise, if either
  operand is unsigned 8-bit, the result is signed 16-bit; nothing else is defined.
\<close>

definition coerce_spec :: "(Dtype \<Rightarrow> bool) \<Rightarrow> (Dtype \<Rightarrow> int) \<Rightarrow> Dtype \<Rightarrow> Dtype \<Rightarrow> error + Dtype" where
  "coerce_spec isFloat itemSize a b =
     (if a = b then Inr a
      else if isFloat a \<noteq> isFloat b then Inr (if isFloat a then a else b)
      else if itemSize a \<noteq> itemSize b then Inr (if itemSize b < itemSize a then a else b)
      else if a = kBool \<or> b = kBool then Inr (if a = kBool then b else a)
      else if a = kUInt8 \<or> b = kUInt8 then Inr kInt16
      else Inl (UnknownTypeCoerce a b))"

subsection \<open>Floor, Ceil and Clip\<close>

text \<open>
  \<open>FloorOp::RunImpl\<close> and \<open>CeilOp::RunImpl\<close>, lines 118 to 130. The chainerx routines
  \<open>Floor\<close> and \<open>Ceil\<close> are parameters; a routine may throw, so it returns a sum.
\<close>

definition FloorOp_RunImpl ::
  "(Dtype \<Rightarrow> bool) \<Rightarrow> ('a Array \<Rightarrow> error + 'a Array) \<Rightarrow> 'a Array \<Rightarrow> error + 'a Array" where
  "FloorOp_RunImpl isFloat Floor x = (if \<not> isFloat (dtype x) then Inr x else Floor x)"

definition CeilOp_RunImpl ::
  "(Dtype \<Rightarrow> bool) \<Rightarrow> ('a Array \<Rightarrow> error + 'a Array) \<Rightarrow> 'a Array \<Rightarrow> error + 'a Array" where
  "CeilOp_RunImpl isFloat Ceil x = (if \<not> isFloat (dtype x) then Inr x else Ceil x)"

text \<open>
  A signed integer of a fixed width \<open>w\<close>: a value from \<open>- (2 ^ (w - 1))\<close> up to
  \<open>2 ^ (w - 1) - 1\<close>, with the order of the integers. Its negation wraps around: the negation of the least value is the least
  value itself. An unsigned integer of a fixed width is a machine word, \<open>w word\<close>, whose
  order is the unsigned one and whose negation wraps around as well.
\<close>

typedef (overloaded) 'a signed_int =
  "{- (2 ^ (LENGTH('a::len) - 1)) ..< 2 ^ (LENGTH('a) - 1) :: int}"
  morphisms int_of_signed signed_of_int
  by (rule exI[of _ 0]) simp

setup_lifting type_definition_signed_int

instantiation signed_int :: (len) "{linorder, uminus}"
begin

lift_definition less_eq_signed_int :: "'a signed_int \<Rightarrow> 'a signed_int \<Rightarrow> bool" is "(\<le>)" .

lift_definition less_signed_int :: "'a signed_int \<Rightarrow> 'a signed_int \<Rightarrow> bool" is "(<)" .

lift_definition uminus_signed_int :: "'a signed_int \<Rightarrow> 'a signed_int" is
  "\<lambda>v. if v = - (2 ^ (LENGTH('a) - 1)) then v else - v"
  by auto

instance
  by standard (transfer; auto)+

end








subsection \<open>Gemm\<close>

text \<open>
  Modelled from the spec: the transpose, the dot product and the product with a scalar are
  routines of the external array runtime. They are modelled on two-dimensional arrays, as
  the matrix transpose and the matrix product; on an array of another rank, or on matrices
  whose inner dimensions differ, the model gives the runtime's error. \<open>at2\<close> reads an
  element of a matrix and \<open>tabulate2\<close> builds a matrix from its elements, in row-major
  order.
\<close>

definition at2 :: "'a Array \<Rightarrow> nat \<Rightarrow> nat \<Rightarrow> 'a" where
  "at2 a i j = data a ! (i * (shape a ! 1) + j)"

definition tabulate2 :: "Dtype \<Rightarrow> nat \<Rightarrow> nat \<Rightarrow> (nat \<Rightarrow> nat \<Rightarrow> 'a) \<Rightarrow> 'a Array" where
  "tabulate2 d r c f =
     \<lparr>dtype = d, shape = [r, c], data = map (\<lambda>n. f (n div c) (n mod c)) [0..<r * c]\<rparr>"

definition mat_T :: "real Array \<Rightarrow> real Array" where
  "mat_T a = tabulate2 (dtype a) (shape a ! 1) (shape a ! 0) (\<lambda>i j. at2 a j i)"

definition mat_mul :: "real Array \<Rightarrow> real Array \<Rightarrow> real Array" where
  "mat_mul a b =
     tabulate2 (dtype a) (shape a ! 0) (shape b ! 1)
       (\<lambda>i j. sum_list (map (\<lambda>l. at2 a i l * at2 b l j) [0..<shape a ! 1]))"

definition mat_scale :: "real Array \<Rightarrow> real \<Rightarrow> real Array" where
  "mat_scale a s = a\<lparr>data := map (\<lambda>v. v * s) (data a)\<rparr>"

definition Transpose :: "real Array \<Rightarrow> error + real Array" where
  "Transpose a = (if length (shape a) = 2 then Inr (mat_T a) else Inl ChainerxError)"

definition Dot :: "real Array \<Rightarrow> real Array \<Rightarrow> error + real Array" where
  "Dot a b =
     (if length (shape a) = 2 \<and> length (shape b) = 2 \<and> shape a ! 1 = shape b ! 0
      then Inr (mat_mul a b) else Inl ChainerxError)"

text \<open>
  \<open>GemmOp::RunImpl\<close>, lines 141 to 156. \<open>alpha\<close>, \<open>beta\<close>, \<open>trans_a\<close> and \<open>trans_b\<close> are
  attributes of the op. \<open>Linear\<close> and the broadcasting sum of two arrays are routines of
  the array runtime, taken as parameters.
\<close>

definition GemmOp_RunImpl ::
  "(real Array \<Rightarrow> real Array \<Rightarrow> real Array \<Rightarrow> error + real Array) \<Rightarrow>
   (real Array \<Rightarrow> real Array \<Rightarrow> error + real Array) \<Rightarrow>
   real \<Rightarrow> real \<Rightarrow> bool \<Rightarrow> bool \<Rightarrow> real Array \<Rightarrow> real Array \<Rightarrow> real Array \<Rightarrow> error + real Array" where
  "GemmOp_RunImpl Linear Plus al be ta tb a b c =
     (if al = 1 \<and> be = 1 \<and> \<not> ta \<and> tb \<and> length (shape c) = 1 then Linear a b c
      else
        case (if ta then Transpose a else Inr a) of
          Inl e \<Rightarrow> Inl e
        | Inr xa \<Rightarrow>
        case (if tb then Transpose b else Inr b) of
          Inl e \<Rightarrow> Inl e
        | Inr xb \<Rightarrow>
        case Dot xa xb of
          Inl e \<Rightarrow> Inl e
        | Inr r \<Rightarrow>
        let r = (if al \<noteq> 1 then mat_scale r al else r) in
        if be = 0 then Inr r
        else let xc = (if be \<noteq> 1 then mat_scale c be else c) in Plus r xc)"

section \<open>Graph IR (compiler/graph.h, node.h, value.h, graph_builder.h)\<close>

text \<open>
  The gradient code of the source works on \<open>Graph\<close>, \<open>Node\<close> and \<open>Value\<close> objects through
  pointers, and these classes are not part of the sources at hand. They are modelled from
  the spec (section 3 and 4.1) as an explicit store: every object lives in a heap, and a
  pointer is its index there. A pointer that may be null is a \<open>nat option\<close>.
\<close>

datatype ValueKind = kTemp | kInput | kOutput | kNull

text \<open>
  \<open>Type\<close> of compiler/type.h: the members \<open>dtype_\<close> and \<open>dims_\<close>. (A name of the source that
  ends with an underscore gets a prefix instead, here and below.)
\<close>

record Type =
  type_dtype :: Dtype
  type_dims :: "int list"

text \<open>
  Modelled from the spec: a \<open>Value\<close> is a named, typed handle with a kind, an optional
  gradient back-link and an optional reference to the node that produces it.
\<close>

record Value =
  kind :: ValueKind
  name :: string
  type :: Type
  producer :: "nat option"
  grad :: "nat option"

text \<open>
  Modelled from the spec: a \<open>Node\<close> has an operator kind, ordered inputs and outputs, and
  operator-specific attributes. The attributes are those the modelled rules read or set:
  the scalar coefficients and transpose flags of Gemm, the axis list and keep-dims flag of
  a reduction, the correlation id of a stack push or pop (an \<open>int\<close> of the source: 32
  bits), the stack axis and body of a loop, the body reference and value names of a loop
  reference, and the tensor of a constant.
\<close>

record Node =
  op_type :: OpType
  inputs :: "nat list"
  outputs :: "nat list"
  debug_name :: string
  alpha :: real
  beta :: real
  trans_a :: bool
  trans_b :: bool
  axes :: "int list"
  keepdims :: bool
  id_attr :: "32 word"
  onikux_stack_axis :: int
  body :: "nat option"
  body_ref :: string
  input_value_names :: "string list"
  output_value_names :: "string list"
  tensor_value :: "(Type \<times> real list) option"

text \<open>
  Modelled from the spec: a \<open>Graph\<close> owns nodes and values and has ordered lists of
  designated input and output values; a loop body is a graph with a name.
\<close>

record Graph =
  graph_name :: string
  nodes :: "nat list"
  all_values :: "nat list"
  input_values :: "nat list"
  output_values :: "nat list"

text \<open>
  The store: the three heaps, the process-wide counter \<open>GradientOpContext::id_\<close> (a
  \<open>std::atomic<int>\<close>, so 32 bits with wrap-around), and a counter for generated names.
\<close>

record Store =
  value_heap :: "Value list"
  node_heap :: "Node list"
  graph_heap :: "Graph list"
  id_counter :: "32 word"
  gensym :: nat

text \<open>
  A computation on the store either aborts, with the error and the store as the abort
  left it, or returns a result and the new store.
\<close>

type_synonym 'a M = "Store \<Rightarrow> (error \<times> Store) + ('a \<times> Store)"

definition returnM :: "'a \<Rightarrow> 'a M" where
  "returnM a st = Inr (a, st)"

definition fatal :: "error \<Rightarrow> 'a M" where
  "fatal e st = Inl (e, st)"

definition bindM :: "'a M \<Rightarrow> ('a \<Rightarrow> 'b M) \<Rightarrow> 'b M" where
  "bindM m f st = (case m st of Inl e \<Rightarrow> Inl e | Inr (a, st') \<Rightarrow> f a st')"

definition CHECK :: "bool \<Rightarrow> error \<Rightarrow> unit M" where
  "CHECK c e = (if c then returnM () else fatal e)"

definition getM :: "(Store \<Rightarrow> 'a) \<Rightarrow> 'a M" where
  "getM f st = Inr (f st, st)"

fun mapM :: "('a \<Rightarrow> 'b M) \<Rightarrow> 'a list \<Rightarrow> 'b list M" where
  "mapM f [] = returnM []"
| "mapM f (a # as) = bindM (f a) (\<lambda>b. bindM (mapM f as) (\<lambda>bs. returnM (b # bs)))"

text \<open>Reading and writing objects through pointers.\<close>

definition the_value :: "nat \<Rightarrow> Store \<Rightarrow> Value" where
  "the_value v st = value_heap st ! v"

definition the_node :: "nat \<Rightarrow> Store \<Rightarrow> Node" where
  "the_node n st = node_heap st ! n"

definition the_graph :: "nat \<Rightarrow> Store \<Rightarrow> Graph" where
  "the_graph g st = graph_heap st ! g"

definition update_value :: "nat \<Rightarrow> (Value \<Rightarrow> Value) \<Rightarrow> unit M" where
  "update_value v f st = Inr ((), st\<lparr>value_heap := (value_heap st)[v := f (value_heap st ! v)]\<rparr>)"

definition update_node :: "nat \<Rightarrow> (Node \<Rightarrow> Node) \<Rightarrow> unit M" where
  "update_node n f st = Inr ((), st\<lparr>node_heap := (node_heap st)[n := f (node_heap st ! n)]\<rparr>)"

definition update_graph :: "nat \<Rightarrow> (Graph \<Rightarrow> Graph) \<Rightarrow> unit M" where
  "update_graph g f st = Inr ((), st\<lparr>graph_heap := (graph_heap st)[g := f (graph_heap st ! g)]\<rparr>)"

text \<open>\<open>v->producer()\<close> followed by a member call: a null producer is a null dereference.\<close>

definition producer_of :: "nat \<Rightarrow> nat M" where
  "producer_of v st =
     (case producer (the_value v st) of None \<Rightarrow> Inl (NullPointer, st) | Some n \<Rightarrow> Inr (n, st))"

text \<open>\<open>vec[i]\<close> on a \<open>std::vector\<close>.\<close>

definition at_index :: "'a list \<Rightarrow> int \<Rightarrow> 'a M" where
  "at_index xs i = (if 0 \<le> i \<and> i < int (length xs) then returnM (xs ! nat i) else fatal OutOfRange)"

text \<open>
  \<open>StrCat\<close> of common/strutil.h on a number: the decimal digits, with a minus sign in
  front of a negative one.
\<close>

fun StrCat_nat :: "nat \<Rightarrow> string" where
  "StrCat_nat n =
     (let q = n div 10; d = ''0123456789'' ! (n mod 10)
      in if q = 0 then [d] else StrCat_nat q @ [d])"

declare StrCat_nat.simps [simp del]

definition StrCat_int :: "int \<Rightarrow> string" where
  "StrCat_int i = (if 0 \<le> i then StrCat_nat (nat i) else CHR ''-'' # StrCat_nat (nat (- i)))"

text \<open>
  Modelled from the spec: \<open>new Value(name, type, kind)\<close> allocates a value with no producer
  and no gradient.
\<close>

definition new_Value :: "string \<Rightarrow> Type \<Rightarrow> ValueKind \<Rightarrow> nat M" where
  "new_Value nm ty k st =
     Inr (length (value_heap st),
          st\<lparr>value_heap := value_heap st @
               [\<lparr>kind = k, name = nm, type = ty, producer = None, grad = None\<rparr>]\<rparr>)"

text \<open>
  Modelled from the spec: \<open>Graph::AddValue(name, kind)\<close> allocates a value of unknown type,
  owned by the graph; an input or output value joins the graph's designated list.
\<close>

definition Graph_AddValue :: "nat \<Rightarrow> string \<Rightarrow> ValueKind \<Rightarrow> nat M" where
  "Graph_AddValue g nm k =
     bindM (new_Value nm \<lparr>type_dtype = kUnknown, type_dims = []\<rparr> k) (\<lambda>v.
     bindM (update_graph g (\<lambda>gr. gr\<lparr>
              all_values := all_values gr @ [v],
              input_values := (if k = kInput then input_values gr @ [v] else input_values gr),
              output_values := (if k = kOutput then output_values gr @ [v] else output_values gr)\<rparr>)) (\<lambda>_.
     returnM v))"

text \<open>
  Modelled from the spec: a new node has the default attributes of its operator (for Gemm,
  both coefficients are 1 and nothing is transposed; a reduction keeps dimensions).
\<close>

definition new_Node :: "OpType \<Rightarrow> nat list \<Rightarrow> nat list \<Rightarrow> string \<Rightarrow> Node" where
  "new_Node op ins outs nm =
     \<lparr>op_type = op, inputs = ins, outputs = outs, debug_name = nm,
      alpha = 1, beta = 1, trans_a = False, trans_b = False,
      axes = [], keepdims = True, id_attr = 0, onikux_stack_axis = 0,
      body = None, body_ref = [], input_value_names = [], output_value_names = [],
      tensor_value = None\<rparr>"

definition set_producer :: "nat \<Rightarrow> nat \<Rightarrow> Value list \<Rightarrow> Value list" where
  "set_producer n v vh = vh[v := (vh ! v)\<lparr>producer := Some n\<rparr>]"

text \<open>
  Modelled from the spec: \<open>Graph::AddNode(opKind, inputs, outputs, debugName)\<close> allocates
  the node, owned by the graph, and makes it the producer of each output. The node is
  registered with each input value, so a null input is a null dereference.
\<close>

definition Graph_AddNode :: "nat \<Rightarrow> OpType \<Rightarrow> nat option list \<Rightarrow> nat list \<Rightarrow> string \<Rightarrow> nat M" where
  "Graph_AddNode g op ins outs base st =
     (if None \<in> set ins then Inl (NullPointer, st)
      else
        let n = length (node_heap st) in
        Inr (n, st\<lparr>node_heap := node_heap st @ [new_Node op (map the ins) outs base],
                   value_heap := fold (set_producer n) outs (value_heap st),
                   graph_heap := (graph_heap st)
                     [g := (graph_heap st ! g)\<lparr>nodes := nodes (graph_heap st ! g) @ [n]\<rparr>]\<rparr>))"

text \<open>
  Modelled from the spec: \<open>Node::AddInput\<close> appends an input; \<open>Node::AddOutput(value,
  index)\<close> inserts an output at a position and makes the node its producer.
\<close>

definition Node_AddInput :: "nat \<Rightarrow> nat \<Rightarrow> unit M" where
  "Node_AddInput n v = update_node n (\<lambda>nd. nd\<lparr>inputs := inputs nd @ [v]\<rparr>)"

definition Node_AddOutput :: "nat \<Rightarrow> nat \<Rightarrow> int \<Rightarrow> unit M" where
  "Node_AddOutput n v i =
     bindM (getM (\<lambda>st. outputs (the_node n st))) (\<lambda>outs.
     bindM (CHECK (0 \<le> i \<and> i \<le> int (length outs)) OutOfRange) (\<lambda>_.
     bindM (update_node n (\<lambda>nd. nd\<lparr>outputs := take (nat i) outs @ [v] @ drop (nat i) outs\<rparr>)) (\<lambda>_.
     update_value v (\<lambda>val. val\<lparr>producer := Some n\<rparr>))))"

text \<open>
  Modelled from the spec: a \<open>GraphBuilder(graph, category, target)\<close> adds nodes to a graph
  under names generated from its category and the name of its target value.
  \<open>Op(kind, inputs)\<close> adds a fresh output value and the node that produces it, and returns
  the value; \<open>Op(kind, inputs, output)\<close> uses the given output; \<open>MOp(kind, inputs,
  outputs)\<close> returns the node; \<open>Const(type, data)\<close> adds a constant node holding a tensor.
\<close>

record GraphBuilder =
  gb_graph :: nat
  gb_category :: string
  gb_target :: nat

definition GenName :: "GraphBuilder \<Rightarrow> string M" where
  "GenName gb st =
     Inr (gb_category gb @ ''_'' @ name (the_value (gb_target gb) st) @ ''_''
            @ StrCat_nat (gensym st),
          st\<lparr>gensym := gensym st + 1\<rparr>)"

definition Op :: "GraphBuilder \<Rightarrow> OpType \<Rightarrow> nat option list \<Rightarrow> nat M" where
  "Op gb op ins =
     bindM (GenName gb) (\<lambda>nm.
     bindM (Graph_AddValue (gb_graph gb) nm kTemp) (\<lambda>out.
     bindM (Graph_AddNode (gb_graph gb) op ins [out] nm) (\<lambda>_.
     returnM out)))"

definition Op_to :: "GraphBuilder \<Rightarrow> OpType \<Rightarrow> nat option list \<Rightarrow> nat \<Rightarrow> nat M" where
  "Op_to gb op ins out =
     bindM (GenName gb) (\<lambda>nm.
     bindM (Graph_AddNode (gb_graph gb) op ins [out] nm) (\<lambda>_.
     returnM out))"

definition MOp :: "GraphBuilder \<Rightarrow> OpType \<Rightarrow> nat option list \<Rightarrow> nat list \<Rightarrow> nat M" where
  "MOp gb op ins outs =
     bindM (GenName gb) (\<lambda>nm.
     Graph_AddNode (gb_graph gb) op ins outs nm)"

definition Const :: "GraphBuilder \<Rightarrow> Type \<Rightarrow> real list \<Rightarrow> nat M" where
  "Const gb ty dat =
     bindM (Op gb kConstant []) (\<lambda>v.
     bindM (producer_of v) (\<lambda>n.
     bindM (update_node n (\<lambda>nd. nd\<lparr>tensor_value := Some (ty, dat)\<rparr>)) (\<lambda>_.
     returnM v)))"

text \<open>
  Modelled from the spec: \<open>Node::OpTypeToString\<close> is the name of the operator kind, the
  enumerator without its leading \<open>k\<close>.
\<close>

fun OpTypeToString :: "OpType \<Rightarrow> string" where
  "OpTypeToString kAdd = ''Add''"
| "OpTypeToString kSub = ''Sub''"
| "OpTypeToString kMul = ''Mul''"
| "OpTypeToString kDiv = ''Div''"
| "OpTypeToString kNeg = ''Neg''"
| "OpTypeToString kExp = ''Exp''"
| "OpTypeToString kSigmoid = ''Sigmoid''"
| "OpTypeToString kRelu = ''Relu''"
| "OpTypeToString kSqrt = ''Sqrt''"
| "OpTypeToString kTanh = ''Tanh''"
| "OpTypeToString kIdentity = ''Identity''"
| "OpTypeToString kReshape = ''Reshape''"
| "OpTypeToString kOnikuxSelectItem = ''OnikuxSelectItem''"
| "OpTypeToString kReduceSum = ''ReduceSum''"
| "OpTypeToString kReduceMean = ''ReduceMean''"
| "OpTypeToString kGemm = ''Gemm''"
| "OpTypeToString kConv = ''Conv''"
| "OpTypeToString kMaxPool = ''MaxPool''"
| "OpTypeToString kAveragePool = ''AveragePool''"
| "OpTypeToString kLogSoftmax = ''LogSoftmax''"
| "OpTypeToString kSoftmax = ''Softmax''"
| "OpTypeToString kBatchNormalization = ''BatchNormalization''"
| "OpTypeToString kLRN = ''LRN''"
| "OpTypeToString kDropout = ''Dropout''"
| "OpTypeToString kGreater = ''Greater''"
| "OpTypeToString kConstant = ''Constant''"
| "OpTypeToString kLoop = ''Loop''"
| "OpTypeToString kOnikuxSequenceStack = ''OnikuxSequenceStack''"
| "OpTypeToString kOnikuxSequenceAppend = ''OnikuxSequenceAppend''"
| "OpTypeToString kOnikuxBackpropStackPush = ''OnikuxBackpropStackPush''"
| "OpTypeToString kOnikuxBackpropStackPop = ''OnikuxBackpropStackPop''"
| "OpTypeToString kOnikuxReluGrad = ''OnikuxReluGrad''"
| "OpTypeToString kShape = ''Shape''"
| "OpTypeToString kOnikuxSelectItemGrad = ''OnikuxSelectItemGrad''"
| "OpTypeToString kExpand = ''Expand''"
| "OpTypeToString kGather = ''Gather''"
| "OpTypeToString kCast = ''Cast''"
| "OpTypeToString kOnikuxConvTransposeWithDynamicOutputShape =
     ''OnikuxConvTransposeWithDynamicOutputShape''"
| "OpTypeToString kOnikuxConvGradWeight = ''OnikuxConvGradWeight''"
| "OpTypeToString kOnikuxMaxPoolGrad = ''OnikuxMaxPoolGrad''"
| "OpTypeToString kOnikuxAveragePoolGrad = ''OnikuxAveragePoolGrad''"
| "OpTypeToString kOnikuxBatchNormalizationGrad = ''OnikuxBatchNormalizationGrad''"
| "OpTypeToString kOnikuxLRNGrad = ''OnikuxLRNGrad''"
| "OpTypeToString kOnikuxLoopRef = ''OnikuxLoopRef''"
| "OpTypeToString kOnikuxSequenceSplit = ''OnikuxSequenceSplit''"
| "OpTypeToString kOnikuxSequencePop = ''OnikuxSequencePop''"

text \<open>\<open>HasPrefix\<close> of common/strutil.h.\<close>

definition HasPrefix :: "string \<Rightarrow> string \<Rightarrow> bool" where
  "HasPrefix s prefix = (take (length prefix) s = prefix)"

section \<open>Gradient construction context (GradientOpContext, lines 222 to 309)\<close>

text \<open>
  The members of the class. \<open>x_\<close> and \<open>y_\<close> are references to the input and output vectors
  of the node (the constructor is called with \<open>node->inputs()\<close> and \<open>node->outputs()\<close>),
  so they are read from the node in the current store: a rule that adds an input to its
  node sees it through the context.
\<close>

record GradientOpContext =
  gc_graph :: nat
  gc_node :: nat
  gc_name :: string
  gc_retain_in_stack :: bool

definition gc_xs :: "GradientOpContext \<Rightarrow> Store \<Rightarrow> nat list" where
  "gc_xs gc st = inputs (the_node (gc_node gc) st)"

definition gc_ys :: "GradientOpContext \<Rightarrow> Store \<Rightarrow> nat list" where
  "gc_ys gc st = outputs (the_node (gc_node gc) st)"

text \<open>The constructor, lines 224 to 230.\<close>

definition new_GradientOpContext :: "nat \<Rightarrow> nat \<Rightarrow> bool \<Rightarrow> Store \<Rightarrow> GradientOpContext" where
  "new_GradientOpContext graph node retain_in_stack st =
     (let nm = OpTypeToString (op_type (the_node node st));
          prefix = ''Onikux'';
          nm = (if HasPrefix nm prefix then drop (length prefix) nm else nm)
      in \<lparr>gc_graph = graph, gc_node = node, gc_name = nm @ ''Grad'',
          gc_retain_in_stack = retain_in_stack\<rparr>)"

text \<open>\<open>Retain\<close>, lines 240 to 249. \<open>++id_\<close> wraps around at 32 bits.\<close>

definition Retain :: "GradientOpContext \<Rightarrow> nat \<Rightarrow> nat M" where
  "Retain gc v =
     (if \<not> gc_retain_in_stack gc then returnM v
      else
        bindM (\<lambda>st. Inr (id_counter st + 1, st\<lparr>id_counter := id_counter st + 1\<rparr>)) (\<lambda>i.
        let gb = \<lparr>gb_graph = gc_graph gc,
                  gb_category = gc_name gc @ ''Retain'' @ StrCat_int (sint i),
                  gb_target = v\<rparr> in
        bindM (MOp gb kOnikuxBackpropStackPush [Some v] []) (\<lambda>push.
        bindM (update_node push (\<lambda>nd. nd\<lparr>id_attr := i\<rparr>)) (\<lambda>_.
        bindM (Op gb kOnikuxBackpropStackPop []) (\<lambda>retained.
        bindM (getM (\<lambda>st. type (the_value v st))) (\<lambda>ty.
        bindM (update_value retained (\<lambda>val. val\<lparr>type := ty\<rparr>)) (\<lambda>_.
        bindM (producer_of retained) (\<lambda>pop.
        bindM (update_node pop (\<lambda>nd. nd\<lparr>id_attr := i\<rparr>)) (\<lambda>_.
        returnM retained)))))))))"

text \<open>
  \<open>x\<close>, \<open>y\<close> and \<open>gy\<close>, lines 251 to 267, named \<open>gc_x\<close>, \<open>gc_y\<close> and \<open>gc_gy\<close> here (the
  short names are wanted for variables). \<open>gy\<close> returns a pointer that may be null.
\<close>

definition gc_x :: "GradientOpContext \<Rightarrow> int \<Rightarrow> nat M" where
  "gc_x gc i =
     bindM (CHECK (0 \<le> i) (IndexCheckFailed i)) (\<lambda>_.
     bindM (getM (gc_xs gc)) (\<lambda>xs.
     bindM (CHECK (int (length xs) > i) (IndexCheckFailed i)) (\<lambda>_.
     Retain gc (xs ! nat i))))"

definition gc_y :: "GradientOpContext \<Rightarrow> int \<Rightarrow> nat M" where
  "gc_y gc i =
     bindM (CHECK (0 \<le> i) (IndexCheckFailed i)) (\<lambda>_.
     bindM (getM (gc_ys gc)) (\<lambda>ys.
     bindM (CHECK (int (length ys) > i) (IndexCheckFailed i)) (\<lambda>_.
     Retain gc (ys ! nat i))))"

definition gc_gy :: "GradientOpContext \<Rightarrow> int \<Rightarrow> nat option M" where
  "gc_gy gc i =
     bindM (CHECK (0 \<le> i) (IndexCheckFailed i)) (\<lambda>_.
     bindM (getM (gc_ys gc)) (\<lambda>ys.
     bindM (CHECK (int (length ys) > i) (IndexCheckFailed i)) (\<lambda>_.
     getM (\<lambda>st. grad (the_value (ys ! nat i) st)))))"

text \<open>\<open>builder\<close>, lines 269 to 271.\<close>

definition builder :: "GradientOpContext \<Rightarrow> int \<Rightarrow> GraphBuilder M" where
  "builder gc xi =
     bindM (gc_x gc xi) (\<lambda>target.
     returnM \<lparr>gb_graph = gc_graph gc, gb_category = gc_name gc, gb_target = target\<rparr>)"

text \<open>\<open>SetGrad\<close>, lines 273 to 285. The new gradient \<open>gx\<close> is a pointer that may be null.\<close>

definition SetGrad :: "GradientOpContext \<Rightarrow> int \<Rightarrow> nat option \<Rightarrow> unit M" where
  "SetGrad gc xi gx =
     bindM (CHECK (0 \<le> xi) (IndexCheckFailed xi)) (\<lambda>_.
     bindM (getM (gc_xs gc)) (\<lambda>xs.
     bindM (CHECK (int (length xs) > xi) (IndexCheckFailed xi)) (\<lambda>_.
     let xv = xs ! nat xi in
     bindM (getM (\<lambda>st. grad (the_value xv st))) (\<lambda>g.
     case g of
       Some old \<Rightarrow>
         let gb = \<lparr>gb_graph = gc_graph gc, gb_category = ''AccumGrad'', gb_target = old\<rparr> in
         bindM (Op gb kAdd [Some old, gx]) (\<lambda>v.
         update_value xv (\<lambda>val. val\<lparr>grad := Some v\<rparr>))
     | None \<Rightarrow> update_value xv (\<lambda>val. val\<lparr>grad := gx\<rparr>)))))"

text \<open>\<open>AddGradValue\<close> and \<open>GradOp\<close>, lines 287 to 297.\<close>

definition AddGradValue :: "GradientOpContext \<Rightarrow> int \<Rightarrow> nat M" where
  "AddGradValue gc xi =
     bindM (gc_x gc xi) (\<lambda>xv.
     bindM (getM (\<lambda>st. name (the_value xv st))) (\<lambda>nm.
     bindM (Graph_AddValue (gc_graph gc) (''grad@'' @ nm) kTemp) (\<lambda>gv.
     bindM (SetGrad gc xi (Some gv)) (\<lambda>_.
     returnM gv))))"

definition GradOp :: "GradientOpContext \<Rightarrow> OpType \<Rightarrow> int \<Rightarrow> nat option list \<Rightarrow> nat M" where
  "GradOp gc op xi ins =
     bindM (AddGradValue gc xi) (\<lambda>gv.
     bindM (Graph_AddNode (gc_graph gc) op ins [gv] (gc_name gc)) (\<lambda>_.
     returnM gv))"


section \<open>Gradient rules\<close>

text \<open>\<open>AddGradFn\<close>, lines 311 to 314.\<close>

definition AddGradFn :: "GradientOpContext \<Rightarrow> unit M" where
  "AddGradFn gc =
     bindM (gc_gy gc 0) (\<lambda>g0.
     bindM (SetGrad gc 0 g0) (\<lambda>_.
     bindM (gc_gy gc 0) (\<lambda>g1.
     SetGrad gc 1 g1)))"

text \<open>
  \<open>SigmoidGradFn\<close>, lines 344 to 353. Every \<open>gc->x(0)\<close> and \<open>gc->y(0)\<close> of the source is a
  call of its own here, since each one retains when retention is enabled.
\<close>

definition SigmoidGradFn :: "GradientOpContext \<Rightarrow> unit M" where
  "SigmoidGradFn gc =
     bindM (gc_x gc 0) (\<lambda>x0.
     bindM (getM (\<lambda>st. type_dtype (type (the_value x0 st)))) (\<lambda>d.
     bindM (CHECK (kFloat32 = d) (DtypeCheckFailed d)) (\<lambda>_.
     bindM (builder gc 0) (\<lambda>gb.
     bindM (gc_gy gc 0) (\<lambda>gy0.
     bindM (gc_x gc 0) (\<lambda>x0'.
     bindM (getM (\<lambda>st. type_dtype (type (the_value x0' st)))) (\<lambda>d'.
     bindM (Const gb \<lparr>type_dtype = d', type_dims = []\<rparr> [1]) (\<lambda>one.
     bindM (gc_y gc 0) (\<lambda>y0.
     bindM (Op gb kMul [gy0, Some y0]) (\<lambda>t0.
     bindM (gc_y gc 0) (\<lambda>y0'.
     bindM (Op gb kSub [Some one, Some y0']) (\<lambda>t1.
     bindM (GradOp gc kMul 0 [Some t0, Some t1]) (\<lambda>_.
     returnM ())))))))))))))"

text \<open>
  \<open>GemmGradFn\<close>, lines 412 to 448, in three definitions: the two blocks of the body, one
  for each matrix operand, and the function itself. The attributes of the forward node
  are read when the source reads them; the elements of a braced list are evaluated from
  left to right.
\<close>

text \<open>The first block, lines 420 to 431: the gradient of input 0.\<close>

definition GemmGradFn_input0 :: "GradientOpContext \<Rightarrow> nat option \<Rightarrow> unit M" where
  "GemmGradFn_input0 gc gy0 =
     (let node = (\<lambda>st. the_node (gc_node gc) st) in
     bindM (builder gc 0) (\<lambda>gb.
     bindM (getM (\<lambda>st. trans_a (node st))) (\<lambda>ta.
     bindM (if ta then
              bindM (gc_x gc 1) (\<lambda>x1.
              bindM (gc_x gc 0) (\<lambda>x0.
              bindM (Op gb kGemm [Some x1, gy0, Some x0]) (\<lambda>gx0.
              bindM (producer_of gx0) (\<lambda>p.
              bindM (getM (\<lambda>st. alpha (node st))) (\<lambda>a.
              bindM (update_node p (\<lambda>nd. nd\<lparr>alpha := a\<rparr>)) (\<lambda>_.
              bindM (update_node p (\<lambda>nd. nd\<lparr>beta := 0\<rparr>)) (\<lambda>_.
              bindM (getM (\<lambda>st. trans_b (node st))) (\<lambda>tb.
              bindM (update_node p (\<lambda>nd. nd\<lparr>trans_a := tb\<rparr>)) (\<lambda>_.
              bindM (update_node p (\<lambda>nd. nd\<lparr>trans_b := True\<rparr>)) (\<lambda>_.
              returnM gx0))))))))))
            else
              bindM (gc_x gc 1) (\<lambda>x1.
              bindM (gc_x gc 0) (\<lambda>x0.
              bindM (Op gb kGemm [gy0, Some x1, Some x0]) (\<lambda>gx0.
              bindM (producer_of gx0) (\<lambda>p.
              bindM (getM (\<lambda>st. alpha (node st))) (\<lambda>a.
              bindM (update_node p (\<lambda>nd. nd\<lparr>alpha := a\<rparr>)) (\<lambda>_.
              bindM (update_node p (\<lambda>nd. nd\<lparr>beta := 0\<rparr>)) (\<lambda>_.
              bindM (update_node p (\<lambda>nd. nd\<lparr>trans_a := False\<rparr>)) (\<lambda>_.
              bindM (getM (\<lambda>st. trans_b (node st))) (\<lambda>tb.
              bindM (update_node p (\<lambda>nd. nd\<lparr>trans_b := \<not> tb\<rparr>)) (\<lambda>_.
              returnM gx0))))))))))) (\<lambda>gx0.
     bindM (gc_x gc 0) (\<lambda>x0.
     bindM (Op gb kShape [Some x0]) (\<lambda>shape0.
     bindM (GradOp gc kReshape 0 [Some gx0, Some shape0]) (\<lambda>_.
     returnM ())))))))"

text \<open>The second block, lines 433 to 445: the gradient of input 1.\<close>

definition GemmGradFn_input1 :: "GradientOpContext \<Rightarrow> nat option \<Rightarrow> unit M" where
  "GemmGradFn_input1 gc gy0 =
     (let node = (\<lambda>st. the_node (gc_node gc) st) in
     bindM (builder gc 1) (\<lambda>gb.
     bindM (getM (\<lambda>st. trans_b (node st))) (\<lambda>tb.
     bindM (if tb then
              bindM (gc_x gc 0) (\<lambda>x0.
              bindM (gc_x gc 1) (\<lambda>x1.
              bindM (Op gb kGemm [gy0, Some x0, Some x1]) (\<lambda>gx1.
              bindM (producer_of gx1) (\<lambda>p.
              bindM (getM (\<lambda>st. alpha (node st))) (\<lambda>a.
              bindM (update_node p (\<lambda>nd. nd\<lparr>alpha := a\<rparr>)) (\<lambda>_.
              bindM (update_node p (\<lambda>nd. nd\<lparr>beta := 0\<rparr>)) (\<lambda>_.
              bindM (update_node p (\<lambda>nd. nd\<lparr>trans_a := True\<rparr>)) (\<lambda>_.
              bindM (getM (\<lambda>st. trans_a (node st))) (\<lambda>ta.
              bindM (update_node p (\<lambda>nd. nd\<lparr>trans_b := ta\<rparr>)) (\<lambda>_.
              returnM gx1))))))))))
            else
              bindM (gc_x gc 0) (\<lambda>x0.
              bindM (gc_x gc 1) (\<lambda>x1.
              bindM (Op gb kGemm [Some x0, gy0, Some x1]) (\<lambda>gx1.
              bindM (producer_of gx1) (\<lambda>p.
              bindM (getM (\<lambda>st. alpha (node st))) (\<lambda>a.
              bindM (update_node p (\<lambda>nd. nd\<lparr>alpha := a\<rparr>)) (\<lambda>_.
              bindM (update_node p (\<lambda>nd. nd\<lparr>beta := 0\<rparr>)) (\<lambda>_.
              bindM (getM (\<lambda>st. trans_a (node st))) (\<lambda>ta.
              bindM (update_node p (\<lambda>nd. nd\<lparr>trans_a := \<not> ta\<rparr>)) (\<lambda>_.
              bindM (update_node p (\<lambda>nd. nd\<lparr>trans_b := False\<rparr>)) (\<lambda>_.
              returnM gx1))))))))))) (\<lambda>gx1.
     bindM (gc_x gc 1) (\<lambda>x1.
     bindM (Op gb kShape [Some x1]) (\<lambda>shape1.
     bindM (GradOp gc kReshape 1 [Some gx1, Some shape1]) (\<lambda>_.
     returnM ())))))))"

text \<open>The function: \<open>gy\<close>, the two blocks, and the gradient of the bias, line 447.\<close>

definition GemmGradFn :: "GradientOpContext \<Rightarrow> unit M" where
  "GemmGradFn gc =
     bindM (gc_gy gc 0) (\<lambda>gy0.
     bindM (GemmGradFn_input0 gc gy0) (\<lambda>_.
     bindM (GemmGradFn_input1 gc gy0) (\<lambda>_.
     bindM (GradOp gc kReduceSum 2 [gy0]) (\<lambda>gx2.
     bindM (producer_of gx2) (\<lambda>p.
     bindM (update_node p (\<lambda>nd. nd\<lparr>axes := [0]\<rparr>)) (\<lambda>_.
     update_node p (\<lambda>nd. nd\<lparr>keepdims := False\<rparr>)))))))"

subsection \<open>The loop rule\<close>

text \<open>\<open>OutputIterationCount\<close>, lines 536 to 557.\<close>

definition OutputIterationCount :: "nat \<Rightarrow> nat \<Rightarrow> unit M" where
  "OutputIterationCount graph loop =
     bindM (getM (\<lambda>st. int (length (inputs (the_node loop st))) - 2)) (\<lambda>num_states.
     bindM (getM (\<lambda>st. outputs (the_node loop st))) (\<lambda>outs.
     bindM (at_index outs 0) (\<lambda>out0.
     let gb = \<lparr>gb_graph = graph, gb_category = ''LoopGradIterCnt'', gb_target = out0\<rparr> in
     bindM (Const gb \<lparr>type_dtype = kInt64, type_dims = []\<rparr> [0]) (\<lambda>input_iter.
     bindM (Node_AddInput loop input_iter) (\<lambda>_.
     bindM (GenName gb) (\<lambda>nm.
     bindM (Graph_AddValue graph nm kTemp) (\<lambda>output_iter.
     bindM (Node_AddOutput loop output_iter num_states) (\<lambda>_.
     bindM (getM (\<lambda>st. body (the_node loop st))) (\<lambda>bd.
     case bd of
       None \<Rightarrow> fatal NullPointer
     | Some bdy \<Rightarrow>
         bindM (getM (\<lambda>st. outputs (the_node loop st))) (\<lambda>outs.
         bindM (at_index outs 0) (\<lambda>out0.
         let gb = \<lparr>gb_graph = bdy, gb_category = ''LoopGradIterCntBody'',
                   gb_target = out0\<rparr> in
         bindM (Const gb \<lparr>type_dtype = kInt64, type_dims = []\<rparr> [1]) (\<lambda>one.
         bindM (GenName gb) (\<lambda>nm_in.
         bindM (new_Value nm_in \<lparr>type_dtype = kInt64, type_dims = []\<rparr> kInput) (\<lambda>input_cnt.
         bindM (GenName gb) (\<lambda>nm_out.
         bindM (new_Value nm_out \<lparr>type_dtype = kInt64, type_dims = []\<rparr> kOutput) (\<lambda>output_cnt.
         bindM (Op_to gb kAdd [Some input_cnt, Some one] output_cnt) (\<lambda>_.
         bindM (update_graph bdy (\<lambda>gr. gr\<lparr>input_values := input_values gr @ [input_cnt]\<rparr>)) (\<lambda>_.
         update_graph bdy (\<lambda>gr. gr\<lparr>output_values := output_values gr @ [output_cnt]\<rparr>)
         ))))))))))))))))))"

text \<open>
  \<open>LoopGradFn\<close>, lines 559 to 634. \<open>AddGradientNodes\<close> (compiler/gradient.h) and
  \<open>Graph::ResetGradients\<close> are not part of the sources at hand: they are the parameters
  \<open>addGradientNodes\<close> and \<open>resetGradients\<close>.
\<close>

definition LoopGradFn ::
  "(nat \<Rightarrow> nat list \<Rightarrow> bool \<Rightarrow> unit M) \<Rightarrow> (nat \<Rightarrow> unit M) \<Rightarrow> GradientOpContext \<Rightarrow> unit M" where
  "LoopGradFn addGradientNodes resetGradients gc =
     (let graph = gc_graph gc; loop = gc_node gc in
     bindM (OutputIterationCount graph loop) (\<lambda>_.
     bindM (getM (\<lambda>st. body (the_node loop st))) (\<lambda>bd.
     case bd of
       None \<Rightarrow> fatal NullPointer
     | Some bdy \<Rightarrow>
     bindM (getM (\<lambda>st. int (length (inputs (the_node loop st))))) (\<lambda>num_loop_inputs.
     bindM (getM (\<lambda>st. int (length (outputs (the_node loop st))))) (\<lambda>num_loop_outputs.
     bindM (getM (\<lambda>st. int (length (input_values (the_graph bdy st))))) (\<lambda>num_body_inputs.
     bindM (getM (\<lambda>st. int (length (output_values (the_graph bdy st))))) (\<lambda>num_body_outputs.
     let num_states = num_loop_inputs - 2;
         num_scans = num_body_outputs - 1 - num_states in
     bindM (CHECK (num_body_inputs = num_states + 2) LoopShapeCheckFailed) (\<lambda>_.
     bindM (CHECK (num_loop_outputs = num_states + num_scans) LoopShapeCheckFailed) (\<lambda>_.
     bindM (CHECK (0 = num_scans) NotImplementedYet) (\<lambda>_.
     bindM (getM (\<lambda>st. onikux_stack_axis (the_node loop st))) (\<lambda>stack_axis.
     bindM (CHECK (0 = stack_axis) NotImplementedYet) (\<lambda>_.
     bindM (getM (\<lambda>st. inputs (the_node loop st))) (\<lambda>xs.
     bindM (at_index xs 0) (\<lambda>xs0.
     let gb = \<lparr>gb_graph = bdy, gb_category = ''LoopGradBody'', gb_target = xs0\<rparr>;
         states = map int [0..<nat (num_states - 1)] in
     bindM (mapM (\<lambda>_. bindM (GenName gb) (\<lambda>nm.
                       bindM (Graph_AddValue bdy nm kTemp) (\<lambda>v.
                       getM (\<lambda>st. name (the_value v st))))) [0, 1::int]) (\<lambda>names0.
     bindM (mapM (\<lambda>i.
              bindM (getM (\<lambda>st. output_values (the_graph bdy st))) (\<lambda>bouts.
              bindM (at_index bouts (i + 1)) (\<lambda>y.
              bindM (getM (\<lambda>st. name (the_value y st))) (\<lambda>ynm.
              bindM (Graph_AddValue bdy (''loop_grad_in@'' @ ynm) kTemp) (\<lambda>gy.
              bindM (getM (\<lambda>st. grad (the_value y st))) (\<lambda>g.
              bindM (CHECK (g = None) GradientCheckFailed) (\<lambda>_.
              bindM (Op gb kIdentity [Some gy]) (\<lambda>v.
              bindM (update_value y (\<lambda>val. val\<lparr>grad := Some v\<rparr>)) (\<lambda>_.
              bindM (getM (\<lambda>st. name (the_value gy st))) (\<lambda>gnm.
              returnM (y, gnm))))))))))) states) (\<lambda>ys_names.
     let ys = map fst ys_names;
         input_value_names = names0 @ map snd ys_names in
     bindM (addGradientNodes bdy ys True) (\<lambda>_.
     bindM (Const gb \<lparr>type_dtype = kBool, type_dims = []\<rparr> [1]) (\<lambda>output_cond.
     bindM (getM (\<lambda>st. name (the_value output_cond st))) (\<lambda>cond_name.
     bindM (mapM (\<lambda>i.
              bindM (getM (\<lambda>st. input_values (the_graph bdy st))) (\<lambda>bins.
              bindM (at_index bins (i + 2)) (\<lambda>xv.
              bindM (getM (\<lambda>st. grad (the_value xv st))) (\<lambda>g.
              bindM (CHECK (g \<noteq> None) GradientCheckFailed) (\<lambda>_.
              bindM (Op gb kIdentity [g]) (\<lambda>out.
              getM (\<lambda>st. name (the_value out st)))))))) states) (\<lambda>out_names.
     let output_value_names = cond_name # out_names;
         gb = \<lparr>gb_graph = graph, gb_category = ''LoopGrad'', gb_target = xs0\<rparr> in
     bindM (mapM (\<lambda>i.
              bindM (getM (\<lambda>st. outputs (the_node loop st))) (\<lambda>ys.
              bindM (at_index ys i) (\<lambda>y.
              bindM (getM (\<lambda>st. grad (the_value y st))) (\<lambda>g.
              bindM (CHECK (g \<noteq> None) GradientCheckFailed) (\<lambda>_.
              returnM g))))) states) (\<lambda>gys.
     bindM (mapM (\<lambda>i.
              bindM (getM (\<lambda>st. input_values (the_graph bdy st))) (\<lambda>bins.
              bindM (at_index bins (i + 2)) (\<lambda>xv.
              bindM (getM (\<lambda>st. grad (the_value xv st))) (\<lambda>g.
              bindM (CHECK (g \<noteq> None) GradientCheckFailed) (\<lambda>_.
              AddGradValue gc (i + 2)))))) states) (\<lambda>gxs.
     bindM (getM (\<lambda>st. outputs (the_node loop st))) (\<lambda>ys.
     bindM (at_index ys (num_states - 1)) (\<lambda>last_state.
     bindM (Graph_AddValue graph [] kNull) (\<lambda>null_value.
     let backward_inputs = Some last_state # Some null_value # gys in
     bindM (MOp gb kOnikuxLoopRef backward_inputs gxs) (\<lambda>backward_loop.
     bindM (getM (\<lambda>st. graph_name (the_graph bdy st))) (\<lambda>body_name.
     bindM (CHECK (body_name \<noteq> []) LoopBodyUnnamed) (\<lambda>_.
     bindM (update_node backward_loop (\<lambda>nd. nd\<lparr>body_ref := body_name\<rparr>)) (\<lambda>_.
     bindM (update_node backward_loop (\<lambda>nd. nd\<lparr>input_value_names := input_value_names\<rparr>)) (\<lambda>_.
     bindM (update_node backward_loop (\<lambda>nd. nd\<lparr>output_value_names := output_value_names\<rparr>)) (\<lambda>_.
     resetGradients bdy
     )))))))))))))))))))))))))))))))"


section \<open>Registry and dispatch (AddGradientForNode, lines 651 to 721)\<close>

text \<open>A rule is a function pointer in the source; here it is the name of the function.\<close>

datatype GradFn =
    AddGradFn_ptr | SubGradFn_ptr | MulGradFn_ptr | DivGradFn_ptr | NegGradFn_ptr
  | ExpGradFn_ptr | SigmoidGradFn_ptr | ReluGradFn_ptr | SqrtGradFn_ptr | TanhGradFn_ptr
  | IdentityGradFn_ptr | ReshapeGradFn_ptr | SelectItemGradFn_ptr | ReduceSumGradFn_ptr
  | ReduceMeanGradFn_ptr | GemmGradFn_ptr | ConvGradFn_ptr | MaxPoolGradFn_ptr
  | AveragePoolGradFn_ptr | LogSoftmaxGradFn_ptr | SoftmaxGradFn_ptr
  | BatchNormalizationGradFn_ptr | LRNGradFn_ptr | DoNothingGradFn_ptr | LoopGradFn_ptr
  | SequenceStackGradFn_ptr | SequenceAppendGradFn_ptr

record GradientFunc =
  num_inputs :: int
  num_outputs :: int
  fn :: GradFn

text \<open>
  \<open>register_grad_fn\<close>, lines 666 to 672: the registry is a \<open>std::map\<close>, here an
  association list in the order of registration; registering a kind twice fails the check.
\<close>

definition register_grad_fn ::
  "OpType \<times> int \<times> int \<times> GradFn \<Rightarrow> (OpType \<times> GradientFunc) list
     \<Rightarrow> error + (OpType \<times> GradientFunc) list" where
  "register_grad_fn r funcs =
     (case r of (op, n_in, n_out, f) \<Rightarrow>
        if op \<in> fst ` set funcs then Inl (DuplicateRegistration op)
        else Inr (funcs @ [(op, \<lparr>num_inputs = n_in, num_outputs = n_out, fn = f\<rparr>)]))"

fun register_all ::
  "(OpType \<times> int \<times> int \<times> GradFn) list \<Rightarrow> (OpType \<times> GradientFunc) list
     \<Rightarrow> error + (OpType \<times> GradientFunc) list" where
  "register_all [] funcs = Inr funcs"
| "register_all (r # rs) funcs =
     (case register_grad_fn r funcs of Inl e \<Rightarrow> Inl e | Inr funcs' \<Rightarrow> register_all rs funcs')"

text \<open>The registrations of lines 674 to 710, in the order of the source.\<close>

definition registrations :: "(OpType \<times> int \<times> int \<times> GradFn) list" where
  "registrations =
     [(kAdd, 2, 1, AddGradFn_ptr),
      (kSub, 2, 1, SubGradFn_ptr),
      (kMul, 2, 1, MulGradFn_ptr),
      (kDiv, 2, 1, DivGradFn_ptr),
      (kNeg, 1, 1, NegGradFn_ptr),
      (kExp, 1, 1, ExpGradFn_ptr),
      (kSigmoid, 1, 1, SigmoidGradFn_ptr),
      (kRelu, 1, 1, ReluGradFn_ptr),
      (kSqrt, 1, 1, SqrtGradFn_ptr),
      (kTanh, 1, 1, TanhGradFn_ptr),
      (kIdentity, 1, 1, IdentityGradFn_ptr),
      (kReshape, 2, 1, ReshapeGradFn_ptr),
      (kOnikuxSelectItem, 2, 1, SelectItemGradFn_ptr),
      (kReduceSum, 1, 1, ReduceSumGradFn_ptr),
      (kReduceMean, 1, 1, ReduceMeanGradFn_ptr),
      (kGemm, 3, 1, GemmGradFn_ptr),
      (kConv, -1, 1, ConvGradFn_ptr),
      (kMaxPool, 1, 1, MaxPoolGradFn_ptr),
      (kAveragePool, 1, 1, AveragePoolGradFn_ptr),
      (kLogSoftmax, 1, 1, LogSoftmaxGradFn_ptr),
      (kSoftmax, 1, 1, SoftmaxGradFn_ptr),
      (kBatchNormalization, 5, -1, BatchNormalizationGradFn_ptr),
      (kLRN, 1, 1, LRNGradFn_ptr),
      (kDropout, 1, 1, IdentityGradFn_ptr),
      (kGreater, 2, 1, DoNothingGradFn_ptr),
      (kConstant, 0, 1, DoNothingGradFn_ptr),
      (kLoop, -1, -1, LoopGradFn_ptr),
      (kOnikuxSequenceStack, 1, 1, SequenceStackGradFn_ptr),
      (kOnikuxSequenceAppend, 2, 1, SequenceAppendGradFn_ptr)]"

definition s_gradient_funcs :: "error + (OpType \<times> GradientFunc) list" where
  "s_gradient_funcs = register_all registrations []"

text \<open>
  \<open>AddGradientForNode\<close>, lines 661 to 721. \<open>call\<close> is the call through the function
  pointer: it gives each rule its behaviour.
\<close>

definition AddGradientForNode ::
  "(GradFn \<Rightarrow> GradientOpContext \<Rightarrow> unit M) \<Rightarrow> nat \<Rightarrow> nat \<Rightarrow> bool \<Rightarrow> unit M" where
  "AddGradientForNode call graph node retain_in_stack =
     (case s_gradient_funcs of
        Inl e \<Rightarrow> fatal e
      | Inr funcs \<Rightarrow>
          bindM (getM (\<lambda>st. op_type (the_node node st))) (\<lambda>op.
          case map_of funcs op of
            None \<Rightarrow> fatal (GradientNotSupported op)
          | Some func \<Rightarrow>
              bindM (getM (\<lambda>st. length (inputs (the_node node st)))) (\<lambda>n_in.
              bindM (if num_inputs func \<ge> 0
                     then CHECK (nat (num_inputs func) = n_in) (ArityMismatch (num_inputs func) n_in)
                     else returnM ()) (\<lambda>_.
              bindM (getM (\<lambda>st. length (outputs (the_node node st)))) (\<lambda>n_out.
              bindM (if num_outputs func \<ge> 0
                     then CHECK (nat (num_outputs func) = n_out) (ArityMismatch (num_outputs func) n_out)
                     else returnM ()) (\<lambda>_.
              bindM (getM (new_GradientOpContext graph node retain_in_stack)) (\<lambda>gc.
              call (fn func) gc)))))))"

section \<open>Notions used to state the properties\<close>

subsection \<open>Sequences of context accesses and of gradient contributions\<close>

text \<open>A context access is \<open>x(i)\<close> or \<open>y(i)\<close>; its operand is the value it reads.\<close>

datatype accessor = X int | Y int

fun access :: "GradientOpContext \<Rightarrow> accessor \<Rightarrow> nat M" where
  "access gc (X i) = gc_x gc i"
| "access gc (Y i) = gc_y gc i"

fun operand :: "GradientOpContext \<Rightarrow> accessor \<Rightarrow> Store \<Rightarrow> nat option" where
  "operand gc (X i) st =
     (if 0 \<le> i \<and> i < int (length (gc_xs gc st)) then Some (gc_xs gc st ! nat i) else None)"
| "operand gc (Y i) st =
     (if 0 \<le> i \<and> i < int (length (gc_ys gc st)) then Some (gc_ys gc st ! nat i) else None)"

text \<open>
  The correlation ids handed out by a sequence of accesses, each made by its own context,
  one after the other: the id on the pop node of each retained copy. A failing access
  aborts the process.
\<close>

fun access_ids :: "(GradientOpContext \<times> accessor) list \<Rightarrow> Store \<Rightarrow> 32 word list" where
  "access_ids [] st = []"
| "access_ids ((gc, a) # rs) st =
     (case access gc a st of
        Inl _ \<Rightarrow> []
      | Inr (v', st') \<Rightarrow>
          (if gc_retain_in_stack gc
           then (case producer (the_value v' st') of
                   None \<Rightarrow> []
                 | Some pop \<Rightarrow> [id_attr (the_node pop st')])
           else []) @ access_ids rs st')"

text \<open>
  The contributions of several consumers to the gradient of one value: \<open>SetGrad\<close> called
  by each consumer's context, one after the other.
\<close>

fun SetGrads :: "(GradientOpContext \<times> int \<times> nat) list \<Rightarrow> unit M" where
  "SetGrads [] = returnM ()"
| "SetGrads ((gc, xi, g) # cs) = bindM (SetGrad gc xi (Some g)) (\<lambda>_. SetGrads cs)"

text \<open>A consumer of the value \<open>xv\<close>: a context whose input \<open>xi\<close> is \<open>xv\<close>.\<close>

definition consumer_of :: "nat \<Rightarrow> Store \<Rightarrow> GradientOpContext \<times> int \<times> nat \<Rightarrow> bool" where
  "consumer_of xv st c =
     (case c of (gc, xi, g) \<Rightarrow>
        gc_node gc < length (node_heap st) \<and> gc_graph gc < length (graph_heap st) \<and>
        0 \<le> xi \<and> xi < int (length (gc_xs gc st)) \<and> gc_xs gc st ! nat xi = xv \<and>
        g < length (value_heap st))"

subsection \<open>Evaluation of a graph\<close>

text \<open>
  One store extends another when it keeps every value (but for its gradient link) and
  every node of the other.
\<close>

definition extends :: "Store \<Rightarrow> Store \<Rightarrow> bool" where
  "extends st st' \<longleftrightarrow>
     length (value_heap st) \<le> length (value_heap st') \<and>
     length (node_heap st) \<le> length (node_heap st') \<and>
     length (graph_heap st) = length (graph_heap st') \<and>
     (\<forall>v < length (value_heap st).
        kind (value_heap st' ! v) = kind (value_heap st ! v) \<and>
        name (value_heap st' ! v) = name (value_heap st ! v) \<and>
        type (value_heap st' ! v) = type (value_heap st ! v) \<and>
        producer (value_heap st' ! v) = producer (value_heap st ! v)) \<and>
     (\<forall>n < length (node_heap st). node_heap st' ! n = node_heap st ! n)"

definition same_grads :: "Store \<Rightarrow> Store \<Rightarrow> bool" where
  "same_grads st st' \<longleftrightarrow>
     (\<forall>v < length (value_heap st). grad (value_heap st' ! v) = grad (value_heap st ! v))"

text \<open>
  The value a graph computes for one of its values, given the kernel \<open>K\<close> of every node
  (what the node computes from its inputs) and the contents \<open>\<rho>\<close> of the values that no node
  produces. A value popped from the backprop stack is the value pushed under the same
  correlation id.
\<close>

inductive evals ::
  "(Node \<Rightarrow> 'a list \<Rightarrow> 'a option) \<Rightarrow> Store \<Rightarrow> (nat \<Rightarrow> 'a) \<Rightarrow> nat \<Rightarrow> 'a \<Rightarrow> bool"
  for K :: "Node \<Rightarrow> 'a list \<Rightarrow> 'a option" and st :: Store and \<rho> :: "nat \<Rightarrow> 'a" where
  leaf: "v < length (value_heap st) \<Longrightarrow> producer (value_heap st ! v) = None \<Longrightarrow>
         evals K st \<rho> v (\<rho> v)"
| node: "v < length (value_heap st) \<Longrightarrow> producer (value_heap st ! v) = Some n \<Longrightarrow>
         n < length (node_heap st) \<Longrightarrow>
         op_type (node_heap st ! n) \<noteq> kOnikuxBackpropStackPop \<Longrightarrow>
         outputs (node_heap st ! n) = [v] \<Longrightarrow>
         list_all2 (evals K st \<rho>) (inputs (node_heap st ! n)) rs \<Longrightarrow>
         K (node_heap st ! n) rs = Some r \<Longrightarrow> evals K st \<rho> v r"
| pop: "v < length (value_heap st) \<Longrightarrow> producer (value_heap st ! v) = Some n \<Longrightarrow>
        n < length (node_heap st) \<Longrightarrow>
        op_type (node_heap st ! n) = kOnikuxBackpropStackPop \<Longrightarrow>
        m < length (node_heap st) \<Longrightarrow>
        op_type (node_heap st ! m) = kOnikuxBackpropStackPush \<Longrightarrow>
        id_attr (node_heap st ! m) = id_attr (node_heap st ! n) \<Longrightarrow>
        inputs (node_heap st ! m) = [u] \<Longrightarrow> evals K st \<rho> u r \<Longrightarrow> evals K st \<rho> v r"

text \<open>
  The kernels of the elementwise operators on a single real element: \<open>AddOp\<close>, \<open>SubOp\<close>,
  \<open>MulOp\<close> and \<open>NegOp\<close> of lines 45 to 85 (operands of one floating dtype, so the
  coercion changes nothing), a constant holding one element, and the identity. Every other
  operator is left to the parameter \<open>ext\<close>.
\<close>

definition elementwise_kernel :: "(Node \<Rightarrow> real list \<Rightarrow> real option) \<Rightarrow> Node \<Rightarrow> real list \<Rightarrow> real option" where
  "elementwise_kernel ext nd args =
     (if op_type nd = kAdd then (case args of [a, b] \<Rightarrow> Some (a + b) | _ \<Rightarrow> None)
      else if op_type nd = kSub then (case args of [a, b] \<Rightarrow> Some (a - b) | _ \<Rightarrow> None)
      else if op_type nd = kMul then (case args of [a, b] \<Rightarrow> Some (a * b) | _ \<Rightarrow> None)
      else if op_type nd = kNeg then (case args of [a] \<Rightarrow> Some (- a) | _ \<Rightarrow> None)
      else if op_type nd = kIdentity then (case args of [a] \<Rightarrow> Some a | _ \<Rightarrow> None)
      else if op_type nd = kConstant then
        (case (tensor_value nd, args) of (Some (ty, [c]), []) \<Rightarrow> Some c | _ \<Rightarrow> None)
      else ext nd args)"

subsection \<open>A store to run the code on\<close>

text \<open>
  One graph with a 32-bit float value \<open>x\<close> (pointer 0) and its sigmoid \<open>y\<close> (1), whose
  gradient \<open>gy\<close> (2) is attached; a 64-bit float value \<open>u\<close> (3) and its sigmoid \<open>z\<close> (4);
  the shape \<open>s\<close> of \<open>x\<close> (5); and an add node with a single input.
\<close>

definition example_value :: "string \<Rightarrow> Dtype \<Rightarrow> nat option \<Rightarrow> nat option \<Rightarrow> Value" where
  "example_value nm d p g =
     \<lparr>kind = kTemp, name = nm, type = \<lparr>type_dtype = d, type_dims = []\<rparr>,
      producer = p, grad = g\<rparr>"

definition example_store :: Store where
  "example_store =
     \<lparr>value_heap =
        [example_value ''x'' kFloat32 None None,
         example_value ''y'' kFloat32 (Some 0) (Some 2),
         example_value ''gy'' kFloat32 None None,
         example_value ''u'' kFloat64 None None,
         example_value ''z'' kFloat64 (Some 1) (Some 2),
         example_value ''s'' kInt64 (Some 2) None,
         example_value ''w'' kFloat32 (Some 3) None],
      node_heap =
        [new_Node kSigmoid [0] [1] ''Sigmoid_0'',
         new_Node kSigmoid [3] [4] ''Sigmoid_1'',
         new_Node kShape [0] [5] ''Shape_0'',
         new_Node kAdd [0] [6] ''Add_0''],
      graph_heap =
        [\<lparr>graph_name = ''main'', nodes = [0, 1, 2, 3], all_values = [0, 1, 2, 3, 4, 5, 6],
          input_values = [], output_values = []\<rparr>],
      id_counter = 0, gensym = 0\<rparr>"

definition example_context :: "nat \<Rightarrow> bool \<Rightarrow> GradientOpContext" where
  "example_context node retain = new_GradientOpContext 0 node retain example_store"

subsection \<open>What a rule adds to a gradient\<close>

text \<open>A store grows from another when it extends it and keeps the gradient links.\<close>

definition grows :: "Store \<Rightarrow> Store \<Rightarrow> bool" where
  "grows st st' \<longleftrightarrow> extends st st' \<and> same_grads st st'"

text \<open>
  Between the stores \<open>st\<close> and \<open>st'\<close> the gradient of the value \<open>xv\<close> was incremented by
  \<open>c\<close>: \<open>xv\<close> has a gradient in \<open>st'\<close>, which evaluates to \<open>c\<close> when \<open>xv\<close> had no gradient in
  \<open>st\<close>, and to \<open>r + c\<close> when \<open>xv\<close> had one that evaluates to \<open>r\<close>.
\<close>

definition gradient_increment ::
  "(Node \<Rightarrow> real list \<Rightarrow> real option) \<Rightarrow> (nat \<Rightarrow> real) \<Rightarrow> Store \<Rightarrow> Store \<Rightarrow> nat \<Rightarrow> real \<Rightarrow> bool" where
  "gradient_increment K \<rho> st st' xv c =
     (case grad (the_value xv st') of
        None \<Rightarrow> False
      | Some s \<Rightarrow>
          (case grad (the_value xv st) of
             None \<Rightarrow> evals K st' \<rho> s c
           | Some og \<Rightarrow> (\<forall>r. evals K st \<rho> og r \<longrightarrow> evals K st' \<rho> s (r + c))))"

text \<open>
  Modelled from the spec: the sigmoid operator, whose kernel is not among the source files,
  computes the logistic function. It is an example of the parameter \<open>ext\<close> above.
\<close>

definition logistic_kernel :: "Node \<Rightarrow> real list \<Rightarrow> real option" where
  "logistic_kernel nd args =
     (if op_type nd = kSigmoid
      then (case args of [v] \<Rightarrow> Some (1 / (1 + exp (- v))) | _ \<Rightarrow> None)
      else None)"

subsection \<open>Loop nodes\<close>

text \<open>
  The number of scan outputs of a loop: the outputs of its body beyond the condition and
  the states, the states being the inputs of the loop beyond the trip count and the
  condition.
\<close>

definition num_scans_of :: "nat \<Rightarrow> nat \<Rightarrow> Store \<Rightarrow> int" where
  "num_scans_of loop bdy st =
     int (length (output_values (the_graph bdy st))) - 1
       - (int (length (inputs (the_node loop st))) - 2)"

text \<open>
  A loop node the rule can count the iterations of: the node and its body are allocated,
  the loop has an output, and the position after its states is a position of its outputs.
\<close>

definition loop_node_ok :: "nat \<Rightarrow> nat \<Rightarrow> Store \<Rightarrow> bool" where
  "loop_node_ok loop bdy st \<longleftrightarrow>
     loop < length (node_heap st) \<and> body (the_node loop st) = Some bdy \<and>
     bdy < length (graph_heap st) \<and> outputs (the_node loop st) \<noteq> [] \<and>
     0 \<le> int (length (inputs (the_node loop st))) - 2 \<and>
     int (length (inputs (the_node loop st))) - 2 \<le> int (length (outputs (the_node loop st)))"

text \<open>The shape checks of lines 572 and 573, on the loop as it was before the rule.\<close>

definition loop_shape_ok :: "nat \<Rightarrow> nat \<Rightarrow> Store \<Rightarrow> bool" where
  "loop_shape_ok loop bdy st \<longleftrightarrow>
     length (input_values (the_graph bdy st)) = length (inputs (the_node loop st)) \<and>
     int (length (outputs (the_node loop st)))
       = int (length (inputs (the_node loop st))) - 2 + num_scans_of loop bdy st"

text \<open>
  A store with a loop: the main graph holds the trip count (pointer 0), the condition (1),
  one state \<open>s\<close> (2), the loop's state output (3), whose gradient (4) is attached, and a
  scan output (9); the body holds its iteration (5), condition (6) and state (7) inputs and
  its condition output (8), and passes the state through. The loop has the scan output, and
  its body the matching output, when \<open>scan\<close> is set.
\<close>

definition example_loop_store :: "bool \<Rightarrow> int \<Rightarrow> Store" where
  "example_loop_store scan axis =
     \<lparr>value_heap =
        [example_value ''trip'' kInt64 None None,
         example_value ''cond'' kBool None None,
         example_value ''s'' kFloat32 None None,
         example_value ''s_out'' kFloat32 (Some 0) (Some 4),
         example_value ''gs_out'' kFloat32 None None,
         (example_value ''iter'' kInt64 None None)\<lparr>kind := kInput\<rparr>,
         (example_value ''cond_in'' kBool None None)\<lparr>kind := kInput\<rparr>,
         (example_value ''s_in'' kFloat32 None None)\<lparr>kind := kInput\<rparr>,
         (example_value ''cond_out'' kBool None None)\<lparr>kind := kOutput\<rparr>,
         example_value ''scan_out'' kFloat32 (Some 0) None],
      node_heap =
        [(new_Node kLoop [0, 1, 2] (if scan then [3, 9] else [3]) ''Loop_0'')
           \<lparr>onikux_stack_axis := axis, body := Some 1\<rparr>],
      graph_heap =
        [\<lparr>graph_name = ''main'', nodes = [0], all_values = [0, 1, 2, 3, 4, 9],
          input_values = [], output_values = []\<rparr>,
         \<lparr>graph_name = ''body'', nodes = [], all_values = [5, 6, 7, 8],
          input_values = [5, 6, 7],
          output_values = (if scan then [8, 7, 7] else [8, 7])\<rparr>],
      id_counter = 0, gensym = 0\<rparr>"

definition example_loop_context :: "bool \<Rightarrow> int \<Rightarrow> GradientOpContext" where
  "example_loop_context scan axis =
     new_GradientOpContext 0 0 False (example_loop_store scan axis)"

subsection \<open>Matrices and the closed forms of the Gemm gradients\<close>

text \<open>A matrix of \<open>r\<close> rows and \<open>c\<close> columns.\<close>

definition is_matrix :: "real Array \<Rightarrow> Dtype \<Rightarrow> nat \<Rightarrow> nat \<Rightarrow> bool" where
  "is_matrix a d r c \<longleftrightarrow> dtype a = d \<and> shape a = [r, c] \<and> length (data a) = r * c"

text \<open>
  The closed forms, in the words of the spec. The forward node computes
  \<open>Y = alpha \<cdot> A' \<cdot> B' + beta \<cdot> C\<close>, where \<open>A'\<close> is \<open>A\<close>, transposed when \<open>trans_a\<close> is set,
  and \<open>B'\<close> likewise. The gradient of \<open>A'\<close> is \<open>alpha \<cdot> dY \<cdot> B'\<^sup>T\<close> and the gradient of \<open>B'\<close> is
  \<open>alpha \<cdot> A'\<^sup>T \<cdot> dY\<close>; the gradient of a transposed operand is the transpose of that. The
  gradient of the bias is the sum of the rows of \<open>dY\<close>.
\<close>

definition gemm_grad_a :: "real \<Rightarrow> bool \<Rightarrow> bool \<Rightarrow> real Array \<Rightarrow> real Array \<Rightarrow> real Array" where
  "gemm_grad_a al ta tb dY B =
     (let d = mat_scale (mat_mul dY (mat_T (if tb then mat_T B else B))) al
      in if ta then mat_T d else d)"

definition gemm_grad_b :: "real \<Rightarrow> bool \<Rightarrow> bool \<Rightarrow> real Array \<Rightarrow> real Array \<Rightarrow> real Array" where
  "gemm_grad_b al ta tb A dY =
     (let d = mat_scale (mat_mul (mat_T (if ta then mat_T A else A)) dY) al
      in if tb then mat_T d else d)"

definition sum_rows :: "real Array \<Rightarrow> real Array" where
  "sum_rows a =
     \<lparr>dtype = dtype a, shape = [shape a ! 1],
      data = map (\<lambda>j. sum_list (map (\<lambda>i. at2 a i j) [0..<shape a ! 0])) [0..<shape a ! 1]\<rparr>"

text \<open>
  Modelled from the spec: the shape operator gives the dimensions of its operand, and the
  reshape operator gives its first operand the dimensions held by the second, when they
  have as many elements; the reduce-sum operator over axis 0 without kept dimensions sums
  the rows of a matrix. Their kernels are not among the source files.
\<close>

definition ShapeOp :: "real Array \<Rightarrow> real Array" where
  "ShapeOp a = \<lparr>dtype = kInt64, shape = [length (shape a)], data = map real (shape a)\<rparr>"

definition ReshapeOp :: "real Array \<Rightarrow> real Array \<Rightarrow> real Array option" where
  "ReshapeOp a s =
     (let dims = map (\<lambda>v. nat \<lfloor>v\<rfloor>) (data s)
      in if prod_list dims = length (data a) then Some (a\<lparr>shape := dims\<rparr>) else None)"

text \<open>
  The kernels of the nodes that the Gemm rule adds, on arrays: a Gemm node computes
  \<open>GemmOp::RunImpl\<close> with its attributes, and an add node computes \<open>AddOp::RunImpl\<close>, the
  parameter \<open>AddOp\<close> (lines 45 to 48; it calls the array runtime). Every other operator is
  left to the parameter \<open>ext\<close>.
\<close>

definition array_kernel ::
  "(real Array \<Rightarrow> real Array \<Rightarrow> real Array \<Rightarrow> error + real Array) \<Rightarrow>
   (real Array \<Rightarrow> real Array \<Rightarrow> error + real Array) \<Rightarrow>
   (real Array \<Rightarrow> real Array \<Rightarrow> real Array option) \<Rightarrow>
   (Node \<Rightarrow> real Array list \<Rightarrow> real Array option) \<Rightarrow> Node \<Rightarrow> real Array list \<Rightarrow> real Array option" where
  "array_kernel Linear Plus AddOp ext nd args =
     (if op_type nd = kGemm then
        (case args of
           [a, b, c] \<Rightarrow>
             (case GemmOp_RunImpl Linear Plus (alpha nd) (beta nd) (trans_a nd) (trans_b nd) a b c of
                Inl _ \<Rightarrow> None
              | Inr r \<Rightarrow> Some r)
         | _ \<Rightarrow> None)
      else if op_type nd = kAdd then (case args of [a, b] \<Rightarrow> AddOp a b | _ \<Rightarrow> None)
      else if op_type nd = kShape then (case args of [a] \<Rightarrow> Some (ShapeOp a) | _ \<Rightarrow> None)
      else if op_type nd = kReshape then (case args of [a, s] \<Rightarrow> ReshapeOp a s | _ \<Rightarrow> None)
      else if op_type nd = kReduceSum \<and> axes nd = [0] \<and> \<not> keepdims nd then
        (case args of [a] \<Rightarrow> Some (sum_rows a) | _ \<Rightarrow> None)
      else ext nd args)"

text \<open>
  A contribution of \<open>c\<close> to the gradient of the value \<open>xv\<close>, between the stores \<open>st\<close> and
  \<open>st'\<close>, for values of any kind, added by \<open>add\<close>: the store is extended, no other
  gradient changes, and the gradient of \<open>xv\<close> evaluates to \<open>c\<close> when \<open>xv\<close> had no gradient,
  and to the sum of the old gradient and \<open>c\<close> when it had one.
\<close>

definition contributes ::
  "('a \<Rightarrow> 'a \<Rightarrow> 'a option) \<Rightarrow> (Node \<Rightarrow> 'a list \<Rightarrow> 'a option) \<Rightarrow> (nat \<Rightarrow> 'a) \<Rightarrow>
   Store \<Rightarrow> Store \<Rightarrow> nat \<Rightarrow> 'a \<Rightarrow> bool" where
  "contributes add K \<rho> st st' xv c \<longleftrightarrow>
     extends st st' \<and>
     (\<forall>u < length (value_heap st). u \<noteq> xv \<longrightarrow> grad (the_value u st') = grad (the_value u st)) \<and>
     (case grad (the_value xv st') of
        None \<Rightarrow> False
      | Some s \<Rightarrow>
          (case grad (the_value xv st) of
             None \<Rightarrow> evals K st' \<rho> s c
           | Some og \<Rightarrow>
               (\<forall>r t. evals K st \<rho> og r \<longrightarrow> add r c = Some t \<longrightarrow> evals K st' \<rho> s t)))"

text \<open>
  A store with a Gemm node: the operands \<open>a\<close> (pointer 0), \<open>b\<close> (1) and \<open>c\<close> (2), and the
  output \<open>y\<close> (3), whose gradient \<open>gy\<close> (4) is attached. The node scales by 2 and
  transposes its second operand. The arrays are a 1 by 2 matrix for \<open>a\<close> and for \<open>b\<close>, and
  a 1 by 1 matrix for \<open>gy\<close>.
\<close>

definition example_gemm_store :: Store where
  "example_gemm_store =
     \<lparr>value_heap =
        [example_value ''a'' kFloat32 None None,
         example_value ''b'' kFloat32 None None,
         example_value ''c'' kFloat32 None None,
         example_value ''y'' kFloat32 (Some 0) (Some 4),
         example_value ''gy'' kFloat32 None None],
      node_heap = [(new_Node kGemm [0, 1, 2] [3] ''Gemm_0'')\<lparr>alpha := 2, trans_b := True\<rparr>],
      graph_heap =
        [\<lparr>graph_name = ''main'', nodes = [0], all_values = [0, 1, 2, 3, 4],
          input_values = [], output_values = []\<rparr>],
      id_counter = 0, gensym = 0\<rparr>"

definition example_gemm_context :: GradientOpContext where
  "example_gemm_context = new_GradientOpContext 0 0 True example_gemm_store"

definition example_matrix :: "nat \<Rightarrow> nat \<Rightarrow> real list \<Rightarrow> real Array" where
  "example_matrix r c xs = \<lparr>dtype = kFloat32, shape = [r, c], data = xs\<rparr>"

definition example_arrays :: "nat \<Rightarrow> real Array" where
  "example_arrays v =
     (if v = 0 then example_matrix 1 2 [1, 2]
      else if v = 1 then example_matrix 1 2 [5, 7]
      else example_matrix 1 1 [3])"

section \<open>Properties of the numeric execution layer\<close>

text \<open>
  C2. For every pair of operand dtypes the coercion function of the code follows exactly
  the precedence the spec gives: equal dtypes are kept, then floating beats non-floating,
  then the wider item size wins, then a boolean loses, then unsigned 8-bit gives signed
  16-bit, and every remaining pair is the fatal unsupported-coercion error. This holds
  whatever \<open>IsFloat\<close> and \<open>GetItemSize\<close> compute.
\<close>

theorem CoerceDtype_follows_spec:
  "CoerceDtype isFloat itemSize a b = coerce_spec isFloat itemSize a b"
  unfolding CoerceDtype_def coerce_spec_def by auto

text \<open>
  C3. The coercion function is commutative: the two orders of a pair give the same dtype,
  or both hit the fatal error (reported with the operands in the order given). And it is
  total: a pair yields one of its operands or signed 16-bit, or else the explicit
  unsupported-coercion error, and nothing else.
\<close>

theorem CoerceDtype_commutative_total:
  "(case CoerceDtype isFloat itemSize a b of
      Inr d \<Rightarrow> CoerceDtype isFloat itemSize b a = Inr d \<and> d \<in> {a, b, kInt16}
    | Inl e \<Rightarrow> e = UnknownTypeCoerce a b
        \<and> CoerceDtype isFloat itemSize b a = Inl (UnknownTypeCoerce b a))"
  unfolding CoerceDtype_def by auto












text \<open>
  C10. For an input array whose dtype is not floating, the Floor and Ceil operators return
  the input array itself, whatever the rounding routines would do (even a routine that
  throws): the routine is not applied. For a floating dtype the operator is the routine.
\<close>

theorem Floor_Ceil_identity_on_non_float:
  "(\<not> isFloat (dtype x) \<longrightarrow>
      FloorOp_RunImpl isFloat Floor x = Inr x \<and> CeilOp_RunImpl isFloat Ceil x = Inr x) \<and>
   (isFloat (dtype x) \<longrightarrow>
      FloorOp_RunImpl isFloat Floor x = Floor x \<and> CeilOp_RunImpl isFloat Ceil x = Ceil x)"
  by (simp add: FloorOp_RunImpl_def CeilOp_RunImpl_def)

theorem Floor_Ceil_identity_on_non_float_witness:
  "\<not> IsFloat (dtype \<lparr>dtype = kInt32, shape = [2], data = [7, -3::int]\<rparr>) \<and>
   FloorOp_RunImpl IsFloat (\<lambda>_. Inl ChainerxError) \<lparr>dtype = kInt32, shape = [2], data = [7, -3::int]\<rparr>
     = Inr \<lparr>dtype = kInt32, shape = [2], data = [7, -3]\<rparr> \<and>
   CeilOp_RunImpl IsFloat (\<lambda>_. Inl ChainerxError) \<lparr>dtype = kInt32, shape = [2], data = [7, -3::int]\<rparr>
     = Inr \<lparr>dtype = kInt32, shape = [2], data = [7, -3]\<rparr> \<and>
   IsFloat (dtype \<lparr>dtype = kFloat32, shape = [1], data = [2::int]\<rparr>) \<and>
   FloorOp_RunImpl IsFloat (\<lambda>a. Inr (a\<lparr>data := [1]\<rparr>)) \<lparr>dtype = kFloat32, shape = [1], data = [2::int]\<rparr>
     = Inr \<lparr>dtype = kFloat32, shape = [1], data = [1]\<rparr>"
  using Floor_Ceil_identity_on_non_float
    [of IsFloat "\<lparr>dtype = kInt32, shape = [2], data = [7, -3::int]\<rparr>" "\<lambda>_. Inl ChainerxError" "\<lambda>_. Inl ChainerxError"]
    Floor_Ceil_identity_on_non_float
    [of IsFloat "\<lparr>dtype = kFloat32, shape = [1], data = [2::int]\<rparr>" "\<lambda>a. Inr (a\<lparr>data := [1]\<rparr>)" "\<lambda>a. Inr a"]
  by simp


section \<open>Properties of the gradient construction\<close>

subsection \<open>Running a computation\<close>

lemma bindM_returnM [simp]: "bindM (returnM a) f = f a"
  by (rule ext) (simp add: bindM_def returnM_def)

lemma bindM_fatal [simp]: "bindM (fatal e) f = fatal e"
  by (rule ext) (simp add: bindM_def fatal_def)

lemma bindM_getM [simp]: "bindM (getM g) f st = f (g st) st"
  by (simp add: bindM_def getM_def)

lemma CHECK_simps [simp]: "CHECK True e = returnM ()" "CHECK False e = fatal e"
  by (simp_all add: CHECK_def)

lemma bindM_Inr: "m st = Inr (a, st') \<Longrightarrow> bindM m f st = f a st'"
  by (simp add: bindM_def)

lemma bindM_Inl: "m st = Inl e \<Longrightarrow> bindM m f st = Inl e"
  by (simp add: bindM_def)

lemmas store_defs =
  bindM_def MOp_def Op_def Op_to_def GenName_def Graph_AddNode_def Graph_AddValue_def
  new_Value_def update_graph_def update_node_def update_value_def producer_of_def returnM_def
  getM_def the_value_def the_node_def the_graph_def Let_def set_producer_def nth_append
  list_update_append

lemmas ctx_defs =
  gc_x_def gc_y_def gc_gy_def builder_def SetGrad_def AddGradValue_def GradOp_def
  Const_def gc_xs_def gc_ys_def fatal_def

subsection \<open>Dispatch\<close>

lemma registry_built:
  "s_gradient_funcs =
     Inr (map (\<lambda>(op, n_in, n_out, f). (op, \<lparr>num_inputs = n_in, num_outputs = n_out, fn = f\<rparr>))
            registrations)"
  by (simp add: s_gradient_funcs_def registrations_def register_grad_fn_def)

lemma AddGradientForNode_unfold:
  "AddGradientForNode call graph node retain st =
     (case map_of (map (\<lambda>(op, n_in, n_out, f).
                          (op, \<lparr>num_inputs = n_in, num_outputs = n_out, fn = f\<rparr>)) registrations)
             (op_type (the_node node st)) of
        None \<Rightarrow> Inl (GradientNotSupported (op_type (the_node node st)), st)
      | Some func \<Rightarrow>
          if 0 \<le> num_inputs func \<and> nat (num_inputs func) \<noteq> length (inputs (the_node node st))
          then Inl (ArityMismatch (num_inputs func) (length (inputs (the_node node st))), st)
          else if 0 \<le> num_outputs func
                  \<and> nat (num_outputs func) \<noteq> length (outputs (the_node node st))
          then Inl (ArityMismatch (num_outputs func) (length (outputs (the_node node st))), st)
          else call (fn func) (new_GradientOpContext graph node retain st) st)"
  by (simp add: AddGradientForNode_def registry_built fatal_def returnM_def
      split: option.splits)

lemma map_of_registry_Some:
  "(op, n_in, n_out, f) \<in> set registrations \<Longrightarrow>
   map_of (map (\<lambda>(op, n_in, n_out, f).
                  (op, \<lparr>num_inputs = n_in, num_outputs = n_out, fn = f\<rparr>)) registrations) op
     = Some \<lparr>num_inputs = n_in, num_outputs = n_out, fn = f\<rparr>"
  unfolding registrations_def by auto

lemma map_of_registry_None:
  "op \<notin> fst ` set registrations \<Longrightarrow>
   map_of (map (\<lambda>(op, n_in, n_out, f).
                  (op, \<lparr>num_inputs = n_in, num_outputs = n_out, fn = f\<rparr>)) registrations) op
     = None"
  by (simp add: map_of_eq_None_iff image_image case_prod_unfold)

text \<open>
  C6. For every node passed to \<open>AddGradientForNode\<close>: if its operator kind is not
  registered, the call fails with the operator-not-differentiable error and the store is the
  one it was given; if the kind is registered with a non-variadic input (or output) arity
  and the node's input (or output) count differs, the call fails with the arity error, again
  in the store it was given, whatever the rule is; otherwise the result of the call is the
  result of the registered rule, called once through the function pointer with a context
  constructed for this graph, node and retention flag.
\<close>

theorem AddGradientForNode_dispatch:
  "(op_type (the_node node st) \<notin> fst ` set registrations \<longrightarrow>
      AddGradientForNode call graph node retain st
        = Inl (GradientNotSupported (op_type (the_node node st)), st)) \<and>
   ((op_type (the_node node st), n_in, n_out, f) \<in> set registrations \<longrightarrow>
      (0 \<le> n_in \<and> nat n_in \<noteq> length (inputs (the_node node st)) \<longrightarrow>
         AddGradientForNode call graph node retain st
           = Inl (ArityMismatch n_in (length (inputs (the_node node st))), st)) \<and>
      ((n_in < 0 \<or> nat n_in = length (inputs (the_node node st))) \<and>
       0 \<le> n_out \<and> nat n_out \<noteq> length (outputs (the_node node st)) \<longrightarrow>
         AddGradientForNode call graph node retain st
           = Inl (ArityMismatch n_out (length (outputs (the_node node st))), st)) \<and>
      ((n_in < 0 \<or> nat n_in = length (inputs (the_node node st))) \<and>
       (n_out < 0 \<or> nat n_out = length (outputs (the_node node st))) \<longrightarrow>
         AddGradientForNode call graph node retain st
           = call f (new_GradientOpContext graph node retain st) st))"
proof (intro conjI impI)
  assume "op_type (the_node node st) \<notin> fst ` set registrations"
  then show "AddGradientForNode call graph node retain st
      = Inl (GradientNotSupported (op_type (the_node node st)), st)"
    by (simp add: AddGradientForNode_unfold map_of_registry_None)
next
  assume r: "(op_type (the_node node st), n_in, n_out, f) \<in> set registrations"
    and "0 \<le> n_in \<and> nat n_in \<noteq> length (inputs (the_node node st))"
  then show "AddGradientForNode call graph node retain st
      = Inl (ArityMismatch n_in (length (inputs (the_node node st))), st)"
    by (simp add: AddGradientForNode_unfold map_of_registry_Some[OF r])
next
  assume r: "(op_type (the_node node st), n_in, n_out, f) \<in> set registrations"
    and "(n_in < 0 \<or> nat n_in = length (inputs (the_node node st))) \<and>
       0 \<le> n_out \<and> nat n_out \<noteq> length (outputs (the_node node st))"
  then show "AddGradientForNode call graph node retain st
      = Inl (ArityMismatch n_out (length (outputs (the_node node st))), st)"
    by (auto simp: AddGradientForNode_unfold map_of_registry_Some[OF r])
next
  assume r: "(op_type (the_node node st), n_in, n_out, f) \<in> set registrations"
    and "(n_in < 0 \<or> nat n_in = length (inputs (the_node node st))) \<and>
       (n_out < 0 \<or> nat n_out = length (outputs (the_node node st)))"
  then show "AddGradientForNode call graph node retain st
      = call f (new_GradientOpContext graph node retain st) st"
    by (auto simp: AddGradientForNode_unfold map_of_registry_Some[OF r])
qed

theorem AddGradientForNode_dispatch_witness:
  "AddGradientForNode (\<lambda>_. SigmoidGradFn) 0 2 False example_store
     = Inl (GradientNotSupported kShape, example_store) \<and>
   AddGradientForNode (\<lambda>_. SigmoidGradFn) 0 3 False example_store
     = Inl (ArityMismatch 2 1, example_store) \<and>
   AddGradientForNode (\<lambda>_. SigmoidGradFn) 0 0 False example_store
     = SigmoidGradFn (example_context 0 False) example_store"
  using AddGradientForNode_dispatch
      [where node = 2 and st = example_store and call = "\<lambda>_. SigmoidGradFn" and graph = 0
         and retain = False and n_in = 0 and n_out = 0 and f = SigmoidGradFn_ptr]
    AddGradientForNode_dispatch
      [where node = 3 and st = example_store and call = "\<lambda>_. SigmoidGradFn" and graph = 0
         and retain = False and n_in = 2 and n_out = 1 and f = AddGradFn_ptr]
    AddGradientForNode_dispatch
      [where node = 0 and st = example_store and call = "\<lambda>_. SigmoidGradFn" and graph = 0
         and retain = False and n_in = 1 and n_out = 1 and f = SigmoidGradFn_ptr]
  by (simp add: example_store_def example_context_def the_node_def new_Node_def
      registrations_def)


subsection \<open>Retention\<close>

lemma Retain_off: "\<not> gc_retain_in_stack gc \<Longrightarrow> Retain gc v st = Inr (v, st)"
  by (simp add: Retain_def returnM_def)

lemma Retain_on:
  assumes "gc_retain_in_stack gc" "v < length (value_heap st)"
  shows "\<exists>st' val push pop.
     Retain gc v st = Inr (length (value_heap st), st')
     \<and> value_heap st' = value_heap st @ [val]
     \<and> type val = type (the_value v st)
     \<and> producer val = Some (Suc (length (node_heap st)))
     \<and> node_heap st' = node_heap st @ [push, pop]
     \<and> op_type push = kOnikuxBackpropStackPush \<and> inputs push = [v] \<and> outputs push = []
     \<and> op_type pop = kOnikuxBackpropStackPop \<and> inputs pop = []
     \<and> outputs pop = [length (value_heap st)]
     \<and> id_attr push = id_attr pop \<and> id_attr pop = id_counter st + 1
     \<and> id_counter st' = id_counter st + 1"
  using assms
  by (simp add: Retain_def store_defs new_Node_def)

lemma Retain_id:
  assumes "gc_retain_in_stack gc"
  shows "\<exists>st' pop. Retain gc v st = Inr (length (value_heap st), st')
     \<and> id_counter st' = id_counter st + 1
     \<and> producer (the_value (length (value_heap st)) st') = Some pop
     \<and> id_attr (the_node pop st') = id_counter st + 1"
  using assms
  by (simp add: Retain_def store_defs new_Node_def)

lemma access_eq:
  "access gc a st =
     (case operand gc a st of
        Some v \<Rightarrow> Retain gc v st
      | None \<Rightarrow> Inl (IndexCheckFailed (case a of X i \<Rightarrow> i | Y i \<Rightarrow> i), st))"
  by (cases a) (auto simp: gc_x_def gc_y_def fatal_def)

text \<open>The ids of a sequence of accesses are consecutive values of the counter.\<close>

lemma access_ids_eq:
  "access_ids rs st = map (\<lambda>k. id_counter st + 1 + of_nat k) [0..<length (access_ids rs st)]"
proof (induction rs arbitrary: st)
  case Nil
  then show ?case by simp
next
  case (Cons r rs)
  obtain gc a where r: "r = (gc, a)" by (cases r)
  show ?case
  proof (cases "operand gc a st")
    case None
    then show ?thesis by (simp add: r access_eq)
  next
    case (Some v)
    show ?thesis
    proof (cases "gc_retain_in_stack gc")
      case False
      then have "access_ids (r # rs) st = access_ids rs st"
        by (simp add: r access_eq Some Retain_off)
      then show ?thesis using Cons.IH[of st] by simp
    next
      case True
      from Retain_id[OF this, of v st] obtain st' pop where
        R: "Retain gc v st = Inr (length (value_heap st), st')"
        and c: "id_counter st' = id_counter st + 1"
        and p: "producer (the_value (length (value_heap st)) st') = Some pop"
        and i: "id_attr (the_node pop st') = id_counter st + 1" by blast
      have ids: "access_ids (r # rs) st = (id_counter st + 1) # access_ids rs st'"
        using R p i True by (simp add: r access_eq Some)
      let ?n = "length (access_ids rs st')"
      have "[0..<Suc ?n] = 0 # [Suc 0..<Suc ?n]"
        by (rule upt_conv_Cons) simp
      then have "[0..<Suc ?n] = 0 # map Suc [0..<?n]"
        unfolding map_Suc_upt .
      then have "map (\<lambda>k. id_counter st + 1 + of_nat k) [0..<Suc ?n]
          = (id_counter st + 1) # map (\<lambda>k. id_counter st' + 1 + of_nat k) [0..<?n]"
        by (simp add: c comp_def add.commute add.left_commute del: upt_Suc)
      then show ?thesis using Cons.IH[of st'] ids by (simp del: upt_Suc)
    qed
  qed
qed

lemma word32_of_nat_inj:
  assumes "j < 2 ^ 32" "k < 2 ^ 32" "(of_nat j :: 32 word) = of_nat k"
  shows "j = k"
proof -
  have "unat (of_nat j :: 32 word) = unat (of_nat k :: 32 word)" using assms(3) by simp
  then show ?thesis using assms(1,2) by (simp add: unat_of_nat)
qed

lemma access_ids_distinct:
  assumes "length (access_ids rs st) \<le> 2 ^ 32"
  shows "distinct (access_ids rs st)"
proof -
  let ?n = "length (access_ids rs st)"
  have "inj_on (\<lambda>k. id_counter st + 1 + (of_nat k :: 32 word)) {0..<?n}"
  proof (rule inj_onI)
    fix j k assume "j \<in> {0..<?n}" "k \<in> {0..<?n}"
      and e: "id_counter st + 1 + (of_nat j :: 32 word) = id_counter st + 1 + of_nat k"
    then have "j < 2 ^ 32" "k < 2 ^ 32" using assms by auto
    moreover from e have "(of_nat j :: 32 word) = of_nat k" by simp
    ultimately show "j = k" by (rule word32_of_nat_inj)
  qed
  then have "distinct (map (\<lambda>k. id_counter st + 1 + (of_nat k :: 32 word)) [0..<?n])"
    by (simp add: distinct_map)
  then show ?thesis using access_ids_eq[of rs st] by simp
qed

lemma access_ids_nth:
  assumes "j < length (access_ids rs st)"
  shows "access_ids rs st ! j = id_counter st + 1 + of_nat j"
proof -
  have "access_ids rs st ! j
      = map (\<lambda>k. id_counter st + 1 + of_nat k) [0..<length (access_ids rs st)] ! j"
    using access_ids_eq[of rs st] by simp
  also have "\<dots> = id_counter st + 1 + of_nat j"
    using assms by (simp del: upt_Suc)
  finally show ?thesis .
qed

lemma access_ids_wrap:
  assumes "2 ^ 32 < length (access_ids rs st)"
  shows "\<not> distinct (access_ids rs st)"
proof -
  let ?ids = "access_ids rs st"
  have z: "(of_nat (2 ^ 32) :: 32 word) = 0" by simp
  have n0: "0 < length ?ids" using assms by (cases ?ids) simp_all
  have "?ids ! (2 ^ 32) = id_counter st + 1 + of_nat (2 ^ 32)"
    by (rule access_ids_nth[OF assms])
  also have "\<dots> = id_counter st + 1 + of_nat 0"
    unfolding z by simp
  also have "\<dots> = ?ids ! 0"
    by (rule access_ids_nth[OF n0, symmetric])
  finally have e: "?ids ! (2 ^ 32) = ?ids ! 0" .
  show ?thesis
  proof
    assume "distinct ?ids"
    from nth_eq_iff_index_eq[OF this assms n0] e have "(2::nat) ^ 32 = 0" by blast
    then show False by simp
  qed
qed

text \<open>
  A retaining access on an allocated operand succeeds and keeps its node and the values
  allocated so far, so a run of such accesses by one context never aborts.
\<close>

lemma access_keeps_operand:
  assumes "gc_retain_in_stack gc" "operand gc a st = Some v" "v < length (value_heap st)"
    "gc_node gc < length (node_heap st)"
  shows "\<exists>v' st' pop. access gc a st = Inr (v', st')
      \<and> producer (the_value v' st') = Some pop
      \<and> operand gc a st' = Some v \<and> v < length (value_heap st')
      \<and> gc_node gc < length (node_heap st')"
proof -
  from Retain_on[OF assms(1,3)] obtain st' val push pop where
    R: "Retain gc v st = Inr (length (value_heap st), st')"
    and vh: "value_heap st' = value_heap st @ [val]"
    and pr: "producer val = Some (Suc (length (node_heap st)))"
    and nh: "node_heap st' = node_heap st @ [push, pop]" by blast
  have "operand gc a st' = operand gc a st"
    using assms(4) nh by (cases a) (simp_all add: gc_xs_def gc_ys_def the_node_def nth_append)
  then show ?thesis
    using R vh pr nh assms by (simp add: access_eq the_value_def)
qed

lemma access_ids_run_length:
  assumes "gc_retain_in_stack gc" "operand gc a st = Some v" "v < length (value_heap st)"
    "gc_node gc < length (node_heap st)"
  shows "length (access_ids (replicate n (gc, a)) st) = n"
  using assms(2-)
proof (induction n arbitrary: st)
  case 0
  then show ?case by simp
next
  case (Suc n)
  from access_keeps_operand[OF assms(1) Suc.prems] obtain v' st' pop where
    A: "access gc a st = Inr (v', st')" and p: "producer (the_value v' st') = Some pop"
    and keep: "operand gc a st' = Some v" "v < length (value_heap st')"
      "gc_node gc < length (node_heap st')" by blast
  from Suc.IH[OF keep] show ?case using A p assms(1) by simp
qed


text \<open>
  C8, as amended. For a context access \<open>x(i)\<close> or \<open>y(i)\<close> whose index is in range: when
  retention is disabled the underlying value is returned and the store is unchanged; when
  retention is enabled the access adds exactly one stack-push node consuming the value and
  one stack-pop node producing the retained copy (a new value of the same type), both carry
  the same correlation id, and that id is the process-wide counter plus one, which becomes
  the new counter. The counter is a 32-bit integer and wraps around: the ids handed out by
  a sequence of accesses are pairwise distinct as long as the sequence hands out at most
  \<open>2 ^ 32\<close> of them.
\<close>

theorem context_access_retention:
  assumes "operand gc a st = Some v" "v < length (value_heap st)"
  shows "(\<not> gc_retain_in_stack gc \<longrightarrow> access gc a st = Inr (v, st)) \<and>
    (gc_retain_in_stack gc \<longrightarrow>
       (\<exists>st' val push pop.
          access gc a st = Inr (length (value_heap st), st')
          \<and> value_heap st' = value_heap st @ [val]
          \<and> type val = type (the_value v st)
          \<and> producer val = Some (Suc (length (node_heap st)))
          \<and> node_heap st' = node_heap st @ [push, pop]
          \<and> op_type push = kOnikuxBackpropStackPush \<and> inputs push = [v] \<and> outputs push = []
          \<and> op_type pop = kOnikuxBackpropStackPop \<and> inputs pop = []
          \<and> outputs pop = [length (value_heap st)]
          \<and> id_attr push = id_attr pop \<and> id_attr pop = id_counter st + 1
          \<and> id_counter st' = id_counter st + 1)) \<and>
    (length (access_ids rs st0) \<le> 2 ^ 32 \<longrightarrow> distinct (access_ids rs st0))"
proof (intro conjI impI)
  assume "\<not> gc_retain_in_stack gc"
  then show "access gc a st = Inr (v, st)"
    by (simp add: access_eq assms(1) Retain_off)
next
  assume "gc_retain_in_stack gc"
  from Retain_on[OF this assms(2)] show "\<exists>st' val push pop.
          access gc a st = Inr (length (value_heap st), st')
          \<and> value_heap st' = value_heap st @ [val]
          \<and> type val = type (the_value v st)
          \<and> producer val = Some (Suc (length (node_heap st)))
          \<and> node_heap st' = node_heap st @ [push, pop]
          \<and> op_type push = kOnikuxBackpropStackPush \<and> inputs push = [v] \<and> outputs push = []
          \<and> op_type pop = kOnikuxBackpropStackPop \<and> inputs pop = []
          \<and> outputs pop = [length (value_heap st)]
          \<and> id_attr push = id_attr pop \<and> id_attr pop = id_counter st + 1
          \<and> id_counter st' = id_counter st + 1"
    by (simp add: access_eq assms(1))
next
  assume "length (access_ids rs st0) \<le> 2 ^ 32"
  then show "distinct (access_ids rs st0)" by (rule access_ids_distinct)
qed

lemma example_context_0:
  "example_context 0 r =
     \<lparr>gc_graph = 0, gc_node = 0, gc_name = ''SigmoidGrad'', gc_retain_in_stack = r\<rparr>"
  by (simp add: example_context_def example_store_def new_GradientOpContext_def
      the_node_def new_Node_def Let_def HasPrefix_def)

lemma example_operands:
  "operand (example_context 0 r) (X 0) example_store = Some 0"
  "operand (example_context 0 r) (Y 0) example_store = Some 1"
  "gc_retain_in_stack (example_context 0 r) = r"
  "gc_node (example_context 0 r) = 0"
  "length (value_heap example_store) = 7"
  "length (node_heap example_store) = 4"
  by (simp_all add: example_context_0 example_store_def
      gc_xs_def gc_ys_def the_node_def new_Node_def)

theorem context_access_retention_witness:
  "operand (example_context 0 False) (X 0) example_store = Some 0 \<and>
   0 < length (value_heap example_store) \<and>
   access (example_context 0 False) (X 0) example_store = Inr (0, example_store) \<and>
   operand (example_context 0 True) (Y 0) example_store = Some 1 \<and>
   1 < length (value_heap example_store) \<and>
   (\<exists>st' val push pop.
      access (example_context 0 True) (Y 0) example_store = Inr (7, st')
      \<and> value_heap st' = value_heap example_store @ [val]
      \<and> type val = type (the_value 1 example_store)
      \<and> producer val = Some 5
      \<and> node_heap st' = node_heap example_store @ [push, pop]
      \<and> op_type push = kOnikuxBackpropStackPush \<and> inputs push = [1] \<and> outputs push = []
      \<and> op_type pop = kOnikuxBackpropStackPop \<and> inputs pop = [] \<and> outputs pop = [7]
      \<and> id_attr push = id_attr pop \<and> id_attr pop = 1 \<and> id_counter st' = 1) \<and>
   length (access_ids [(example_context 0 True, X 0), (example_context 0 True, Y 0)]
             example_store) \<le> 2 ^ 32 \<and>
   distinct (access_ids [(example_context 0 True, X 0), (example_context 0 True, Y 0)]
               example_store)"
proof -
  have ids: "access_ids [(example_context 0 True, X 0), (example_context 0 True, Y 0)]
      example_store = [1, 2]"
    by (simp add: example_context_0 example_store_def
        example_value_def gc_x_def gc_y_def gc_xs_def gc_ys_def Retain_def store_defs
        new_Node_def)
  have c: "id_counter example_store = 0" by (simp add: example_store_def)
  have o0: "operand (example_context 0 False) (X 0) example_store = Some 0"
    and o1: "operand (example_context 0 True) (Y 0) example_store = Some 1"
    by (rule example_operands)+
  have l0: "0 < length (value_heap example_store)"
    and l1: "1 < length (value_heap example_store)"
    by (simp_all only: example_operands)
  note t0 = context_access_retention
      [OF o0 l0, where rs = "[(example_context 0 True, X 0), (example_context 0 True, Y 0)]"
         and ?st0.0 = example_store]
  note t1 = context_access_retention [OF o1 l1, where rs = "[]" and ?st0.0 = example_store]
  from t0 have a: "access (example_context 0 False) (X 0) example_store = Inr (0, example_store)"
    by (simp only: example_operands) simp
  from t0 have d: "distinct (access_ids [(example_context 0 True, X 0),
      (example_context 0 True, Y 0)] example_store)"
    by (simp only: ids) simp
  from t1 have b: "\<exists>st' val push pop.
      access (example_context 0 True) (Y 0) example_store = Inr (7, st')
      \<and> value_heap st' = value_heap example_store @ [val]
      \<and> type val = type (the_value 1 example_store)
      \<and> producer val = Some 5
      \<and> node_heap st' = node_heap example_store @ [push, pop]
      \<and> op_type push = kOnikuxBackpropStackPush \<and> inputs push = [1] \<and> outputs push = []
      \<and> op_type pop = kOnikuxBackpropStackPop \<and> inputs pop = [] \<and> outputs pop = [7]
      \<and> id_attr push = id_attr pop \<and> id_attr pop = 1 \<and> id_counter st' = 1"
    by (simp only: example_operands c) simp
  show ?thesis
    using o0 l0 a o1 l1 b d by (simp only: ids) simp
qed

text \<open>
  The claim as stated promises an id distinct from every id handed out before. A context
  that reads its first input \<open>2 ^ 32 + 1\<close> times hands out the first id again.
\<close>

theorem retain_id_wraps_counterexample:
  "\<not> distinct (access_ids (replicate (2 ^ 32 + 1) (example_context 0 True, X 0))
                  example_store)"
proof -
  have "length (access_ids (replicate (2 ^ 32 + 1) (example_context 0 True, X 0))
                  example_store) = 2 ^ 32 + 1"
  proof (rule access_ids_run_length[where v = 0])
    show "gc_retain_in_stack (example_context 0 True)" by (simp only: example_operands)
    show "operand (example_context 0 True) (X 0) example_store = Some 0"
      by (rule example_operands)
    show "0 < length (value_heap example_store)" by (simp add: example_operands)
    show "gc_node (example_context 0 True) < length (node_heap example_store)"
      by (simp add: example_operands)
  qed
  then show ?thesis by (intro access_ids_wrap) simp
qed


subsection \<open>Extension of a store and evaluation\<close>

lemma extends_refl: "extends st st"
  by (simp add: extends_def)

lemma extends_trans: "extends a b \<Longrightarrow> extends b c \<Longrightarrow> extends a c"
  unfolding extends_def by (intro conjI allI impI; (elim conjE)?; force)

lemma evals_extends:
  assumes "evals K st \<rho> v r" "extends st st'"
  shows "evals K st' \<rho> v r"
  using assms
proof (induction rule: evals.induct)
  case (leaf v)
  then show ?case by (auto simp: extends_def intro!: evals.leaf)
next
  case (node v n rs r)
  have "list_all2 (evals K st' \<rho>) (inputs (node_heap st ! n)) rs"
    using node.IH node.prems by (auto elim!: list_all2_mono)
  with node show ?case
    by (auto simp: extends_def intro!: evals.node[where n=n and rs=rs])
next
  case (pop v n m u r)
  then show ?case
    by (auto simp: extends_def intro!: evals.pop[where n=n and m=m and u=u])
qed

lemma consumer_of_extends:
  "consumer_of xv st c \<Longrightarrow> extends st st' \<Longrightarrow> consumer_of xv st' c"
  by (cases c) (auto simp: consumer_of_def extends_def gc_xs_def the_node_def)

subsection \<open>Gradient accumulation\<close>

lemma SetGrad_first:
  assumes "0 \<le> xi" "xi < int (length (gc_xs gc st))"
    and "grad (the_value (gc_xs gc st ! nat xi) st) = None"
  shows "SetGrad gc xi gx st =
     Inr ((), st\<lparr>value_heap := (value_heap st)
               [gc_xs gc st ! nat xi := (value_heap st ! (gc_xs gc st ! nat xi))\<lparr>grad := gx\<rparr>]\<rparr>)"
  using assms by (simp add: SetGrad_def update_value_def the_value_def Let_def)

lemma SetGrad_accumulate:
  assumes "0 \<le> xi" "xi < int (length (gc_xs gc st))"
    and "gc_xs gc st ! nat xi = xv" "xv < length (value_heap st)"
    and "grad (the_value xv st) = Some old"
  shows "\<exists>st' val nd.
     SetGrad gc xi (Some g) st = Inr ((), st')
     \<and> value_heap st' =
         (value_heap st)[xv := (value_heap st ! xv)\<lparr>grad := Some (length (value_heap st))\<rparr>] @ [val]
     \<and> producer val = Some (length (node_heap st)) \<and> grad val = None
     \<and> node_heap st' = node_heap st @ [nd]
     \<and> op_type nd = kAdd \<and> inputs nd = [old, g] \<and> outputs nd = [length (value_heap st)]
     \<and> length (graph_heap st') = length (graph_heap st)"
  using assms
  by (simp add: SetGrad_def store_defs new_Node_def)

lemma SetGrad_accumulate_evals:
  assumes c: "consumer_of xv st (gc, xi, g)" and xv: "xv < length (value_heap st)"
    and old: "grad (the_value xv st) = Some s" "s < length (value_heap st)"
  shows "\<exists>st' s'. SetGrad gc xi (Some g) st = Inr ((), st') \<and> extends st st'
     \<and> grad (the_value xv st') = Some s' \<and> s' < length (value_heap st')
     \<and> (\<forall>\<rho> a b. evals (elementwise_kernel ext) st \<rho> s a \<longrightarrow> evals (elementwise_kernel ext) st \<rho> g b
            \<longrightarrow> evals (elementwise_kernel ext) st' \<rho> s' (a + b))"
proof -
  from c have r: "0 \<le> xi" "xi < int (length (gc_xs gc st))" "gc_xs gc st ! nat xi = xv"
    and g: "g < length (value_heap st)"
    by (simp_all add: consumer_of_def)
  from SetGrad_accumulate[OF r xv old(1), of g] obtain st' val nd where
    S: "SetGrad gc xi (Some g) st = Inr ((), st')"
    and vh: "value_heap st' =
       (value_heap st)[xv := (value_heap st ! xv)\<lparr>grad := Some (length (value_heap st))\<rparr>] @ [val]"
    and val: "producer val = Some (length (node_heap st))"
    and nh: "node_heap st' = node_heap st @ [nd]"
    and nd: "op_type nd = kAdd" "inputs nd = [s, g]" "outputs nd = [length (value_heap st)]"
    and gh: "length (graph_heap st') = length (graph_heap st)"
    by blast
  have ext: "extends st st'"
    using vh nh gh xv by (auto simp: extends_def nth_append nth_list_update)
  have gr: "grad (the_value xv st') = Some (length (value_heap st))"
    using vh xv by (simp add: the_value_def nth_append)
  have ev: "evals (elementwise_kernel ext) st' \<rho> (length (value_heap st)) (a + b)"
    if a: "evals (elementwise_kernel ext) st \<rho> s a" and b: "evals (elementwise_kernel ext) st \<rho> g b" for \<rho> a b
  proof (rule evals.node[where n = "length (node_heap st)" and rs = "[a, b]"])
    show "length (value_heap st) < length (value_heap st')" using vh by simp
    show "producer (value_heap st' ! length (value_heap st)) = Some (length (node_heap st))"
      using vh val by (simp add: nth_append)
    show "length (node_heap st) < length (node_heap st')" using nh by simp
    show "op_type (node_heap st' ! length (node_heap st)) \<noteq> kOnikuxBackpropStackPop"
      using nh nd by simp
    show "outputs (node_heap st' ! length (node_heap st)) = [length (value_heap st)]"
      using nh nd by simp
    show "list_all2 (evals (elementwise_kernel ext) st' \<rho>) (inputs (node_heap st' ! length (node_heap st))) [a, b]"
      using nh nd evals_extends[OF a ext] evals_extends[OF b ext] by simp
    show "elementwise_kernel ext (node_heap st' ! length (node_heap st)) [a, b] = Some (a + b)"
      using nh nd by (simp add: elementwise_kernel_def)
  qed
  show ?thesis
    using S ext gr ev vh by (intro exI[of _ st'] exI[of _ "length (value_heap st)"]) simp
qed

lemma SetGrads_accumulate:
  assumes "\<forall>c \<in> set cs. consumer_of xv st c" "xv < length (value_heap st)"
    and "grad (the_value xv st) = Some s" "s < length (value_heap st)"
  shows "\<exists>st' s'. SetGrads cs st = Inr ((), st') \<and> extends st st'
     \<and> grad (the_value xv st') = Some s'
     \<and> (\<forall>\<rho> a rs. evals (elementwise_kernel ext) st \<rho> s a
            \<longrightarrow> list_all2 (evals (elementwise_kernel ext) st \<rho>) (map (\<lambda>c. snd (snd c)) cs) rs
            \<longrightarrow> evals (elementwise_kernel ext) st' \<rho> s' (a + sum_list rs))"
  using assms
proof (induction cs arbitrary: st s)
  case Nil
  then show ?case by (simp add: returnM_def extends_refl)
next
  case (Cons c cs)
  obtain gc xi g where c: "c = (gc, xi, g)" by (cases c)
  from Cons.prems(1) c have c0: "consumer_of xv st (gc, xi, g)" by simp
  from SetGrad_accumulate_evals[OF c0 Cons.prems(2,3,4), of ext] obtain st1 s1 where
    S: "SetGrad gc xi (Some g) st = Inr ((), st1)" and e1: "extends st st1"
    and g1: "grad (the_value xv st1) = Some s1" and a1: "s1 < length (value_heap st1)"
    and ev1: "\<And>\<rho> a b. evals (elementwise_kernel ext) st \<rho> s a \<Longrightarrow> evals (elementwise_kernel ext) st \<rho> g b
            \<Longrightarrow> evals (elementwise_kernel ext) st1 \<rho> s1 (a + b)"
    by blast
  have cs1: "\<forall>c \<in> set cs. consumer_of xv st1 c"
    using Cons.prems(1) e1 by (auto intro: consumer_of_extends)
  have xv1: "xv < length (value_heap st1)"
    using Cons.prems(2) e1 by (simp add: extends_def)
  from Cons.IH[OF cs1 xv1 g1 a1] obtain st' s' where
    R: "SetGrads cs st1 = Inr ((), st')" and e2: "extends st1 st'"
    and g2: "grad (the_value xv st') = Some s'"
    and ev2: "\<And>\<rho> a rs. evals (elementwise_kernel ext) st1 \<rho> s1 a
            \<Longrightarrow> list_all2 (evals (elementwise_kernel ext) st1 \<rho>) (map (\<lambda>c. snd (snd c)) cs) rs
            \<Longrightarrow> evals (elementwise_kernel ext) st' \<rho> s' (a + sum_list rs)"
    by blast
  have ev: "evals (elementwise_kernel ext) st' \<rho> s' (a + sum_list rs)"
    if a: "evals (elementwise_kernel ext) st \<rho> s a"
      and rs: "list_all2 (evals (elementwise_kernel ext) st \<rho>) (map (\<lambda>c. snd (snd c)) (c # cs)) rs"
    for \<rho> a rs
  proof -
    from rs c obtain b rs' where rs': "rs = b # rs'" and b: "evals (elementwise_kernel ext) st \<rho> g b"
      and l: "list_all2 (evals (elementwise_kernel ext) st \<rho>) (map (\<lambda>c. snd (snd c)) cs) rs'"
      by (auto simp: list_all2_Cons1)
    have "list_all2 (evals (elementwise_kernel ext) st1 \<rho>) (map (\<lambda>c. snd (snd c)) cs) rs'"
      using l e1 by (auto elim!: list_all2_mono intro: evals_extends)
    from ev2[OF ev1[OF a b] this] show ?thesis by (simp add: rs' add.assoc)
  qed
  show ?case
    using S R extends_trans[OF e1 e2] g2 ev
    by (intro exI[of _ st'] exI[of _ s']) (simp add: c bindM_def)
qed


text \<open>
  C1. For a consumer's input \<open>xi\<close>, the value \<open>xv\<close>: when \<open>xv\<close> has no gradient yet,
  \<open>SetGrad(xi, g)\<close> stores \<open>g\<close> as its gradient and adds nothing; when \<open>xv\<close> already has the
  gradient \<open>old\<close>, it adds one add-node with the inputs \<open>old\<close> and \<open>g\<close> and stores the output
  of that node as the new gradient. Hence, when \<open>K \<ge> 1\<close> consumers of \<open>xv\<close> contribute
  one after the other, starting with no gradient, the gradient \<open>xv\<close> ends with evaluates to
  the sum of what the \<open>K\<close> contributions evaluate to.
\<close>

theorem SetGrad_accumulates:
  assumes "consumer_of xv st (gc, xi, g)" "\<forall>c \<in> set cs. consumer_of xv st c"
    and "xv < length (value_heap st)"
  shows
    "(grad (the_value xv st) = None \<longrightarrow>
        SetGrad gc xi gx st =
          Inr ((), st\<lparr>value_heap := (value_heap st)[xv := (value_heap st ! xv)\<lparr>grad := gx\<rparr>]\<rparr>)) \<and>
     (grad (the_value xv st) = Some old \<longrightarrow>
        (\<exists>st' val nd.
           SetGrad gc xi (Some g) st = Inr ((), st')
           \<and> value_heap st' =
               (value_heap st)[xv := (value_heap st ! xv)\<lparr>grad := Some (length (value_heap st))\<rparr>]
                 @ [val]
           \<and> producer val = Some (length (node_heap st))
           \<and> node_heap st' = node_heap st @ [nd]
           \<and> op_type nd = kAdd \<and> inputs nd = [old, g]
           \<and> outputs nd = [length (value_heap st)])) \<and>
     (grad (the_value xv st) = None \<longrightarrow>
        (\<exists>st' s.
           SetGrads ((gc, xi, g) # cs) st = Inr ((), st')
           \<and> grad (the_value xv st') = Some s
           \<and> (\<forall>\<rho> rs. list_all2 (evals (elementwise_kernel ext) st \<rho>) (g # map (\<lambda>c. snd (snd c)) cs) rs
                  \<longrightarrow> evals (elementwise_kernel ext) st' \<rho> s (sum_list rs))))"
proof (intro conjI impI)
  from assms(1) have r: "0 \<le> xi" "xi < int (length (gc_xs gc st))" "gc_xs gc st ! nat xi = xv"
    and g: "g < length (value_heap st)"
    by (simp_all add: consumer_of_def)
  {
    assume "grad (the_value xv st) = None"
    with SetGrad_first[OF r(1,2), of gx] r(3)
    show "SetGrad gc xi gx st =
        Inr ((), st\<lparr>value_heap := (value_heap st)[xv := (value_heap st ! xv)\<lparr>grad := gx\<rparr>]\<rparr>)"
      by simp
  next
    assume "grad (the_value xv st) = Some old"
    from SetGrad_accumulate[OF r assms(3) this, of g]
    show "\<exists>st' val nd.
           SetGrad gc xi (Some g) st = Inr ((), st')
           \<and> value_heap st' =
               (value_heap st)[xv := (value_heap st ! xv)\<lparr>grad := Some (length (value_heap st))\<rparr>]
                 @ [val]
           \<and> producer val = Some (length (node_heap st))
           \<and> node_heap st' = node_heap st @ [nd]
           \<and> op_type nd = kAdd \<and> inputs nd = [old, g]
           \<and> outputs nd = [length (value_heap st)]"
      by blast
  next
    assume none: "grad (the_value xv st) = None"
    define st1 where
      "st1 = st\<lparr>value_heap := (value_heap st)[xv := (value_heap st ! xv)\<lparr>grad := Some g\<rparr>]\<rparr>"
    have S: "SetGrad gc xi (Some g) st = Inr ((), st1)"
      using SetGrad_first[OF r(1,2), of "Some g"] r(3) none by (simp add: st1_def)
    have e1: "extends st st1"
      using assms(3) by (auto simp: st1_def extends_def nth_list_update)
    have cs1: "\<forall>c \<in> set cs. consumer_of xv st1 c"
      using assms(2) e1 by (auto intro: consumer_of_extends)
    have xv1: "xv < length (value_heap st1)" using assms(3) by (simp add: st1_def)
    have g1: "grad (the_value xv st1) = Some g"
      using assms(3) by (simp add: st1_def the_value_def)
    have a1: "g < length (value_heap st1)" using g by (simp add: st1_def)
    from SetGrads_accumulate[OF cs1 xv1 g1 a1, of ext] obtain st' s where
      R: "SetGrads cs st1 = Inr ((), st')" and g2: "grad (the_value xv st') = Some s"
      and ev2: "\<And>\<rho> a rs. evals (elementwise_kernel ext) st1 \<rho> g a
            \<Longrightarrow> list_all2 (evals (elementwise_kernel ext) st1 \<rho>) (map (\<lambda>c. snd (snd c)) cs) rs
            \<Longrightarrow> evals (elementwise_kernel ext) st' \<rho> s (a + sum_list rs)"
      by blast
    have ev: "evals (elementwise_kernel ext) st' \<rho> s (sum_list rs)"
      if rs: "list_all2 (evals (elementwise_kernel ext) st \<rho>) (g # map (\<lambda>c. snd (snd c)) cs) rs" for \<rho> rs
    proof -
      from rs obtain a rs' where rs': "rs = a # rs'" and a: "evals (elementwise_kernel ext) st \<rho> g a"
        and l: "list_all2 (evals (elementwise_kernel ext) st \<rho>) (map (\<lambda>c. snd (snd c)) cs) rs'"
        by (auto simp: list_all2_Cons1)
      have "list_all2 (evals (elementwise_kernel ext) st1 \<rho>) (map (\<lambda>c. snd (snd c)) cs) rs'"
        using l e1 by (auto elim!: list_all2_mono intro: evals_extends)
      from ev2[OF evals_extends[OF a e1] this] show ?thesis by (simp add: rs')
    qed
    show "\<exists>st' s.
           SetGrads ((gc, xi, g) # cs) st = Inr ((), st')
           \<and> grad (the_value xv st') = Some s
           \<and> (\<forall>\<rho> rs. list_all2 (evals (elementwise_kernel ext) st \<rho>) (g # map (\<lambda>c. snd (snd c)) cs) rs
                  \<longrightarrow> evals (elementwise_kernel ext) st' \<rho> s (sum_list rs))"
      using S R g2 ev by (intro exI[of _ st'] exI[of _ s]) (simp add: bindM_def)
  }
qed

lemma example_consumers:
  "consumer_of 0 example_store (example_context 0 False, 0, 2)"
  "consumer_of 0 example_store (example_context 2 False, 0, 3)"
  "consumer_of 0 example_store (example_context 3 False, 0, 0)"
  by (simp_all add: consumer_of_def example_context_def example_store_def
      new_GradientOpContext_def gc_xs_def the_node_def new_Node_def Let_def)

lemma example_leaves:
  "evals K example_store \<rho> 0 (\<rho> 0)"
  "evals K example_store \<rho> 2 (\<rho> 2)"
  "evals K example_store \<rho> 3 (\<rho> 3)"
  by (rule evals.leaf; simp add: example_store_def example_value_def)+

theorem SetGrad_accumulates_witness:
  "consumer_of 0 example_store (example_context 0 False, 0, 2) \<and>
   consumer_of 0 example_store (example_context 2 False, 0, 3) \<and>
   consumer_of 0 example_store (example_context 3 False, 0, 0) \<and>
   0 < length (value_heap example_store) \<and>
   grad (the_value 0 example_store) = None \<and>
   list_all2 (evals (elementwise_kernel (\<lambda>_ _. None)) example_store real) [2, 3, 0] [2, 3, 0] \<and>
   SetGrad (example_context 0 False) 0 (Some 2) example_store =
     Inr ((), example_store\<lparr>value_heap := (value_heap example_store)
                [0 := (value_heap example_store ! 0)\<lparr>grad := Some 2\<rparr>]\<rparr>) \<and>
   (\<exists>st' s.
      SetGrads [(example_context 0 False, 0, 2), (example_context 2 False, 0, 3),
                (example_context 3 False, 0, 0)] example_store = Inr ((), st')
      \<and> grad (the_value 0 st') = Some s
      \<and> evals (elementwise_kernel (\<lambda>_ _. None)) st' real s 5)"
proof -
  have l: "0 < length (value_heap example_store)" by (simp add: example_store_def)
  have n: "grad (the_value 0 example_store) = None"
    by (simp add: example_store_def the_value_def example_value_def)
  have cs: "\<forall>c \<in> set [(example_context 2 False, 0, 3), (example_context 3 False, 0, 0)].
      consumer_of 0 example_store c"
    using example_consumers by simp
  have ev: "list_all2 (evals (elementwise_kernel (\<lambda>_ _. None)) example_store real) [2, 3, 0] [2, 3, 0]"
    using example_leaves[of "elementwise_kernel (\<lambda>_ _. None)" real] by simp
  note t = SetGrad_accumulates[OF example_consumers(1) cs l,
      where gx = "Some 2" and ext = "\<lambda>_ _. None" and old = 0]
  have first: "SetGrad (example_context 0 False) 0 (Some 2) example_store =
     Inr ((), example_store\<lparr>value_heap := (value_heap example_store)
                [0 := (value_heap example_store ! 0)\<lparr>grad := Some 2\<rparr>]\<rparr>)"
    by (rule t[THEN conjunct1, THEN mp, OF n])
  from t[THEN conjunct2, THEN conjunct2, THEN mp, OF n] obtain st' s where h:
    "SetGrads [(example_context 0 False, 0, 2), (example_context 2 False, 0, 3),
                (example_context 3 False, 0, 0)] example_store = Inr ((), st')
      \<and> grad (the_value 0 st') = Some s
      \<and> (\<forall>\<rho> rs. list_all2 (evals (elementwise_kernel (\<lambda>_ _. None)) example_store \<rho>)
              (2 # map (\<lambda>c. snd (snd c))
                 [(example_context 2 False, 0::int, 3), (example_context 3 False, 0, 0)]) rs
           \<longrightarrow> evals (elementwise_kernel (\<lambda>_ _. None)) st' \<rho> s (sum_list rs))"
    by blast
  note R = h[THEN conjunct1] and g = h[THEN conjunct2, THEN conjunct1]
    and e = h[THEN conjunct2, THEN conjunct2]
  from e[rule_format, of real "[2, 3, 0]"] ev
  have "evals (elementwise_kernel (\<lambda>_ _. None)) st' real s 5" by simp
  with R g have "\<exists>st' s.
      SetGrads [(example_context 0 False, 0, 2), (example_context 2 False, 0, 3),
                (example_context 3 False, 0, 0)] example_store = Inr ((), st')
      \<and> grad (the_value 0 st') = Some s
      \<and> evals (elementwise_kernel (\<lambda>_ _. None)) st' real s 5"
    by (intro exI[of _ st'] exI[of _ s] conjI)
  with example_consumers l n ev first show ?thesis by (intro conjI)
qed


subsection \<open>What the helpers of a rule add to the store\<close>

lemma appended_extends:
  assumes "value_heap st' = value_heap st @ vs" "node_heap st' = node_heap st @ ns"
    "length (graph_heap st') = length (graph_heap st)"
  shows "extends st st'" "same_grads st st'"
  using assms by (auto simp: extends_def same_grads_def nth_append)

lemma same_grads_trans:
  "same_grads a b \<Longrightarrow> extends a b \<Longrightarrow> same_grads b c \<Longrightarrow> same_grads a c"
  by (auto simp: same_grads_def extends_def)

lemma operand_extends:
  "gc_node gc < length (node_heap st) \<Longrightarrow> extends st st' \<Longrightarrow> operand gc a st' = operand gc a st"
  by (cases a) (auto simp: gc_xs_def gc_ys_def the_node_def extends_def)

lemma Retain_on_graphs:
  assumes "gc_retain_in_stack gc"
  shows "\<exists>st'. Retain gc v st = Inr (length (value_heap st), st')
     \<and> length (graph_heap st') = length (graph_heap st)"
  using assms by (simp add: Retain_def store_defs new_Node_def)

text \<open>
  An access returns the value itself or a retained copy of it: either way a value of the
  same type that evaluates to the same, in a store that extends the one before.
\<close>

lemma access_step:
  assumes ctx: "gc_node gc < length (node_heap st)" "operand gc a st = Some v"
    "v < length (value_heap st)"
  shows "\<exists>v' st'. access gc a st = Inr (v', st') \<and> extends st st' \<and> same_grads st st'
     \<and> v' < length (value_heap st')
     \<and> type (the_value v' st') = type (the_value v st)
     \<and> (\<forall>K \<rho> r. evals K st \<rho> v r \<longrightarrow> evals K st' \<rho> v' (r::'a))"
proof (cases "gc_retain_in_stack gc")
  case False
  then have "access gc a st = Inr (v, st)"
    by (simp add: access_eq ctx(2) Retain_off)
  then show ?thesis
    using ctx(3) by (auto simp: extends_refl same_grads_def)
next
  case True
  from Retain_on[OF True ctx(3)] obtain st' val push pop where
    R: "Retain gc v st = Inr (length (value_heap st), st')"
    and vh: "value_heap st' = value_heap st @ [val]"
    and ty: "type val = type (the_value v st)"
    and pr: "producer val = Some (Suc (length (node_heap st)))"
    and nh: "node_heap st' = node_heap st @ [push, pop]"
    and push: "op_type push = kOnikuxBackpropStackPush" "inputs push = [v]"
    and pop: "op_type pop = kOnikuxBackpropStackPop"
    and ids: "id_attr push = id_attr pop"
    by blast
  from Retain_on_graphs[OF True, of v st] R
  have gh: "length (graph_heap st') = length (graph_heap st)" by simp
  note e = appended_extends[OF vh nh gh]
  have ev: "evals K st' \<rho> (length (value_heap st)) r" if r: "evals K st \<rho> v r"
    for K :: "Node \<Rightarrow> 'a list \<Rightarrow> 'a option" and \<rho> r
  proof (rule evals.pop[where n = "Suc (length (node_heap st))" and m = "length (node_heap st)"
        and u = v])
    show "evals K st' \<rho> v r" by (rule evals_extends[OF r e(1)])
  qed (use vh pr nh push pop ids in \<open>simp_all add: nth_append\<close>)
  show ?thesis
    using R e ev vh ty
    by (intro exI[of _ "length (value_heap st)"] exI[of _ st'])
       (simp add: access_eq ctx(2) the_value_def)
qed

lemma gc_gy_eq:
  "operand gc (Y i) st = Some yv \<Longrightarrow> gc_gy gc i st = Inr (grad (the_value yv st), st)"
  by (auto simp: gc_gy_def returnM_def getM_def split: if_splits)

text \<open>\<open>Op\<close> adds one value and the node that produces it from the given inputs.\<close>

lemma Op_step:
  assumes "None \<notin> set ins"
  shows "\<exists>st' nm. Op gb op ins st = Inr (length (value_heap st), st')
     \<and> extends st st' \<and> same_grads st st'
     \<and> length (value_heap st') = Suc (length (value_heap st))
     \<and> (\<forall>K \<rho> rs r. op \<noteq> kOnikuxBackpropStackPop
           \<longrightarrow> list_all2 (evals K st \<rho>) (map the ins) rs
           \<longrightarrow> K (new_Node op (map the ins) [length (value_heap st)] nm) rs = Some r
           \<longrightarrow> evals K st' \<rho> (length (value_heap st)) (r::'a))"
proof -
  from assms have "\<exists>st' val nm. Op gb op ins st = Inr (length (value_heap st), st')
     \<and> value_heap st' = value_heap st @ [val]
     \<and> producer val = Some (length (node_heap st))
     \<and> node_heap st' = node_heap st @ [new_Node op (map the ins) [length (value_heap st)] nm]
     \<and> length (graph_heap st') = length (graph_heap st)"
    by (simp add: store_defs) blast
  then obtain st' val nm where
    O: "Op gb op ins st = Inr (length (value_heap st), st')"
    and vh: "value_heap st' = value_heap st @ [val]"
    and pr: "producer val = Some (length (node_heap st))"
    and nh: "node_heap st' = node_heap st @ [new_Node op (map the ins) [length (value_heap st)] nm]"
    and gh: "length (graph_heap st') = length (graph_heap st)"
    by blast
  note e = appended_extends[OF vh nh gh]
  have ev: "evals K st' \<rho> (length (value_heap st)) r"
    if "op \<noteq> kOnikuxBackpropStackPop" "list_all2 (evals K st \<rho>) (map the ins) rs"
      "K (new_Node op (map the ins) [length (value_heap st)] nm) rs = Some r"
    for K :: "Node \<Rightarrow> 'a list \<Rightarrow> 'a option" and \<rho> rs r
  proof (rule evals.node[where n = "length (node_heap st)" and rs = rs])
    show "list_all2 (evals K st' \<rho>) (inputs (node_heap st' ! length (node_heap st))) rs"
      using that(2) e(1) nh
      by (auto simp: new_Node_def elim!: list_all2_mono intro: evals_extends)
  qed (use vh pr nh that in \<open>simp_all add: nth_append new_Node_def\<close>)
  show ?thesis
    using O e ev vh by (intro exI[of _ st'] exI[of _ nm]) simp
qed

lemma Const_step:
  "\<exists>st'. Const gb ty [c] st = Inr (length (value_heap st), st')
     \<and> extends st st' \<and> same_grads st st'
     \<and> length (value_heap st') = Suc (length (value_heap st))
     \<and> (\<forall>ext \<rho>. evals (elementwise_kernel ext) st' \<rho> (length (value_heap st)) c)"
proof -
  have "\<exists>st' val nd. Const gb ty [c] st = Inr (length (value_heap st), st')
     \<and> value_heap st' = value_heap st @ [val]
     \<and> producer val = Some (length (node_heap st))
     \<and> node_heap st' = node_heap st @ [nd]
     \<and> op_type nd = kConstant \<and> inputs nd = [] \<and> outputs nd = [length (value_heap st)]
     \<and> tensor_value nd = Some (ty, [c])
     \<and> length (graph_heap st') = length (graph_heap st)"
    by (simp add: Const_def store_defs new_Node_def)
  then obtain st' val nd where
    C: "Const gb ty [c] st = Inr (length (value_heap st), st')"
    and vh: "value_heap st' = value_heap st @ [val]"
    and pr: "producer val = Some (length (node_heap st))"
    and nh: "node_heap st' = node_heap st @ [nd]"
    and nd: "op_type nd = kConstant" "inputs nd = []" "outputs nd = [length (value_heap st)]"
      "tensor_value nd = Some (ty, [c])"
    and gh: "length (graph_heap st') = length (graph_heap st)"
    by blast
  note e = appended_extends[OF vh nh gh]
  have ev: "evals (elementwise_kernel ext) st' \<rho> (length (value_heap st)) c" for ext \<rho>
    by (rule evals.node[where n = "length (node_heap st)" and rs = "[]"])
       (use vh pr nh nd in \<open>simp_all add: nth_append elementwise_kernel_def\<close>)
  show ?thesis
    using C e ev vh by (intro exI[of _ st']) simp
qed


text \<open>
  \<open>GradOp\<close> adds a gradient value \<open>gv\<close> produced by a new node from the given inputs and
  hands it to \<open>SetGrad\<close>: it becomes the gradient of the input, or is added to the one the
  input has.
\<close>

lemma GradOp_step:
  assumes ctx: "gc_node gc < length (node_heap st)" "0 \<le> xi" "xi < int (length (gc_xs gc st))"
      "gc_xs gc st ! nat xi = xv" "xv < length (value_heap st)"
    and ins: "None \<notin> set ins"
  shows "\<exists>gv st'. GradOp gc op xi ins st = Inr (gv, st') \<and> extends st st'
     \<and> gv < length (value_heap st') \<and> length (value_heap st) \<le> gv
     \<and> (\<forall>u < length (value_heap st). u \<noteq> xv \<longrightarrow> grad (the_value u st') = grad (the_value u st))
     \<and> (\<exists>n. producer (the_value gv st') = Some n \<and> n < length (node_heap st')
            \<and> length (node_heap st) \<le> n
            \<and> the_node n st' = new_Node op (map the ins) [gv] (gc_name gc))
     \<and> (grad (the_value xv st) = None \<longrightarrow> grad (the_value xv st') = Some gv)
     \<and> (\<forall>og. grad (the_value xv st) = Some og \<longrightarrow>
           (\<exists>s m. grad (the_value xv st') = Some s \<and> s < length (value_heap st')
              \<and> producer (the_value s st') = Some m \<and> m < length (node_heap st')
              \<and> op_type (the_node m st') = kAdd \<and> inputs (the_node m st') = [og, gv]
              \<and> outputs (the_node m st') = [s]))"
proof -
  let ?v = "length (value_heap st)" and ?n = "length (node_heap st)"
  let ?k = "if gc_retain_in_stack gc then 1 else 0 :: nat"
  let ?gv = "?v + ?k"
  have run: "\<exists>st'. GradOp gc op xi ins st = Inr (?gv, st')
     \<and> length (graph_heap st') = length (graph_heap st)
     \<and> take ?n (node_heap st') = node_heap st
     \<and> (case grad (the_value xv st) of
           None \<Rightarrow>
             length (value_heap st') = Suc ?gv \<and> length (node_heap st') = ?n + 2 * ?k + 1
             \<and> grad (value_heap st' ! xv) = Some ?gv
             \<and> producer (value_heap st' ! ?gv) = Some (?n + 2 * ?k)
             \<and> node_heap st' ! (?n + 2 * ?k) = new_Node op (map the ins) [?gv] (gc_name gc)
         | Some og \<Rightarrow>
             length (value_heap st') = ?gv + 2 \<and> length (node_heap st') = ?n + 2 * ?k + 2
             \<and> grad (value_heap st' ! xv) = Some (Suc ?gv)
             \<and> producer (value_heap st' ! Suc ?gv) = Some (?n + 2 * ?k)
             \<and> op_type (node_heap st' ! (?n + 2 * ?k)) = kAdd
             \<and> inputs (node_heap st' ! (?n + 2 * ?k)) = [og, ?gv]
             \<and> outputs (node_heap st' ! (?n + 2 * ?k)) = [Suc ?gv]
             \<and> producer (value_heap st' ! ?gv) = Some (?n + 2 * ?k + 1)
             \<and> node_heap st' ! (?n + 2 * ?k + 1) = new_Node op (map the ins) [?gv] (gc_name gc))
     \<and> (\<forall>u < ?v. kind (value_heap st' ! u) = kind (value_heap st ! u)
            \<and> name (value_heap st' ! u) = name (value_heap st ! u)
            \<and> type (value_heap st' ! u) = type (value_heap st ! u)
            \<and> producer (value_heap st' ! u) = producer (value_heap st ! u)
            \<and> (u \<noteq> xv \<longrightarrow> grad (value_heap st' ! u) = grad (value_heap st ! u)))"
    using ctx ins
    by (cases "gc_retain_in_stack gc"; cases "grad (the_value xv st)")
       (simp_all add: GradOp_def AddGradValue_def SetGrad_def gc_x_def gc_xs_def Retain_def
          store_defs nth_list_update new_Node_def)
  then obtain st' where
    G: "GradOp gc op xi ins st = Inr (?gv, st')"
    and gh: "length (graph_heap st') = length (graph_heap st)"
    and nh: "take ?n (node_heap st') = node_heap st"
    and cs: "case grad (the_value xv st) of
           None \<Rightarrow>
             length (value_heap st') = Suc ?gv \<and> length (node_heap st') = ?n + 2 * ?k + 1
             \<and> grad (value_heap st' ! xv) = Some ?gv
             \<and> producer (value_heap st' ! ?gv) = Some (?n + 2 * ?k)
             \<and> node_heap st' ! (?n + 2 * ?k) = new_Node op (map the ins) [?gv] (gc_name gc)
         | Some og \<Rightarrow>
             length (value_heap st') = ?gv + 2 \<and> length (node_heap st') = ?n + 2 * ?k + 2
             \<and> grad (value_heap st' ! xv) = Some (Suc ?gv)
             \<and> producer (value_heap st' ! Suc ?gv) = Some (?n + 2 * ?k)
             \<and> op_type (node_heap st' ! (?n + 2 * ?k)) = kAdd
             \<and> inputs (node_heap st' ! (?n + 2 * ?k)) = [og, ?gv]
             \<and> outputs (node_heap st' ! (?n + 2 * ?k)) = [Suc ?gv]
             \<and> producer (value_heap st' ! ?gv) = Some (?n + 2 * ?k + 1)
             \<and> node_heap st' ! (?n + 2 * ?k + 1) = new_Node op (map the ins) [?gv] (gc_name gc)"
    and old: "\<forall>u < ?v. kind (value_heap st' ! u) = kind (value_heap st ! u)
            \<and> name (value_heap st' ! u) = name (value_heap st ! u)
            \<and> type (value_heap st' ! u) = type (value_heap st ! u)
            \<and> producer (value_heap st' ! u) = producer (value_heap st ! u)
            \<and> (u \<noteq> xv \<longrightarrow> grad (value_heap st' ! u) = grad (value_heap st ! u))"
    by blast
  have lens: "?v \<le> length (value_heap st')" "?n \<le> length (node_heap st')"
    using cs by (auto split: option.splits)
  have nodes: "\<forall>n < ?n. node_heap st' ! n = node_heap st ! n"
    using nh by (metis nth_take)
  have e: "extends st st'"
    using lens gh old nodes by (simp add: extends_def)
  show ?thesis
    using G e cs old
    by (intro exI[of _ ?gv] exI[of _ st'])
       (auto simp: the_value_def the_node_def split: option.splits)
qed

subsection \<open>Steps of a rule, from the store the rule started in\<close>

lemma grows_refl: "grows st st"
  by (simp add: grows_def extends_refl same_grads_def)

lemma grows_trans: "grows a b \<Longrightarrow> grows b c \<Longrightarrow> grows a c"
  unfolding grows_def using extends_trans same_grads_trans by blast

lemma grows_lengths:
  "grows a b \<Longrightarrow> length (value_heap a) \<le> length (value_heap b)
     \<and> length (node_heap a) \<le> length (node_heap b)
     \<and> length (graph_heap a) = length (graph_heap b)"
  by (simp add: grows_def extends_def)

lemma grows_grad:
  "grows a b \<Longrightarrow> v < length (value_heap a) \<Longrightarrow> grad (the_value v b) = grad (the_value v a)"
  by (simp add: grows_def same_grads_def the_value_def)

lemma grows_type:
  "grows a b \<Longrightarrow> v < length (value_heap a) \<Longrightarrow> type (the_value v b) = type (the_value v a)"
  by (simp add: grows_def extends_def the_value_def)

lemma grows_evals:
  "grows a b \<Longrightarrow> evals K a \<rho> v r \<Longrightarrow> evals K b \<rho> v r"
  by (auto simp: grows_def intro: evals_extends)

lemma access_from:
  assumes g: "grows st0 st"
    and ctx: "gc_node gc < length (node_heap st0)" "operand gc a st0 = Some v"
      "v < length (value_heap st0)"
  shows "\<exists>v' st'. access gc a st = Inr (v', st') \<and> grows st0 st' \<and> extends st st'
     \<and> v' < length (value_heap st')
     \<and> type (the_value v' st') = type (the_value v st0)
     \<and> (\<forall>K \<rho> r. evals K st0 \<rho> v r \<longrightarrow> evals K st' \<rho> v' (r::'a))"
proof -
  from g have e: "extends st0 st" by (simp add: grows_def)
  have n: "gc_node gc < length (node_heap st)" and v: "v < length (value_heap st)"
    using grows_lengths[OF g] ctx by simp_all
  have o: "operand gc a st = Some v"
    using operand_extends[OF ctx(1) e, of a] ctx(2) by simp
  from access_step[OF n o v] obtain v' st' where
    A: "access gc a st = Inr (v', st')" and e': "extends st st'" and s': "same_grads st st'"
    and a: "v' < length (value_heap st')"
    and ty: "type (the_value v' st') = type (the_value v st)"
    and ev: "\<And>K \<rho> r. evals K st \<rho> v r \<Longrightarrow> evals K st' \<rho> v' (r::'a)"
    by blast
  have g': "grows st0 st'"
    by (rule grows_trans[OF g]) (simp add: grows_def e' s')
  have "evals K st' \<rho> v' r" if "evals K st0 \<rho> v r"
    for K :: "Node \<Rightarrow> 'a list \<Rightarrow> 'a option" and \<rho> r
    by (rule ev[OF grows_evals[OF g that]])
  then show ?thesis
    using A g' e' a ty grows_type[OF g ctx(3)] by auto
qed

lemma Op_from:
  assumes g: "grows st0 st" and ins: "None \<notin> set ins"
  shows "\<exists>v st' nm. Op gb op ins st = Inr (v, st') \<and> grows st0 st' \<and> extends st st'
     \<and> v < length (value_heap st')
     \<and> (\<forall>K \<rho> rs r. op \<noteq> kOnikuxBackpropStackPop
           \<longrightarrow> list_all2 (evals K st \<rho>) (map the ins) rs
           \<longrightarrow> K (new_Node op (map the ins) [v] nm) rs = Some r
           \<longrightarrow> evals K st' \<rho> v (r::'a))"
proof -
  from Op_step[OF ins, of gb op st] obtain st' nm where
    O: "Op gb op ins st = Inr (length (value_heap st), st')"
    and e: "extends st st'" "same_grads st st'"
    and l: "length (value_heap st') = Suc (length (value_heap st))"
    and ev: "\<forall>K \<rho> rs r. op \<noteq> kOnikuxBackpropStackPop
           \<longrightarrow> list_all2 (evals K st \<rho>) (map the ins) rs
           \<longrightarrow> K (new_Node op (map the ins) [length (value_heap st)] nm) rs = Some r
           \<longrightarrow> evals K st' \<rho> (length (value_heap st)) (r::'a)"
    by (elim exE conjE) (rule that)
  have g': "grows st0 st'"
    by (rule grows_trans[OF g]) (simp add: grows_def e)
  show ?thesis
  proof (intro exI[of _ "length (value_heap st)"] exI[of _ st'] exI[of _ nm] conjI allI impI)
    show "Op gb op ins st = Inr (length (value_heap st), st')" by (rule O)
    show "grows st0 st'" by (rule g')
    show "extends st st'" by (rule e(1))
    show "length (value_heap st) < length (value_heap st')" using l by simp
  next
    fix K :: "Node \<Rightarrow> 'a list \<Rightarrow> 'a option" and \<rho> rs r
    assume "op \<noteq> kOnikuxBackpropStackPop" "list_all2 (evals K st \<rho>) (map the ins) rs"
      "K (new_Node op (map the ins) [length (value_heap st)] nm) rs = Some r"
    then show "evals K st' \<rho> (length (value_heap st)) r" by (rule ev[rule_format])
  qed
qed

lemma Const_from:
  assumes g: "grows st0 st"
  shows "\<exists>v st'. Const gb ty [c] st = Inr (v, st') \<and> grows st0 st' \<and> extends st st'
     \<and> v < length (value_heap st')
     \<and> (\<forall>ext \<rho>. evals (elementwise_kernel ext) st' \<rho> v c)"
proof -
  from Const_step[of gb ty c st] obtain st' where
    C: "Const gb ty [c] st = Inr (length (value_heap st), st')"
    and e: "extends st st'" "same_grads st st'"
    and l: "length (value_heap st') = Suc (length (value_heap st))"
    and ev: "\<forall>ext \<rho>. evals (elementwise_kernel ext) st' \<rho> (length (value_heap st)) c"
    by (elim exE conjE) (rule that)
  have g': "grows st0 st'"
    by (rule grows_trans[OF g]) (simp add: grows_def e)
  show ?thesis
  proof (intro exI[of _ "length (value_heap st)"] exI[of _ st'] conjI allI)
    show "Const gb ty [c] st = Inr (length (value_heap st), st')" by (rule C)
    show "grows st0 st'" by (rule g')
    show "extends st st'" by (rule e(1))
    show "length (value_heap st) < length (value_heap st')" using l by simp
    show "evals (elementwise_kernel ext) st' \<rho> (length (value_heap st)) c" for ext \<rho>
      by (rule ev[rule_format])
  qed
qed

text \<open>
  \<open>GradOp\<close> increments the gradient of the input by what its node computes: the node's
  output becomes the gradient, or is added to the gradient that was there.
\<close>

lemma GradOp_from:
  assumes g: "grows st0 st"
    and ctx: "gc_node gc < length (node_heap st0)" "operand gc (X xi) st0 = Some xv"
      "xv < length (value_heap st0)"
    and ins: "None \<notin> set ins" and op: "op \<noteq> kOnikuxBackpropStackPop"
  shows "\<exists>gv st'. GradOp gc op xi ins st = Inr (gv, st') \<and> extends st0 st'
     \<and> (\<forall>ext \<rho> rs c. list_all2 (evals (elementwise_kernel ext) st \<rho>) (map the ins) rs
           \<longrightarrow> (\<forall>v. elementwise_kernel ext (new_Node op (map the ins) [v] (gc_name gc)) rs = Some c)
           \<longrightarrow> gradient_increment (elementwise_kernel ext) \<rho> st0 st' xv c)"
proof -
  from g have e0: "extends st0 st" by (simp add: grows_def)
  have n: "gc_node gc < length (node_heap st)" and xa: "xv < length (value_heap st)"
    using grows_lengths[OF g] ctx by simp_all
  have o: "operand gc (X xi) st = Some xv"
    using operand_extends[OF ctx(1) e0, of "X xi"] ctx(2) by simp
  then have xi: "0 \<le> xi" "xi < int (length (gc_xs gc st))" "gc_xs gc st ! nat xi = xv"
    by (auto split: if_splits)
  from GradOp_step[OF n xi xa ins, of op] obtain gv st' n' where
    G: "GradOp gc op xi ins st = Inr (gv, st')" and e: "extends st st'"
    and gv: "gv < length (value_heap st')"
    and pr: "producer (the_value gv st') = Some n'" "n' < length (node_heap st')"
      "the_node n' st' = new_Node op (map the ins) [gv] (gc_name gc)"
    and fresh: "grad (the_value xv st) = None \<longrightarrow> grad (the_value xv st') = Some gv"
    and accum: "\<forall>og. grad (the_value xv st) = Some og \<longrightarrow>
                  (\<exists>s m. grad (the_value xv st') = Some s \<and> s < length (value_heap st')
                     \<and> producer (the_value s st') = Some m \<and> m < length (node_heap st')
                     \<and> op_type (the_node m st') = kAdd \<and> inputs (the_node m st') = [og, gv]
                     \<and> outputs (the_node m st') = [s])"
    by (elim exE conjE) (rule that)
  have e': "extends st0 st'" by (rule extends_trans[OF e0 e])
  have inc: "gradient_increment (elementwise_kernel ext) \<rho> st0 st' xv c"
    if rs: "list_all2 (evals (elementwise_kernel ext) st \<rho>) (map the ins) rs"
      and k: "\<forall>v. elementwise_kernel ext (new_Node op (map the ins) [v] (gc_name gc)) rs = Some c"
    for ext \<rho> rs c
  proof -
    have evg: "evals (elementwise_kernel ext) st' \<rho> gv c"
    proof (rule evals.node[where n = n' and rs = rs])
      show "list_all2 (evals (elementwise_kernel ext) st' \<rho>) (inputs (node_heap st' ! n')) rs"
        using rs e pr(3)
        by (auto simp: the_node_def new_Node_def elim!: list_all2_mono intro: evals_extends)
    qed (use gv pr op k in \<open>simp_all add: the_node_def the_value_def new_Node_def\<close>)
    show ?thesis
    proof (cases "grad (the_value xv st0)")
      case None
      then have "grad (the_value xv st) = None"
        using grows_grad[OF g ctx(3)] by simp
      with fresh None evg show ?thesis
        by (simp add: gradient_increment_def)
    next
      case (Some og)
      then have "grad (the_value xv st) = Some og"
        using grows_grad[OF g ctx(3)] by simp
      with accum obtain s m where
        s: "grad (the_value xv st') = Some s" "s < length (value_heap st')"
          "producer (the_value s st') = Some m" "m < length (node_heap st')"
          "op_type (the_node m st') = kAdd" "inputs (the_node m st') = [og, gv]"
          "outputs (the_node m st') = [s]"
        by blast
      have "evals (elementwise_kernel ext) st' \<rho> s (r + c)"
        if r: "evals (elementwise_kernel ext) st0 \<rho> og r" for r
      proof (rule evals.node[where n = m and rs = "[r, c]"])
        show "list_all2 (evals (elementwise_kernel ext) st' \<rho>) (inputs (node_heap st' ! m)) [r, c]"
          using s(6) evg evals_extends[OF r e'] by (simp add: the_node_def)
      qed (use s in \<open>simp_all add: the_node_def the_value_def elementwise_kernel_def\<close>)
      with s(1) Some show ?thesis
        by (simp add: gradient_increment_def)
    qed
  qed
  show ?thesis
    using G e' inc by blast
qed

subsection \<open>The sigmoid rule\<close>

lemma SigmoidGradFn_rejects:
  assumes ctx: "gc_node gc < length (node_heap st)" "operand gc (X 0) st = Some xv"
      "xv < length (value_heap st)"
    and d: "type_dtype (type (the_value xv st)) \<noteq> kFloat32"
  shows "\<exists>st'. SigmoidGradFn gc st
            = Inl (DtypeCheckFailed (type_dtype (type (the_value xv st))), st')"
proof -
  from access_step[OF ctx] obtain x1 st1 where
    A: "access gc (X 0) st = Inr (x1, st1)"
    and ty: "type (the_value x1 st1) = type (the_value xv st)"
    by (elim exE conjE) (rule that)
  from A have "gc_x gc 0 st = Inr (x1, st1)" by simp
  then show ?thesis
    using ty d by (auto simp: SigmoidGradFn_def bindM_def getM_def CHECK_def fatal_def)
qed

lemma SigmoidGradFn_float32:
  assumes n: "gc_node gc < length (node_heap st)"
    and ox: "operand gc (X 0) st = Some xv" and xa: "xv < length (value_heap st)"
    and oy: "operand gc (Y 0) st = Some yv" and ya: "yv < length (value_heap st)"
    and d: "type_dtype (type (the_value xv st)) = kFloat32"
    and gy: "grad (the_value yv st) = Some g"
  shows "\<exists>st'. SigmoidGradFn gc st = Inr ((), st') \<and> extends st st'
     \<and> (\<forall>ext \<rho> a b. evals (elementwise_kernel ext) st \<rho> g a
           \<longrightarrow> evals (elementwise_kernel ext) st \<rho> yv b
           \<longrightarrow> gradient_increment (elementwise_kernel ext) \<rho> st st' xv (a * b * (1 - b)))"
proof -
  note g0 = grows_refl[of st]
  from access_from[OF g0 n ox xa] obtain x1 st1 where
    A1: "access gc (X 0) st = Inr (x1, st1)" and g1: "grows st st1"
    and ty1: "type (the_value x1 st1) = type (the_value xv st)"
    by (elim exE conjE) (rule that)
  from access_from[OF g1 n ox xa] obtain x2 st2 where
    A2: "access gc (X 0) st1 = Inr (x2, st2)" and g2: "grows st st2"
    by (elim exE conjE) (rule that)
  have "operand gc (Y 0) st2 = Some yv"
    using operand_extends[OF n, where st' = st2 and a = "Y 0"] g2 oy by (simp add: grows_def)
  from gc_gy_eq[OF this] have GY: "gc_gy gc 0 st2 = Inr (Some g, st2)"
    using grows_grad[OF g2 ya] gy by simp
  from access_from[OF g2 n ox xa] obtain x3 st3 where
    A3: "access gc (X 0) st2 = Inr (x3, st3)" and g3: "grows st st3"
    by (elim exE conjE) (rule that)
  define gb where "gb = \<lparr>gb_graph = gc_graph gc, gb_category = gc_name gc, gb_target = x2\<rparr>"
  define ty where "ty = \<lparr>type_dtype = type_dtype (type (the_value x3 st3)), type_dims = []\<rparr>"
  from Const_from[OF g3, of gb ty 1] obtain one st4 where
    C: "Const gb ty [1] st3 = Inr (one, st4)" and g4: "grows st st4"
    and ev1: "\<forall>ext \<rho>. evals (elementwise_kernel ext) st4 \<rho> one 1"
    by (elim exE conjE) (rule that)
  from access_from[OF g4 n oy ya] obtain y1 st5 where
    A4: "access gc (Y 0) st4 = Inr (y1, st5)" and g5: "grows st st5" and e45: "extends st4 st5"
    and evy1: "\<forall>K \<rho> r. evals K st \<rho> yv r \<longrightarrow> evals K st5 \<rho> y1 (r::real)"
    by (elim exE conjE) (rule that)
  have i0: "None \<notin> set [Some g, Some y1]" by simp
  from Op_from[OF g5 i0, of gb kMul] obtain t0 st6 nm0 where
    O1: "Op gb kMul [Some g, Some y1] st5 = Inr (t0, st6)" and g6: "grows st st6"
    and e56: "extends st5 st6"
    and evt0: "\<forall>K \<rho> rs r. kMul \<noteq> kOnikuxBackpropStackPop
           \<longrightarrow> list_all2 (evals K st5 \<rho>) (map the [Some g, Some y1]) rs
           \<longrightarrow> K (new_Node kMul (map the [Some g, Some y1]) [t0] nm0) rs = Some r
           \<longrightarrow> evals K st6 \<rho> t0 (r::real)"
    by (elim exE conjE) (rule that)
  from access_from[OF g6 n oy ya] obtain y2 st7 where
    A5: "access gc (Y 0) st6 = Inr (y2, st7)" and g7: "grows st st7" and e67: "extends st6 st7"
    and evy2: "\<forall>K \<rho> r. evals K st \<rho> yv r \<longrightarrow> evals K st7 \<rho> y2 (r::real)"
    by (elim exE conjE) (rule that)
  have i1: "None \<notin> set [Some one, Some y2]" by simp
  from Op_from[OF g7 i1, of gb kSub] obtain t1 st8 nm1 where
    O2: "Op gb kSub [Some one, Some y2] st7 = Inr (t1, st8)" and g8: "grows st st8"
    and e78: "extends st7 st8"
    and evt1: "\<forall>K \<rho> rs r. kSub \<noteq> kOnikuxBackpropStackPop
           \<longrightarrow> list_all2 (evals K st7 \<rho>) (map the [Some one, Some y2]) rs
           \<longrightarrow> K (new_Node kSub (map the [Some one, Some y2]) [t1] nm1) rs = Some r
           \<longrightarrow> evals K st8 \<rho> t1 (r::real)"
    by (elim exE conjE) (rule that)
  have i2: "None \<notin> set [Some t0, Some t1]" and o2: "kMul \<noteq> kOnikuxBackpropStackPop"
    by simp_all
  from GradOp_from[OF g8 n ox xa i2 o2] obtain gv st9 where
    G: "GradOp gc kMul 0 [Some t0, Some t1] st8 = Inr (gv, st9)" and e9: "extends st st9"
    and inc: "\<forall>ext \<rho> rs c.
           list_all2 (evals (elementwise_kernel ext) st8 \<rho>) (map the [Some t0, Some t1]) rs
           \<longrightarrow> (\<forall>v. elementwise_kernel ext
                      (new_Node kMul (map the [Some t0, Some t1]) [v] (gc_name gc)) rs = Some c)
           \<longrightarrow> gradient_increment (elementwise_kernel ext) \<rho> st st9 xv c"
    by (elim exE conjE) (rule that)
  have run: "SigmoidGradFn gc st = Inr ((), st9)"
    using A1 A2 GY A3 C A4 O1 A5 O2 G ty1 d
    by (simp add: SigmoidGradFn_def builder_def bindM_def getM_def CHECK_def returnM_def
        gb_def ty_def)
  have "gradient_increment (elementwise_kernel ext) \<rho> st st9 xv (a * b * (1 - b))"
    if a: "evals (elementwise_kernel ext) st \<rho> g a"
      and b: "evals (elementwise_kernel ext) st \<rho> yv b" for ext \<rho> a b
  proof -
    let ?K = "elementwise_kernel ext"
    have "evals ?K st5 \<rho> g a" by (rule grows_evals[OF g5 a])
    moreover have "evals ?K st5 \<rho> y1 b" using evy1 b by blast
    ultimately have "evals ?K st6 \<rho> t0 (a * b)"
      using evt0[rule_format, of ?K \<rho> "[a, b]" "a * b"]
      by (simp add: elementwise_kernel_def new_Node_def)
    then have t0: "evals ?K st8 \<rho> t0 (a * b)"
      by (intro evals_extends[OF _ e78] evals_extends[OF _ e67])
    have "evals ?K st7 \<rho> one 1"
      using ev1 by (intro evals_extends[OF _ e67] evals_extends[OF _ e56] evals_extends[OF _ e45]) blast
    moreover have "evals ?K st7 \<rho> y2 b" using evy2 b by blast
    ultimately have t1: "evals ?K st8 \<rho> t1 (1 - b)"
      using evt1[rule_format, of ?K \<rho> "[1, b]" "1 - b"]
      by (simp add: elementwise_kernel_def new_Node_def)
    show ?thesis
      using inc[rule_format, of ext \<rho> "[a * b, 1 - b]" "a * b * (1 - b)"] t0 t1
      by (simp add: elementwise_kernel_def new_Node_def)
  qed
  with run e9 show ?thesis by blast
qed

text \<open>
  Claim C5, amended. The sigmoid rule requires the dtype of its input to be the 32-bit
  float, not any floating dtype. Let \<open>xv\<close> be input 0 and \<open>yv\<close> output 0 of the node.
  When the dtype of \<open>xv\<close> is \<open>kFloat32\<close> and \<open>yv\<close> has a gradient \<open>g\<close>, the rule succeeds in a
  store that extends the one before, and it increments the gradient of \<open>xv\<close> by
  \<open>gy \<cdot> y \<cdot> (1 - y)\<close>: by \<open>a * b * (1 - b)\<close> whenever \<open>g\<close> evaluates to \<open>a\<close> and \<open>yv\<close> to \<open>b\<close>,
  with or without retention. When the dtype of \<open>xv\<close> is anything else, the 64-bit float
  included, the rule fails with the dtype check of line 346.
\<close>

theorem SigmoidGradFn_requires_float32:
  assumes "gc_node gc < length (node_heap st)"
    and "operand gc (X 0) st = Some xv" and "xv < length (value_heap st)"
    and "operand gc (Y 0) st = Some yv" and "yv < length (value_heap st)"
  shows "(type_dtype (type (the_value xv st)) = kFloat32 \<longrightarrow>
            (\<forall>g. grad (the_value yv st) = Some g \<longrightarrow>
               (\<exists>st'. SigmoidGradFn gc st = Inr ((), st') \<and> extends st st'
                  \<and> (\<forall>ext \<rho> a b. evals (elementwise_kernel ext) st \<rho> g a
                        \<longrightarrow> evals (elementwise_kernel ext) st \<rho> yv b
                        \<longrightarrow> gradient_increment (elementwise_kernel ext) \<rho> st st' xv
                              (a * b * (1 - b))))))
       \<and> (type_dtype (type (the_value xv st)) \<noteq> kFloat32 \<longrightarrow>
            (\<exists>st'. SigmoidGradFn gc st
                = Inl (DtypeCheckFailed (type_dtype (type (the_value xv st))), st')))"
proof (intro conjI impI allI)
  fix g
  assume "type_dtype (type (the_value xv st)) = kFloat32" "grad (the_value yv st) = Some g"
  with assms show "\<exists>st'. SigmoidGradFn gc st = Inr ((), st') \<and> extends st st'
     \<and> (\<forall>ext \<rho> a b. evals (elementwise_kernel ext) st \<rho> g a
           \<longrightarrow> evals (elementwise_kernel ext) st \<rho> yv b
           \<longrightarrow> gradient_increment (elementwise_kernel ext) \<rho> st st' xv (a * b * (1 - b)))"
    by (rule SigmoidGradFn_float32)
next
  assume "type_dtype (type (the_value xv st)) \<noteq> kFloat32"
  with assms(1-3) show "\<exists>st'. SigmoidGradFn gc st
        = Inl (DtypeCheckFailed (type_dtype (type (the_value xv st))), st')"
    by (rule SigmoidGradFn_rejects)
qed

lemma example_context_1:
  "example_context 1 r =
     \<lparr>gc_graph = 0, gc_node = 1, gc_name = ''SigmoidGrad'', gc_retain_in_stack = r\<rparr>"
  by (simp add: example_context_def example_store_def new_GradientOpContext_def
      the_node_def new_Node_def Let_def HasPrefix_def)

lemma example_operands_1:
  "operand (example_context 1 r) (X 0) example_store = Some 3"
  "operand (example_context 1 r) (Y 0) example_store = Some 4"
  "gc_node (example_context 1 r) < length (node_heap example_store)"
  "3 < length (value_heap example_store)"
  "4 < length (value_heap example_store)"
  "type_dtype (type (the_value 3 example_store)) \<noteq> kFloat32"
  "type_dtype (type (the_value 3 example_store)) = kFloat64"
  unfolding example_context_1
  by (simp_all add: example_store_def example_value_def
      gc_xs_def gc_ys_def the_node_def the_value_def new_Node_def)

lemma example_valid_0:
  "gc_node (example_context 0 r) < length (node_heap example_store)"
  "0 < length (value_heap example_store)"
  "1 < length (value_heap example_store)"
  "type_dtype (type (the_value 0 example_store)) = kFloat32"
  "grad (the_value 1 example_store) = Some 2"
  "grad (the_value 0 example_store) = None"
  unfolding example_context_0
  by (simp_all add: example_store_def example_value_def the_value_def)

lemma example_sigmoid:
  "evals (elementwise_kernel logistic_kernel) example_store \<rho> 1 (1 / (1 + exp (- \<rho> 0)))"
proof (rule evals.node[where n = 0 and rs = "[\<rho> 0]"])
  show "list_all2 (evals (elementwise_kernel logistic_kernel) example_store \<rho>)
     (inputs (node_heap example_store ! 0)) [\<rho> 0]"
    using example_leaves(1)[of "elementwise_kernel logistic_kernel" \<rho>]
    by (simp add: example_store_def new_Node_def)
qed (simp_all add: example_store_def example_value_def new_Node_def elementwise_kernel_def
      logistic_kernel_def)

theorem SigmoidGradFn_requires_float32_witness:
  "(\<exists>st' s. SigmoidGradFn (example_context 0 True) example_store = Inr ((), st')
       \<and> grad (the_value 0 st') = Some s
       \<and> evals (elementwise_kernel logistic_kernel) st' (\<lambda>v. if v = 2 then 3 else 0) s (3 / 4))
   \<and> (\<exists>st'. SigmoidGradFn (example_context 1 True) example_store
          = Inl (DtypeCheckFailed kFloat64, st'))"
proof
  let ?\<rho> = "\<lambda>v::nat. if v = 2 then 3 else (0::real)"
  let ?K = "elementwise_kernel logistic_kernel"
  note t = SigmoidGradFn_requires_float32[OF example_valid_0(1)[of True]
      example_operands(1)[of True] example_valid_0(2) example_operands(2)[of True]
      example_valid_0(3)]
  from t[THEN conjunct1, rule_format, OF example_valid_0(4) example_valid_0(5)]
  obtain st' where
    R: "SigmoidGradFn (example_context 0 True) example_store = Inr ((), st')"
    and inc: "\<forall>ext \<rho> a b. evals (elementwise_kernel ext) example_store \<rho> 2 a
           \<longrightarrow> evals (elementwise_kernel ext) example_store \<rho> 1 b
           \<longrightarrow> gradient_increment (elementwise_kernel ext) \<rho> example_store st' 0
                 (a * b * (1 - b))"
    by (elim exE conjE) (rule that)
  have a: "evals ?K example_store ?\<rho> 2 3"
    using example_leaves(2)[of ?K ?\<rho>] by simp
  have b: "evals ?K example_store ?\<rho> 1 (1 / 2)"
    using example_sigmoid[of ?\<rho>] by simp
  from inc[rule_format, OF a b]
  have "gradient_increment ?K ?\<rho> example_store st' 0 (3 / 4)" by simp
  then have "\<exists>s. grad (the_value 0 st') = Some s \<and> evals ?K st' ?\<rho> s (3 / 4)"
    by (simp add: gradient_increment_def example_valid_0(6) split: option.splits)
  with R show "\<exists>st' s. SigmoidGradFn (example_context 0 True) example_store = Inr ((), st')
       \<and> grad (the_value 0 st') = Some s \<and> evals ?K st' ?\<rho> s (3 / 4)"
    by blast
next
  note t = SigmoidGradFn_requires_float32[OF example_operands_1(3)[of True]
      example_operands_1(1)[of True] example_operands_1(4) example_operands_1(2)[of True]
      example_operands_1(5)]
  from t[THEN conjunct2, rule_format, OF example_operands_1(6)]
  show "\<exists>st'. SigmoidGradFn (example_context 1 True) example_store
          = Inl (DtypeCheckFailed kFloat64, st')"
    by (simp add: example_operands_1(7))
qed

text \<open>
  The 64-bit float is a floating dtype, and the rule fails on an input of that dtype.
\<close>

theorem SigmoidGradFn_float64_counterexample:
  "IsFloat kFloat64 \<and>
   inputs (the_node 1 example_store) = [3] \<and>
   type_dtype (type (the_value 3 example_store)) = kFloat64 \<and>
   SigmoidGradFn (new_GradientOpContext 0 1 False example_store) example_store
     = Inl (DtypeCheckFailed kFloat64, example_store)"
  by (simp add: SigmoidGradFn_def gc_x_def gc_xs_def Retain_def new_GradientOpContext_def
      bindM_def getM_def CHECK_def returnM_def fatal_def Let_def
      example_store_def example_value_def the_node_def the_value_def new_Node_def)

subsection \<open>The loop rule\<close>

text \<open>
  On a loop node with a body, an output and room for the counter, \<open>OutputIterationCount\<close>
  succeeds: it adds one input and one output to the loop, one input and one output to the
  body, and three nodes, two constants and an add.
\<close>

lemma OutputIterationCount_run:
  assumes "loop < length (node_heap st)" "body (the_node loop st) = Some bdy"
    "bdy < length (graph_heap st)"
    "outputs (the_node loop st) \<noteq> []"
    "0 \<le> int (length (inputs (the_node loop st))) - 2"
    "int (length (inputs (the_node loop st))) - 2 \<le> int (length (outputs (the_node loop st)))"
  shows "\<exists>st1. OutputIterationCount graph loop st = Inr ((), st1)
     \<and> length (inputs (the_node loop st1)) = Suc (length (inputs (the_node loop st)))
     \<and> length (outputs (the_node loop st1)) = Suc (length (outputs (the_node loop st)))
     \<and> body (the_node loop st1) = Some bdy
     \<and> onikux_stack_axis (the_node loop st1) = onikux_stack_axis (the_node loop st)
     \<and> length (input_values (the_graph bdy st1)) = Suc (length (input_values (the_graph bdy st)))
     \<and> length (output_values (the_graph bdy st1)) = Suc (length (output_values (the_graph bdy st)))
     \<and> length (node_heap st1) = length (node_heap st) + 3
     \<and> (\<forall>n < length (node_heap st1). op_type (the_node n st1) =
           (if n < length (node_heap st) then op_type (the_node n st)
            else if n = length (node_heap st) + 2 then kAdd else kConstant))"
proof (cases "graph < length (graph_heap st)")
  case True
  with assms show ?thesis
    by (simp add: OutputIterationCount_def Const_def Node_AddInput_def Node_AddOutput_def
        at_index_def CHECK_def fatal_def store_defs new_Node_def nth_list_update less_Suc_eq)
next
  case False
  with assms show ?thesis
    by (simp add: OutputIterationCount_def Const_def Node_AddInput_def Node_AddOutput_def
        at_index_def CHECK_def fatal_def store_defs new_Node_def nth_list_update less_Suc_eq
        list_update_beyond)
qed

text \<open>
  With a scan output or a stack axis other than 0 the rule stops at one of its checks, in
  the store that \<open>OutputIterationCount\<close> left.
\<close>

lemma LoopGradFn_stops:
  assumes ok: "loop_node_ok (gc_node gc) bdy st"
    and bad: "num_scans_of (gc_node gc) bdy st \<noteq> 0
        \<or> onikux_stack_axis (the_node (gc_node gc) st) \<noteq> 0"
  shows "\<exists>st1. OutputIterationCount (gc_graph gc) (gc_node gc) st = Inr ((), st1)
     \<and> (\<forall>A R. LoopGradFn A R gc st
            = Inl (if loop_shape_ok (gc_node gc) bdy st then NotImplementedYet
                   else LoopShapeCheckFailed, st1))
     \<and> length (node_heap st1) = length (node_heap st) + 3
     \<and> (\<forall>n < length (node_heap st1). op_type (the_node n st1) = kOnikuxLoopRef
           \<longrightarrow> n < length (node_heap st) \<and> op_type (the_node n st) = kOnikuxLoopRef)"
proof -
  let ?loop = "gc_node gc"
  from ok have v: "?loop < length (node_heap st)" "body (the_node ?loop st) = Some bdy"
    "bdy < length (graph_heap st)" "outputs (the_node ?loop st) \<noteq> []"
    "0 \<le> int (length (inputs (the_node ?loop st))) - 2"
    "int (length (inputs (the_node ?loop st))) - 2 \<le> int (length (outputs (the_node ?loop st)))"
    by (simp_all add: loop_node_ok_def)
  from OutputIterationCount_run[OF v, of "gc_graph gc"] obtain st1 where
    R: "OutputIterationCount (gc_graph gc) ?loop st = Inr ((), st1)"
    and li: "length (inputs (the_node ?loop st1)) = Suc (length (inputs (the_node ?loop st)))"
    and lo: "length (outputs (the_node ?loop st1)) = Suc (length (outputs (the_node ?loop st)))"
    and bd: "body (the_node ?loop st1) = Some bdy"
    and ax: "onikux_stack_axis (the_node ?loop st1) = onikux_stack_axis (the_node ?loop st)"
    and bi: "length (input_values (the_graph bdy st1)) = Suc (length (input_values (the_graph bdy st)))"
    and bo: "length (output_values (the_graph bdy st1)) = Suc (length (output_values (the_graph bdy st)))"
    and ln: "length (node_heap st1) = length (node_heap st) + 3"
    and ops: "\<forall>n < length (node_heap st1). op_type (the_node n st1) =
           (if n < length (node_heap st) then op_type (the_node n st)
            else if n = length (node_heap st) + 2 then kAdd else kConstant)"
    by (elim exE conjE) (rule that)
  have fails: "LoopGradFn A R gc st
      = Inl (if loop_shape_ok ?loop bdy st then NotImplementedYet else LoopShapeCheckFailed, st1)"
    for A R
    using R li lo bd ax bi bo bad
    by (auto simp: LoopGradFn_def bindM_def getM_def CHECK_def fatal_def returnM_def Let_def
        loop_shape_ok_def num_scans_of_def)
  have "n < length (node_heap st) \<and> op_type (the_node n st) = kOnikuxLoopRef"
    if "n < length (node_heap st1)" "op_type (the_node n st1) = kOnikuxLoopRef" for n
    using ops[rule_format, OF that(1)] that(2) by (auto split: if_splits)
  with R fails ln show ?thesis by blast
qed

text \<open>
  Claim C7. Take a loop node the rule can count the iterations of. If it has a scan output
  (the body has more outputs than the condition and the states) or its stack axis is not 0,
  the rule fails: with the shape error of lines 572 and 573 when the loop and its body do
  not match, and with "not implemented yet" otherwise. It fails in the store that
  \<open>OutputIterationCount\<close> left, whatever \<open>AddGradientNodes\<close> and \<open>ResetGradients\<close> do: they
  are not called, and no reverse loop has been added. So a run of the rule that returns is
  one on a loop with no scan output and stack axis 0.
\<close>

theorem LoopGradFn_guards:
  assumes "loop_node_ok (gc_node gc) bdy st"
  shows "(num_scans_of (gc_node gc) bdy st \<noteq> 0
            \<or> onikux_stack_axis (the_node (gc_node gc) st) \<noteq> 0 \<longrightarrow>
          (\<exists>st1. OutputIterationCount (gc_graph gc) (gc_node gc) st = Inr ((), st1)
             \<and> (\<forall>A R. LoopGradFn A R gc st
                    = Inl (if loop_shape_ok (gc_node gc) bdy st then NotImplementedYet
                           else LoopShapeCheckFailed, st1))
             \<and> length (node_heap st1) = length (node_heap st) + 3
             \<and> (\<forall>n < length (node_heap st1). op_type (the_node n st1) = kOnikuxLoopRef
                   \<longrightarrow> n < length (node_heap st) \<and> op_type (the_node n st) = kOnikuxLoopRef)))
       \<and> (\<forall>A R u st'. LoopGradFn A R gc st = Inr (u, st') \<longrightarrow>
            num_scans_of (gc_node gc) bdy st = 0
            \<and> onikux_stack_axis (the_node (gc_node gc) st) = 0)"
proof (intro conjI impI allI)
  assume "num_scans_of (gc_node gc) bdy st \<noteq> 0
      \<or> onikux_stack_axis (the_node (gc_node gc) st) \<noteq> 0"
  with assms show "\<exists>st1. OutputIterationCount (gc_graph gc) (gc_node gc) st = Inr ((), st1)
     \<and> (\<forall>A R. LoopGradFn A R gc st
            = Inl (if loop_shape_ok (gc_node gc) bdy st then NotImplementedYet
                   else LoopShapeCheckFailed, st1))
     \<and> length (node_heap st1) = length (node_heap st) + 3
     \<and> (\<forall>n < length (node_heap st1). op_type (the_node n st1) = kOnikuxLoopRef
           \<longrightarrow> n < length (node_heap st) \<and> op_type (the_node n st) = kOnikuxLoopRef)"
    by (rule LoopGradFn_stops)
next
  fix A R u st'
  assume run: "LoopGradFn A R gc st = Inr (u, st')"
  have "\<not> (num_scans_of (gc_node gc) bdy st \<noteq> 0
      \<or> onikux_stack_axis (the_node (gc_node gc) st) \<noteq> 0)"
  proof
    assume "num_scans_of (gc_node gc) bdy st \<noteq> 0
      \<or> onikux_stack_axis (the_node (gc_node gc) st) \<noteq> 0"
    from LoopGradFn_stops[OF assms this] obtain st1 where
      "\<forall>A R. LoopGradFn A R gc st
            = Inl (if loop_shape_ok (gc_node gc) bdy st then NotImplementedYet
                   else LoopShapeCheckFailed, st1)"
      by (elim exE conjE) (rule that)
    with run show False by simp
  qed
  then show "num_scans_of (gc_node gc) bdy st = 0"
    and "onikux_stack_axis (the_node (gc_node gc) st) = 0"
    by simp_all
qed

lemma example_loop_facts:
  "loop_node_ok (gc_node (example_loop_context sc ax)) 1 (example_loop_store sc ax)"
  "num_scans_of (gc_node (example_loop_context sc ax)) 1 (example_loop_store sc ax)
     = (if sc then 1 else 0)"
  "onikux_stack_axis (the_node (gc_node (example_loop_context sc ax)) (example_loop_store sc ax))
     = ax"
  "loop_shape_ok (gc_node (example_loop_context sc ax)) 1 (example_loop_store sc ax) = True"
  by (simp_all add: example_loop_context_def new_GradientOpContext_def Let_def
      loop_node_ok_def loop_shape_ok_def num_scans_of_def example_loop_store_def
      the_node_def the_graph_def new_Node_def)

lemma example_loop_run:
  "\<exists>st'. LoopGradFn (\<lambda>_ _ _. returnM ()) (\<lambda>_. returnM ())
          (example_loop_context False 0) (example_loop_store False 0) = Inr ((), st')
     \<and> length (node_heap st') = 8
     \<and> op_type (the_node 7 st') = kOnikuxLoopRef
     \<and> inputs (the_node 7 st') = [11, 22, 4]
     \<and> outputs (the_node 7 st') = [21]
     \<and> body_ref (the_node 7 st') = ''body''
     \<and> grad (the_value 2 st') = Some 21"
  by (simp add: LoopGradFn_def OutputIterationCount_def Const_def Node_AddInput_def
      Node_AddOutput_def AddGradValue_def SetGrad_def gc_x_def gc_xs_def Retain_def
      example_loop_context_def new_GradientOpContext_def HasPrefix_def
      at_index_def CHECK_def fatal_def store_defs new_Node_def nth_list_update
      example_loop_store_def example_value_def)

theorem LoopGradFn_guards_witness:
  "(\<exists>st1. LoopGradFn (\<lambda>_ _ _. returnM ()) (\<lambda>_. returnM ())
        (example_loop_context True 0) (example_loop_store True 0)
      = Inl (NotImplementedYet, st1))
   \<and> (\<exists>st1. LoopGradFn (\<lambda>_ _ _. returnM ()) (\<lambda>_. returnM ())
        (example_loop_context False 1) (example_loop_store False 1)
      = Inl (NotImplementedYet, st1))
   \<and> (\<exists>st'. LoopGradFn (\<lambda>_ _ _. returnM ()) (\<lambda>_. returnM ())
        (example_loop_context False 0) (example_loop_store False 0) = Inr ((), st')
        \<and> op_type (the_node 7 st') = kOnikuxLoopRef)
   \<and> num_scans_of 0 1 (example_loop_store False 0) = 0
   \<and> onikux_stack_axis (the_node 0 (example_loop_store False 0)) = 0"
proof (intro conjI)
  have p: "num_scans_of (gc_node (example_loop_context True 0)) 1 (example_loop_store True 0) \<noteq> 0
      \<or> onikux_stack_axis (the_node (gc_node (example_loop_context True 0))
            (example_loop_store True 0)) \<noteq> 0"
    unfolding example_loop_facts by simp
  from LoopGradFn_guards[OF example_loop_facts(1), THEN conjunct1, rule_format, OF p]
  show "\<exists>st1. LoopGradFn (\<lambda>_ _ _. returnM ()) (\<lambda>_. returnM ())
        (example_loop_context True 0) (example_loop_store True 0)
      = Inl (NotImplementedYet, st1)"
    unfolding example_loop_facts by auto
next
  have p: "num_scans_of (gc_node (example_loop_context False 1)) 1 (example_loop_store False 1) \<noteq> 0
      \<or> onikux_stack_axis (the_node (gc_node (example_loop_context False 1))
            (example_loop_store False 1)) \<noteq> 0"
    unfolding example_loop_facts by simp
  from LoopGradFn_guards[OF example_loop_facts(1), THEN conjunct1, rule_format, OF p]
  show "\<exists>st1. LoopGradFn (\<lambda>_ _ _. returnM ()) (\<lambda>_. returnM ())
        (example_loop_context False 1) (example_loop_store False 1)
      = Inl (NotImplementedYet, st1)"
    unfolding example_loop_facts by auto
next
  from example_loop_run obtain st' where
    R: "LoopGradFn (\<lambda>_ _ _. returnM ()) (\<lambda>_. returnM ())
          (example_loop_context False 0) (example_loop_store False 0) = Inr ((), st')"
    and o: "op_type (the_node 7 st') = kOnikuxLoopRef"
    by (elim exE conjE) (rule that)
  then show "\<exists>st'. LoopGradFn (\<lambda>_ _ _. returnM ()) (\<lambda>_. returnM ())
        (example_loop_context False 0) (example_loop_store False 0) = Inr ((), st')
        \<and> op_type (the_node 7 st') = kOnikuxLoopRef"
    by blast
  have g: "gc_node (example_loop_context False 0) = 0"
    by (simp add: example_loop_context_def new_GradientOpContext_def Let_def)
  note t = LoopGradFn_guards[OF example_loop_facts(1), THEN conjunct2, rule_format, OF R]
  from t show "num_scans_of 0 1 (example_loop_store False 0) = 0"
    unfolding g by (rule conjunct1)
  from t show "onikux_stack_axis (the_node 0 (example_loop_store False 0)) = 0"
    unfolding g by (rule conjunct2)
qed

subsection \<open>Matrices\<close>

lemma index_in_matrix: "i < r \<Longrightarrow> j < c \<Longrightarrow> i * c + j < r * (c::nat)"
proof -
  assume "i < r" "j < c"
  then have "i * c + j < i * c + c" by simp
  also have "\<dots> = Suc i * c" by simp
  also have "\<dots> \<le> r * c" using \<open>i < r\<close> by (intro mult_le_mono1) simp
  finally show ?thesis .
qed

lemma tabulate2_fields [simp]:
  "dtype (tabulate2 d r c f) = d" "shape (tabulate2 d r c f) = [r, c]"
  "length (data (tabulate2 d r c f)) = r * c"
  by (simp_all add: tabulate2_def)

lemma at2_tabulate2: "i < r \<Longrightarrow> j < c \<Longrightarrow> at2 (tabulate2 d r c f) i j = f i j"
  using index_in_matrix[of i r j c] by (simp add: at2_def tabulate2_def)

lemma tabulate2_cong:
  assumes "\<And>i j. i < r \<Longrightarrow> j < c \<Longrightarrow> f i j = g i j"
  shows "tabulate2 d r c f = tabulate2 d r c g"
proof -
  have "f (n div c) (n mod c) = g (n div c) (n mod c)" if "n < r * c" for n
  proof (rule assms)
    from that have c: "0 < c" by (cases c) simp_all
    then show "n mod c < c" by simp
    from that show "n div c < r" by (simp add: less_mult_imp_div_less)
  qed
  then show ?thesis by (simp add: tabulate2_def)
qed

lemma matrix_tabulate2:
  assumes "is_matrix a d r c"
  shows "tabulate2 d r c (at2 a) = a"
proof -
  from assms have s: "dtype a = d" "shape a = [r, c]" "length (data a) = r * c"
    by (simp_all add: is_matrix_def)
  have "map (\<lambda>n. data a ! (n div c * c + n mod c)) [0..<r * c] = map (nth (data a)) [0..<r * c]"
    by simp
  also have "\<dots> = data a" using s(3) map_nth[of "data a"] by simp
  finally show ?thesis using s by (simp add: tabulate2_def at2_def)
qed

lemma is_matrix_T: "is_matrix a d r c \<Longrightarrow> is_matrix (mat_T a) d c r"
  by (simp add: is_matrix_def mat_T_def)

lemma is_matrix_mul:
  "is_matrix a d r k \<Longrightarrow> is_matrix b d' k' c \<Longrightarrow> is_matrix (mat_mul a b) d r c"
  by (simp add: is_matrix_def mat_mul_def)

lemma is_matrix_scale: "is_matrix a d r c \<Longrightarrow> is_matrix (mat_scale a s) d r c"
  by (simp add: is_matrix_def mat_scale_def)

lemma at2_T: "is_matrix a d r c \<Longrightarrow> i < c \<Longrightarrow> j < r \<Longrightarrow> at2 (mat_T a) i j = at2 a j i"
  by (simp add: is_matrix_def mat_T_def at2_tabulate2)

lemma mat_T_T: "is_matrix a d r c \<Longrightarrow> mat_T (mat_T a) = a"
proof -
  assume m: "is_matrix a d r c"
  then have s: "dtype a = d" "shape a = [r, c]" by (simp_all add: is_matrix_def)
  have "mat_T (mat_T a) = tabulate2 d r c (\<lambda>i j. at2 (mat_T a) j i)"
    using s by (simp add: mat_T_def)
  also have "\<dots> = tabulate2 d r c (at2 a)"
    by (rule tabulate2_cong) (simp add: at2_T[OF m])
  also have "\<dots> = a" by (rule matrix_tabulate2[OF m])
  finally show ?thesis .
qed

lemma mat_T_mul:
  assumes a: "is_matrix a d r k" and b: "is_matrix b d k c"
  shows "mat_T (mat_mul a b) = mat_mul (mat_T b) (mat_T a)"
proof -
  from a b have s: "dtype a = d" "shape a = [r, k]" "dtype b = d" "shape b = [k, c]"
    by (simp_all add: is_matrix_def)
  have "mat_T (mat_mul a b) = tabulate2 d c r (\<lambda>i j. at2 (mat_mul a b) j i)"
    using s by (simp add: mat_T_def mat_mul_def)
  also have "\<dots> = tabulate2 d c r
       (\<lambda>i j. sum_list (map (\<lambda>l. at2 (mat_T b) i l * at2 (mat_T a) l j) [0..<k]))"
  proof (rule tabulate2_cong)
    fix i j assume ij: "i < c" "j < r"
    have "map (\<lambda>l. at2 a j l * at2 b l i) [0..<k]
        = map (\<lambda>l. at2 (mat_T b) i l * at2 (mat_T a) l j) [0..<k]"
      using ij by (intro map_cong refl) (simp add: at2_T[OF a] at2_T[OF b])
    then have "sum_list (map (\<lambda>l. at2 a j l * at2 b l i) [0..<k])
        = sum_list (map (\<lambda>l. at2 (mat_T b) i l * at2 (mat_T a) l j) [0..<k])"
      by (rule arg_cong)
    moreover have "at2 (mat_mul a b) j i = sum_list (map (\<lambda>l. at2 a j l * at2 b l i) [0..<k])"
      using ij s by (simp add: mat_mul_def at2_tabulate2)
    ultimately show "at2 (mat_mul a b) j i
        = sum_list (map (\<lambda>l. at2 (mat_T b) i l * at2 (mat_T a) l j) [0..<k])"
      by simp
  qed
  also have "\<dots> = mat_mul (mat_T b) (mat_T a)"
    using s by (simp add: mat_mul_def mat_T_def)
  finally show ?thesis .
qed

lemma mat_T_scale: "is_matrix a d r c \<Longrightarrow> mat_T (mat_scale a s) = mat_scale (mat_T a) s"
proof -
  assume m: "is_matrix a d r c"
  then have s: "dtype a = d" "shape a = [r, c]" "length (data a) = r * c"
    by (simp_all add: is_matrix_def)
  have e: "at2 (mat_scale a s) j i = at2 a j i * s" if "i < c" "j < r" for i j
    using index_in_matrix[OF that(2) that(1)] s by (simp add: at2_def mat_scale_def)
  have "mat_T (mat_scale a s) = tabulate2 d c r (\<lambda>i j. at2 (mat_scale a s) j i)"
    using s by (simp add: mat_T_def mat_scale_def)
  also have "\<dots> = tabulate2 d c r (\<lambda>i j. at2 a j i * s)"
    by (rule tabulate2_cong) (rule e)
  also have "\<dots> = mat_scale (mat_T a) s"
    using s by (simp add: mat_T_def mat_scale_def tabulate2_def)
  finally show ?thesis .
qed

lemma mat_scale_1: "mat_scale a 1 = a"
  by (simp add: mat_scale_def)

text \<open>
  What the Gemm nodes of the gradient rule compute, by \<open>GemmOp::RunImpl\<close>: the closed
  forms. The third operand is ignored, since \<open>beta\<close> is 0.
\<close>

lemma is_matrix_shape:
  "is_matrix a d r c \<Longrightarrow> length (shape a) = 2 \<and> shape a ! 0 = r \<and> shape a ! 1 = c"
  by (simp add: is_matrix_def)

lemma GemmOp_plain:
  assumes "is_matrix a d r k" "is_matrix b d k c"
  shows "GemmOp_RunImpl L P al 0 False False a b x = Inr (mat_scale (mat_mul a b) al)"
  using assms is_matrix_shape[OF assms(1)] is_matrix_shape[OF assms(2)]
  by (simp add: GemmOp_RunImpl_def Dot_def Let_def mat_scale_1)

lemma GemmOp_trans_b:
  assumes "is_matrix a d r k" "is_matrix b d c k"
  shows "GemmOp_RunImpl L P al 0 False True a b x = Inr (mat_scale (mat_mul a (mat_T b)) al)"
  using assms is_matrix_shape[OF assms(1)] is_matrix_shape[OF assms(2)]
    is_matrix_shape[OF is_matrix_T[OF assms(2)]]
  by (simp add: GemmOp_RunImpl_def Dot_def Transpose_def Let_def mat_scale_1)

lemma GemmOp_trans_a:
  assumes "is_matrix a d k r" "is_matrix b d k c"
  shows "GemmOp_RunImpl L P al 0 True False a b x = Inr (mat_scale (mat_mul (mat_T a) b) al)"
  using assms is_matrix_shape[OF assms(1)] is_matrix_shape[OF assms(2)]
    is_matrix_shape[OF is_matrix_T[OF assms(1)]]
  by (simp add: GemmOp_RunImpl_def Dot_def Transpose_def Let_def mat_scale_1)

lemma GemmOp_trans_ab:
  assumes "is_matrix a d k r" "is_matrix b d c k"
  shows "GemmOp_RunImpl L P al 0 True True a b x
           = Inr (mat_scale (mat_mul (mat_T a) (mat_T b)) al)"
  using assms is_matrix_shape[OF assms(1)] is_matrix_shape[OF assms(2)]
    is_matrix_shape[OF is_matrix_T[OF assms(1)]] is_matrix_shape[OF is_matrix_T[OF assms(2)]]
  by (simp add: GemmOp_RunImpl_def Dot_def Transpose_def Let_def mat_scale_1)

lemma GemmOp_grad_a:
  assumes G: "is_matrix G d n m"
    and B: "is_matrix B d (if tb then m else k) (if tb then k else m)"
  shows "(if ta then GemmOp_RunImpl L P al 0 tb True B G x
          else GemmOp_RunImpl L P al 0 False (\<not> tb) G B x)
           = Inr (gemm_grad_a al ta tb G B)"
    and "is_matrix (gemm_grad_a al ta tb G B) d (if ta then k else n) (if ta then n else k)"
proof -
  let ?B = "if tb then mat_T B else B"
  have B': "is_matrix ?B d k m"
    using B is_matrix_T[of B d m k] by (simp split: if_splits)
  have BT: "mat_T (mat_T ?B) = ?B" by (rule mat_T_T[OF B'])
  have inner: "is_matrix (mat_mul G (mat_T ?B)) d n k"
    by (rule is_matrix_mul[OF G is_matrix_T[OF B']])
  have tr: "mat_T (mat_scale (mat_mul G (mat_T ?B)) al) = mat_scale (mat_mul ?B (mat_T G)) al"
    using mat_T_scale[OF inner, of al] mat_T_mul[OF G is_matrix_T[OF B']] BT by simp
  show "(if ta then GemmOp_RunImpl L P al 0 tb True B G x
          else GemmOp_RunImpl L P al 0 False (\<not> tb) G B x)
           = Inr (gemm_grad_a al ta tb G B)"
  proof (cases ta)
    case True
    have "GemmOp_RunImpl L P al 0 tb True B G x = Inr (mat_scale (mat_mul ?B (mat_T G)) al)"
      using B G by (cases tb) (simp_all add: GemmOp_trans_ab GemmOp_trans_b)
    with True tr show ?thesis by (simp add: gemm_grad_a_def)
  next
    case False
    have "GemmOp_RunImpl L P al 0 False (\<not> tb) G B x
        = Inr (mat_scale (mat_mul G (mat_T ?B)) al)"
      using B G mat_T_T[of B d m k] by (cases tb) (simp_all add: GemmOp_plain GemmOp_trans_b)
    with False show ?thesis by (simp add: gemm_grad_a_def)
  qed
  show "is_matrix (gemm_grad_a al ta tb G B) d (if ta then k else n) (if ta then n else k)"
    using is_matrix_scale[OF inner, of al] is_matrix_T[OF is_matrix_scale[OF inner, of al]]
    by (simp add: gemm_grad_a_def)
qed

lemma GemmOp_grad_b:
  assumes G: "is_matrix G d n m"
    and A: "is_matrix A d (if ta then k else n) (if ta then n else k)"
  shows "(if tb then GemmOp_RunImpl L P al 0 True ta G A x
          else GemmOp_RunImpl L P al 0 (\<not> ta) False A G x)
           = Inr (gemm_grad_b al ta tb A G)"
    and "is_matrix (gemm_grad_b al ta tb A G) d (if tb then m else k) (if tb then k else m)"
proof -
  let ?A = "if ta then mat_T A else A"
  have A': "is_matrix ?A d n k"
    using A is_matrix_T[of A d k n] by (simp split: if_splits)
  have AT: "mat_T (mat_T ?A) = ?A" by (rule mat_T_T[OF A'])
  have inner: "is_matrix (mat_mul (mat_T ?A) G) d k m"
    by (rule is_matrix_mul[OF is_matrix_T[OF A'] G])
  have tr: "mat_T (mat_scale (mat_mul (mat_T ?A) G) al) = mat_scale (mat_mul (mat_T G) ?A) al"
    using mat_T_scale[OF inner, of al] mat_T_mul[OF is_matrix_T[OF A'] G] AT by simp
  show "(if tb then GemmOp_RunImpl L P al 0 True ta G A x
          else GemmOp_RunImpl L P al 0 (\<not> ta) False A G x)
           = Inr (gemm_grad_b al ta tb A G)"
  proof (cases tb)
    case True
    have "GemmOp_RunImpl L P al 0 True ta G A x = Inr (mat_scale (mat_mul (mat_T G) ?A) al)"
      using A G by (cases ta) (simp_all add: GemmOp_trans_ab GemmOp_trans_a)
    with True tr show ?thesis by (simp add: gemm_grad_b_def)
  next
    case False
    have "GemmOp_RunImpl L P al 0 (\<not> ta) False A G x
        = Inr (mat_scale (mat_mul (mat_T ?A) G) al)"
      using A G mat_T_T[of A d k n] by (cases ta) (simp_all add: GemmOp_plain GemmOp_trans_a)
    with False show ?thesis by (simp add: gemm_grad_b_def)
  qed
  show "is_matrix (gemm_grad_b al ta tb A G) d (if tb then m else k) (if tb then k else m)"
    using is_matrix_scale[OF inner, of al] is_matrix_T[OF is_matrix_scale[OF inner, of al]]
    by (simp add: gemm_grad_b_def)
qed

subsection \<open>Contributions to a gradient\<close>

lemma update_fresh_extends:
  "extends a b \<Longrightarrow> length (node_heap a) \<le> p \<Longrightarrow>
     extends a (b\<lparr>node_heap := (node_heap b)[p := nd]\<rparr>)"
  by (simp add: extends_def)

text \<open>
  \<open>GradOp\<close>, followed by setters \<open>f\<close> on the node that it added, contributes what the node
  computes. The setters keep the operator, the inputs and the outputs of the node.
\<close>

lemma GradOp_contributes:
  assumes g: "grows st0 st"
    and ctx: "gc_node gc < length (node_heap st0)" "operand gc (X xi) st0 = Some xv"
      "xv < length (value_heap st0)"
    and ins: "None \<notin> set ins"
    and op: "op \<noteq> kOnikuxBackpropStackPop" "op \<noteq> kAdd"
    and f: "\<And>nd. op_type (f nd) = op_type nd \<and> inputs (f nd) = inputs nd
              \<and> outputs (f nd) = outputs nd"
  shows "\<exists>gv st' p. GradOp gc op xi ins st = Inr (gv, st')
     \<and> producer (the_value gv st') = Some p \<and> p < length (node_heap st')
     \<and> length (node_heap st) \<le> p
     \<and> the_node p st' = new_Node op (map the ins) [gv] (gc_name gc)
     \<and> extends st0 (st'\<lparr>node_heap := (node_heap st')[p := f (node_heap st' ! p)]\<rparr>)
     \<and> (\<forall>K add \<rho> rs c.
           (\<forall>nd r. op_type nd = kAdd \<longrightarrow> K nd [r, c] = add r c)
           \<longrightarrow> list_all2 (evals K st \<rho>) (map the ins) rs
           \<longrightarrow> (\<forall>v. K (f (new_Node op (map the ins) [v] (gc_name gc))) rs = Some c)
           \<longrightarrow> contributes add K \<rho> st0
                 (st'\<lparr>node_heap := (node_heap st')[p := f (node_heap st' ! p)]\<rparr>) xv (c::'a))"
proof -
  from g have e0: "extends st0 st" by (simp add: grows_def)
  have n: "gc_node gc < length (node_heap st)" and xa: "xv < length (value_heap st)"
    using grows_lengths[OF g] ctx by simp_all
  have o: "operand gc (X xi) st = Some xv"
    using operand_extends[OF ctx(1) e0, of "X xi"] ctx(2) by simp
  then have xi: "0 \<le> xi" "xi < int (length (gc_xs gc st))" "gc_xs gc st ! nat xi = xv"
    by (auto split: if_splits)
  from GradOp_step[OF n xi xa ins, of op] obtain gv st' p where
    G: "GradOp gc op xi ins st = Inr (gv, st')" and e: "extends st st'"
    and gv: "gv < length (value_heap st')"
    and frame: "\<forall>u < length (value_heap st). u \<noteq> xv
                 \<longrightarrow> grad (the_value u st') = grad (the_value u st)"
    and pr: "producer (the_value gv st') = Some p" "p < length (node_heap st')"
      "length (node_heap st) \<le> p"
      "the_node p st' = new_Node op (map the ins) [gv] (gc_name gc)"
    and fresh: "grad (the_value xv st) = None \<longrightarrow> grad (the_value xv st') = Some gv"
    and accum: "\<forall>og. grad (the_value xv st) = Some og \<longrightarrow>
                  (\<exists>s m. grad (the_value xv st') = Some s \<and> s < length (value_heap st')
                     \<and> producer (the_value s st') = Some m \<and> m < length (node_heap st')
                     \<and> op_type (the_node m st') = kAdd \<and> inputs (the_node m st') = [og, gv]
                     \<and> outputs (the_node m st') = [s])"
    by (elim exE conjE) (rule that)
  define st'' where "st'' = st'\<lparr>node_heap := (node_heap st')[p := f (node_heap st' ! p)]\<rparr>"
  have vh: "value_heap st'' = value_heap st'" by (simp add: st''_def)
  have np: "node_heap st'' ! p = f (new_Node op (map the ins) [gv] (gc_name gc))"
    using pr(2,4) by (simp add: st''_def the_node_def)
  have nm: "node_heap st'' ! m = node_heap st' ! m" if "m \<noteq> p" for m
    using that by (simp add: st''_def)
  have ln: "length (node_heap st'') = length (node_heap st')" by (simp add: st''_def)
  have e1: "extends st st''"
    unfolding st''_def by (rule update_fresh_extends[OF e pr(3)])
  have e2: "extends st0 st''" by (rule extends_trans[OF e0 e1])
  have fr: "\<forall>u < length (value_heap st0). u \<noteq> xv
       \<longrightarrow> grad (the_value u st'') = grad (the_value u st0)"
  proof (intro allI impI)
    fix u assume u: "u < length (value_heap st0)" "u \<noteq> xv"
    then have "u < length (value_heap st)" using grows_lengths[OF g] by simp
    with frame u(2) have "grad (the_value u st') = grad (the_value u st)" by simp
    then show "grad (the_value u st'') = grad (the_value u st0)"
      using grows_grad[OF g u(1)] by (simp add: the_value_def vh)
  qed
  have inc: "contributes add K \<rho> st0 st'' xv c"
    if addk: "\<forall>nd r. op_type nd = kAdd \<longrightarrow> K nd [r, c] = add r c"
      and rs: "list_all2 (evals K st \<rho>) (map the ins) rs"
      and k: "\<forall>v. K (f (new_Node op (map the ins) [v] (gc_name gc))) rs = Some c"
    for K :: "Node \<Rightarrow> 'a list \<Rightarrow> 'a option" and add \<rho> rs c
  proof -
    have evg: "evals K st'' \<rho> gv c"
    proof (rule evals.node[where n = p and rs = rs])
      show "list_all2 (evals K st'' \<rho>) (inputs (node_heap st'' ! p)) rs"
        using rs e1 f by (auto simp: np new_Node_def elim!: list_all2_mono intro: evals_extends)
      show "K (node_heap st'' ! p) rs = Some c" using k by (simp add: np)
    qed (use gv pr op f in \<open>simp_all add: vh ln np the_value_def new_Node_def\<close>)
    have "case grad (the_value xv st'') of
        None \<Rightarrow> False
      | Some s \<Rightarrow>
          (case grad (the_value xv st0) of
             None \<Rightarrow> evals K st'' \<rho> s c
           | Some og \<Rightarrow>
               (\<forall>r t. evals K st0 \<rho> og r \<longrightarrow> add r c = Some t \<longrightarrow> evals K st'' \<rho> s t))"
    proof (cases "grad (the_value xv st0)")
      case None
      then have "grad (the_value xv st) = None"
        using grows_grad[OF g ctx(3)] by simp
      with fresh None evg show ?thesis
        by (simp add: the_value_def vh)
    next
      case (Some og)
      then have "grad (the_value xv st) = Some og"
        using grows_grad[OF g ctx(3)] by simp
      with accum obtain s m where
        s: "grad (the_value xv st') = Some s" "s < length (value_heap st')"
          "producer (the_value s st') = Some m" "m < length (node_heap st')"
          "op_type (the_node m st') = kAdd" "inputs (the_node m st') = [og, gv]"
          "outputs (the_node m st') = [s]"
        by blast
      have mp: "m \<noteq> p"
        using s(5) pr(4) op(2) by (auto simp: new_Node_def)
      have "evals K st'' \<rho> s t"
        if r: "evals K st0 \<rho> og r" and t: "add r c = Some t" for r t
      proof (rule evals.node[where n = m and rs = "[r, c]"])
        show "list_all2 (evals K st'' \<rho>) (inputs (node_heap st'' ! m)) [r, c]"
          using s(6) evg evals_extends[OF r e2] by (simp add: the_node_def nm[OF mp])
        show "K (node_heap st'' ! m) [r, c] = Some t"
          using addk s(5) t by (simp add: the_node_def nm[OF mp])
      qed (use s in \<open>simp_all add: the_node_def the_value_def vh ln nm[OF mp]\<close>)
      with s(1) Some show ?thesis
        by (simp add: the_value_def vh)
    qed
    with e2 fr show ?thesis by (simp add: contributes_def)
  qed
  show ?thesis
    using G pr e2 inc unfolding st''_def by blast
qed

subsection \<open>The Gemm rule\<close>

lemma Op_struct:
  assumes "None \<notin> set ins"
  shows "\<exists>st' val nm. Op gb op ins st = Inr (length (value_heap st), st')
     \<and> value_heap st' = value_heap st @ [val]
     \<and> producer val = Some (length (node_heap st))
     \<and> node_heap st' = node_heap st @ [new_Node op (map the ins) [length (value_heap st)] nm]
     \<and> length (graph_heap st') = length (graph_heap st)"
  using assms by (simp add: store_defs) blast

lemma appended_node_evals:
  assumes vh: "value_heap st' = value_heap st @ [val]"
    and pr: "producer val = Some (length (node_heap st))"
    and nh: "node_heap st' = node_heap st @ [nd]"
    and gh: "length (graph_heap st') = length (graph_heap st)"
    and nd: "op_type nd \<noteq> kOnikuxBackpropStackPop" "outputs nd = [length (value_heap st)]"
    and rs: "list_all2 (evals K st \<rho>) (inputs nd) rs" and k: "K nd rs = Some r"
  shows "evals K st' \<rho> (length (value_heap st)) r"
proof (rule evals.node[where n = "length (node_heap st)" and rs = rs])
  note e = appended_extends[OF vh nh gh]
  show "list_all2 (evals K st' \<rho>) (inputs (node_heap st' ! length (node_heap st))) rs"
    using rs e(1) nh by (auto elim!: list_all2_mono intro: evals_extends)
qed (use vh pr nh nd k in \<open>simp_all add: nth_append\<close>)

lemma grows_node:
  "grows a b \<Longrightarrow> n < length (node_heap a) \<Longrightarrow> the_node n b = the_node n a"
  by (simp add: grows_def extends_def the_node_def)

lemma Reshape_to_own_shape:
  "is_matrix a d r c \<Longrightarrow> shape x = [r, c] \<Longrightarrow> ReshapeOp a (ShapeOp x) = Some a"
  by (simp add: ReshapeOp_def ShapeOp_def is_matrix_def Let_def)

lemma GemmGradFn_input0_contributes:
  assumes n: "gc_node gc < length (node_heap st)"
    and o0: "operand gc (X 0) st = Some xa" "xa < length (value_heap st)"
    and o1: "operand gc (X 1) st = Some xb" "xb < length (value_heap st)"
  shows "\<exists>st'. GemmGradFn_input0 gc (Some gv) st = Inr ((), st') \<and> extends st st'
     \<and> (\<forall>Linear Plus AddOp ext \<rho> A B G d n m k.
           evals (array_kernel Linear Plus AddOp ext) st \<rho> xa A
           \<longrightarrow> evals (array_kernel Linear Plus AddOp ext) st \<rho> xb B
           \<longrightarrow> evals (array_kernel Linear Plus AddOp ext) st \<rho> gv G
           \<longrightarrow> is_matrix G d n m
           \<longrightarrow> is_matrix A d (if trans_a (the_node (gc_node gc) st) then k else n)
                 (if trans_a (the_node (gc_node gc) st) then n else k)
           \<longrightarrow> is_matrix B d (if trans_b (the_node (gc_node gc) st) then m else k)
                 (if trans_b (the_node (gc_node gc) st) then k else m)
           \<longrightarrow> contributes AddOp (array_kernel Linear Plus AddOp ext) \<rho> st st' xa
                 (gemm_grad_a (alpha (the_node (gc_node gc) st))
                    (trans_a (the_node (gc_node gc) st)) (trans_b (the_node (gc_node gc) st))
                    G B))"
proof -
  let ?node = "the_node (gc_node gc) st"
  define ta tb al where "ta = trans_a ?node" and "tb = trans_b ?node" and "al = alpha ?node"
  note g0 = grows_refl[of st]
  from access_from[OF g0 n o0] obtain t0 s1 where
    B1: "access gc (X 0) st = Inr (t0, s1)" and g1: "grows st s1"
    by (elim exE conjE) (rule that)
  from access_from[OF g1 n o1] obtain x1 s2 where
    A1: "access gc (X 1) s1 = Inr (x1, s2)" and g2: "grows st s2" and e12: "extends s1 s2"
    and ev1: "\<forall>K \<rho> r. evals K st \<rho> xb r \<longrightarrow> evals K s2 \<rho> x1 (r::real Array)"
    by (elim exE conjE) (rule that)
  from access_from[OF g2 n o0] obtain x0 s3 where
    A0: "access gc (X 0) s2 = Inr (x0, s3)" and g3: "grows st s3" and e23: "extends s2 s3"
    and ev0: "\<forall>K \<rho> r. evals K st \<rho> xa r \<longrightarrow> evals K s3 \<rho> x0 (r::real Array)"
    by (elim exE conjE) (rule that)
  define gb where "gb = \<lparr>gb_graph = gc_graph gc, gb_category = gc_name gc, gb_target = t0\<rparr>"
  define ins where "ins = (if ta then [Some x1, Some gv, Some x0] else [Some gv, Some x1, Some x0])"
  have i: "None \<notin> set ins" by (simp add: ins_def)
  from Op_struct[OF i, of gb kGemm s3] obtain s4 val nm where
    O: "Op gb kGemm ins s3 = Inr (length (value_heap s3), s4)"
    and vh: "value_heap s4 = value_heap s3 @ [val]"
    and pr: "producer val = Some (length (node_heap s3))"
    and nh: "node_heap s4
        = node_heap s3 @ [new_Node kGemm (map the ins) [length (value_heap s3)] nm]"
    and gh: "length (graph_heap s4) = length (graph_heap s3)"
    by (elim exE conjE) (rule that)
  define ndf where "ndf = (new_Node kGemm (map the ins) [length (value_heap s3)] nm)
      \<lparr>alpha := al, beta := 0, trans_a := (if ta then tb else False),
       trans_b := (if ta then True else \<not> tb)\<rparr>"
  define s5 where "s5 = s4\<lparr>node_heap := node_heap s3 @ [ndf]\<rparr>"
  have vh5: "value_heap s5 = value_heap s3 @ [val]"
    and nh5: "node_heap s5 = node_heap s3 @ [ndf]"
    and gh5: "length (graph_heap s5) = length (graph_heap s3)"
    using vh gh by (simp_all add: s5_def)
  note e35 = appended_extends[OF vh5 nh5 gh5]
  have g5: "grows st s5"
    by (rule grows_trans[OF g3]) (simp add: grows_def e35)
  from access_from[OF g5 n o0] obtain x0' s6 where
    A0': "access gc (X 0) s5 = Inr (x0', s6)" and g6: "grows st s6" and e56: "extends s5 s6"
    and ev0': "\<forall>K \<rho> r. evals K st \<rho> xa r \<longrightarrow> evals K s6 \<rho> x0' (r::real Array)"
    by (elim exE conjE) (rule that)
  have i1: "None \<notin> set [Some x0']" by simp
  from Op_from[OF g6 i1, of gb kShape] obtain sh s7 nm1 where
    O1: "Op gb kShape [Some x0'] s6 = Inr (sh, s7)" and g7: "grows st s7"
    and e67: "extends s6 s7"
    and evs: "\<forall>K \<rho> rs r. kShape \<noteq> kOnikuxBackpropStackPop
           \<longrightarrow> list_all2 (evals K s6 \<rho>) (map the [Some x0']) rs
           \<longrightarrow> K (new_Node kShape (map the [Some x0']) [sh] nm1) rs = Some r
           \<longrightarrow> evals K s7 \<rho> sh (r::real Array)"
    by (elim exE conjE) (rule that)
  have i2: "None \<notin> set [Some (length (value_heap s3)), Some sh]"
    and o2: "kReshape \<noteq> kOnikuxBackpropStackPop" "kReshape \<noteq> kAdd"
    by simp_all
  have f2: "op_type nd = op_type nd \<and> inputs nd = inputs nd \<and> outputs nd = outputs nd"
    for nd :: Node by simp
  from GradOp_contributes[OF g7 n o0 i2 o2, of "\<lambda>nd. nd", OF f2] obtain gx st' p where
    G: "GradOp gc kReshape 0 [Some (length (value_heap s3)), Some sh] s7 = Inr (gx, st')"
    and e': "extends st (st'\<lparr>node_heap := (node_heap st')[p := node_heap st' ! p]\<rparr>)"
    and con: "\<forall>K add \<rho> rs c.
           (\<forall>nd r. op_type nd = kAdd \<longrightarrow> K nd [r, c] = add r c)
           \<longrightarrow> list_all2 (evals K s7 \<rho>) (map the [Some (length (value_heap s3)), Some sh]) rs
           \<longrightarrow> (\<forall>v. K (new_Node kReshape (map the [Some (length (value_heap s3)), Some sh]) [v]
                        (gc_name gc)) rs = Some c)
           \<longrightarrow> contributes add K \<rho> st
                 (st'\<lparr>node_heap := (node_heap st')[p := node_heap st' ! p]\<rparr>) xa
                 (c::real Array)"
    by (elim exE conjE) (rule that)
  have same: "st'\<lparr>node_heap := (node_heap st')[p := node_heap st' ! p]\<rparr> = st'" by simp
  have nd1: "the_node (gc_node gc) s1 = ?node" by (rule grows_node[OF g1 n])
  have n3: "gc_node gc < length (node_heap s3)" using grows_lengths[OF g3] n by simp
  have nd3: "node_heap s3 ! gc_node gc = ?node"
    using grows_node[OF g3 n] by (simp add: the_node_def)
  have run: "GemmGradFn_input0 gc (Some gv) st = Inr ((), st')"
  proof (cases ta)
    case True
    then have "trans_a (node_heap st ! gc_node gc)" by (simp add: ta_def the_node_def)
    then show ?thesis
      using B1 A1 A0 O A0' O1 G nd1 n3 nd3 vh pr nh
      by (simp add: GemmGradFn_input0_def builder_def bindM_def getM_def returnM_def
          producer_of_def update_node_def the_value_def the_node_def nth_append
          gb_def[symmetric] ins_def s5_def ndf_def ta_def tb_def al_def)
  next
    case False
    then have "\<not> trans_a (node_heap st ! gc_node gc)" by (simp add: ta_def the_node_def)
    then show ?thesis
      using B1 A1 A0 O A0' O1 G nd1 n3 nd3 vh pr nh
      by (simp add: GemmGradFn_input0_def builder_def bindM_def getM_def returnM_def
          producer_of_def update_node_def the_value_def the_node_def nth_append
          gb_def[symmetric] ins_def s5_def ndf_def ta_def tb_def al_def)
  qed
  have dA: "contributes AddOp (array_kernel Linear Plus AddOp ext) \<rho> st st' xa
      (gemm_grad_a al ta tb G B)"
    if A: "evals (array_kernel Linear Plus AddOp ext) st \<rho> xa A"
      and B: "evals (array_kernel Linear Plus AddOp ext) st \<rho> xb B"
      and G': "evals (array_kernel Linear Plus AddOp ext) st \<rho> gv G"
      and mG: "is_matrix G d n m"
      and mA: "is_matrix A d (if ta then k else n) (if ta then n else k)"
      and mB: "is_matrix B d (if tb then m else k) (if tb then k else m)"
    for Linear Plus AddOp ext \<rho> A B G d n m k
  proof -
    let ?K = "array_kernel Linear Plus AddOp ext"
    let ?dA = "gemm_grad_a al ta tb G B"
    note cf = GemmOp_grad_a(1)[OF mG mB, where ta = ta and L = Linear and P = Plus
        and al = al and x = A]
      GemmOp_grad_a(2)[OF mG mB, where ta = ta and al = al]
    have x1: "evals ?K s3 \<rho> x1 B"
      using ev1 B by (intro evals_extends[OF _ e23]) blast
    have x0: "evals ?K s3 \<rho> x0 A" using ev0 A by blast
    have gv3: "evals ?K s3 \<rho> gv G" by (rule grows_evals[OF g3 G'])
    have "evals ?K s5 \<rho> (length (value_heap s3)) ?dA"
    proof (rule appended_node_evals[OF vh5 pr nh5 gh5,
          where rs = "if ta then [B, G, A] else [G, B, A]"])
      show "list_all2 (evals ?K s3 \<rho>) (inputs ndf) (if ta then [B, G, A] else [G, B, A])"
        using x1 x0 gv3 by (simp add: ndf_def ins_def new_Node_def)
      show "?K ndf (if ta then [B, G, A] else [G, B, A]) = Some ?dA"
        using cf(1) by (cases ta) (simp_all add: array_kernel_def ndf_def new_Node_def)
    qed (simp_all add: ndf_def new_Node_def)
    then have gx7: "evals ?K s7 \<rho> (length (value_heap s3)) ?dA"
      by (intro evals_extends[OF _ e67] evals_extends[OF _ e56])
    have "evals ?K s6 \<rho> x0' A" using ev0' A by blast
    then have sh7: "evals ?K s7 \<rho> sh (ShapeOp A)"
      using evs[rule_format, of ?K \<rho> "[A]" "ShapeOp A"]
      by (simp add: array_kernel_def new_Node_def)
    have "ReshapeOp ?dA (ShapeOp A) = Some ?dA"
      using cf(2) mA by (intro Reshape_to_own_shape) (simp_all add: is_matrix_def)
    then show ?thesis
      using con[rule_format, of ?K ?dA AddOp \<rho> "[?dA, ShapeOp A]"] gx7 sh7
      by (simp add: array_kernel_def new_Node_def)
  qed
  show ?thesis
    using run e' dA unfolding ta_def tb_def al_def by simp
qed

lemma GemmGradFn_input1_contributes:
  assumes n: "gc_node gc < length (node_heap st)"
    and o0: "operand gc (X 0) st = Some xa" "xa < length (value_heap st)"
    and o1: "operand gc (X 1) st = Some xb" "xb < length (value_heap st)"
  shows "\<exists>st'. GemmGradFn_input1 gc (Some gv) st = Inr ((), st') \<and> extends st st'
     \<and> (\<forall>Linear Plus AddOp ext \<rho> A B G d n m k.
           evals (array_kernel Linear Plus AddOp ext) st \<rho> xa A
           \<longrightarrow> evals (array_kernel Linear Plus AddOp ext) st \<rho> xb B
           \<longrightarrow> evals (array_kernel Linear Plus AddOp ext) st \<rho> gv G
           \<longrightarrow> is_matrix G d n m
           \<longrightarrow> is_matrix A d (if trans_a (the_node (gc_node gc) st) then k else n)
                 (if trans_a (the_node (gc_node gc) st) then n else k)
           \<longrightarrow> is_matrix B d (if trans_b (the_node (gc_node gc) st) then m else k)
                 (if trans_b (the_node (gc_node gc) st) then k else m)
           \<longrightarrow> contributes AddOp (array_kernel Linear Plus AddOp ext) \<rho> st st' xb
                 (gemm_grad_b (alpha (the_node (gc_node gc) st))
                    (trans_a (the_node (gc_node gc) st)) (trans_b (the_node (gc_node gc) st))
                    A G))"
proof -
  let ?node = "the_node (gc_node gc) st"
  define ta tb al where "ta = trans_a ?node" and "tb = trans_b ?node" and "al = alpha ?node"
  note g0 = grows_refl[of st]
  from access_from[OF g0 n o1] obtain t1 s1 where
    B1: "access gc (X 1) st = Inr (t1, s1)" and g1: "grows st s1"
    by (elim exE conjE) (rule that)
  from access_from[OF g1 n o0] obtain x0 s2 where
    A0: "access gc (X 0) s1 = Inr (x0, s2)" and g2: "grows st s2" and e12: "extends s1 s2"
    and ev0: "\<forall>K \<rho> r. evals K st \<rho> xa r \<longrightarrow> evals K s2 \<rho> x0 (r::real Array)"
    by (elim exE conjE) (rule that)
  from access_from[OF g2 n o1] obtain x1 s3 where
    A1: "access gc (X 1) s2 = Inr (x1, s3)" and g3: "grows st s3" and e23: "extends s2 s3"
    and ev1: "\<forall>K \<rho> r. evals K st \<rho> xb r \<longrightarrow> evals K s3 \<rho> x1 (r::real Array)"
    by (elim exE conjE) (rule that)
  define gb where "gb = \<lparr>gb_graph = gc_graph gc, gb_category = gc_name gc, gb_target = t1\<rparr>"
  define ins where "ins = (if tb then [Some gv, Some x0, Some x1] else [Some x0, Some gv, Some x1])"
  have i: "None \<notin> set ins" by (simp add: ins_def)
  from Op_struct[OF i, of gb kGemm s3] obtain s4 val nm where
    O: "Op gb kGemm ins s3 = Inr (length (value_heap s3), s4)"
    and vh: "value_heap s4 = value_heap s3 @ [val]"
    and pr: "producer val = Some (length (node_heap s3))"
    and nh: "node_heap s4
        = node_heap s3 @ [new_Node kGemm (map the ins) [length (value_heap s3)] nm]"
    and gh: "length (graph_heap s4) = length (graph_heap s3)"
    by (elim exE conjE) (rule that)
  define ndf where "ndf = (new_Node kGemm (map the ins) [length (value_heap s3)] nm)
      \<lparr>alpha := al, beta := 0, trans_a := (if tb then True else \<not> ta),
       trans_b := (if tb then ta else False)\<rparr>"
  define s5 where "s5 = s4\<lparr>node_heap := node_heap s3 @ [ndf]\<rparr>"
  have vh5: "value_heap s5 = value_heap s3 @ [val]"
    and nh5: "node_heap s5 = node_heap s3 @ [ndf]"
    and gh5: "length (graph_heap s5) = length (graph_heap s3)"
    using vh gh by (simp_all add: s5_def)
  note e35 = appended_extends[OF vh5 nh5 gh5]
  have g5: "grows st s5"
    by (rule grows_trans[OF g3]) (simp add: grows_def e35)
  from access_from[OF g5 n o1] obtain x1' s6 where
    A1': "access gc (X 1) s5 = Inr (x1', s6)" and g6: "grows st s6" and e56: "extends s5 s6"
    and ev1': "\<forall>K \<rho> r. evals K st \<rho> xb r \<longrightarrow> evals K s6 \<rho> x1' (r::real Array)"
    by (elim exE conjE) (rule that)
  have i1: "None \<notin> set [Some x1']" by simp
  from Op_from[OF g6 i1, of gb kShape] obtain sh s7 nm1 where
    O1: "Op gb kShape [Some x1'] s6 = Inr (sh, s7)" and g7: "grows st s7"
    and e67: "extends s6 s7"
    and evs: "\<forall>K \<rho> rs r. kShape \<noteq> kOnikuxBackpropStackPop
           \<longrightarrow> list_all2 (evals K s6 \<rho>) (map the [Some x1']) rs
           \<longrightarrow> K (new_Node kShape (map the [Some x1']) [sh] nm1) rs = Some r
           \<longrightarrow> evals K s7 \<rho> sh (r::real Array)"
    by (elim exE conjE) (rule that)
  have i2: "None \<notin> set [Some (length (value_heap s3)), Some sh]"
    and o2: "kReshape \<noteq> kOnikuxBackpropStackPop" "kReshape \<noteq> kAdd"
    by simp_all
  have f2: "op_type nd = op_type nd \<and> inputs nd = inputs nd \<and> outputs nd = outputs nd"
    for nd :: Node by simp
  from GradOp_contributes[OF g7 n o1 i2 o2, of "\<lambda>nd. nd", OF f2] obtain gx st' p where
    G: "GradOp gc kReshape 1 [Some (length (value_heap s3)), Some sh] s7 = Inr (gx, st')"
    and e': "extends st (st'\<lparr>node_heap := (node_heap st')[p := node_heap st' ! p]\<rparr>)"
    and con: "\<forall>K add \<rho> rs c.
           (\<forall>nd r. op_type nd = kAdd \<longrightarrow> K nd [r, c] = add r c)
           \<longrightarrow> list_all2 (evals K s7 \<rho>) (map the [Some (length (value_heap s3)), Some sh]) rs
           \<longrightarrow> (\<forall>v. K (new_Node kReshape (map the [Some (length (value_heap s3)), Some sh]) [v]
                        (gc_name gc)) rs = Some c)
           \<longrightarrow> contributes add K \<rho> st
                 (st'\<lparr>node_heap := (node_heap st')[p := node_heap st' ! p]\<rparr>) xb
                 (c::real Array)"
    by (elim exE conjE) (rule that)
  have nd1: "the_node (gc_node gc) s1 = ?node" by (rule grows_node[OF g1 n])
  have n3: "gc_node gc < length (node_heap s3)" using grows_lengths[OF g3] n by simp
  have nd3: "node_heap s3 ! gc_node gc = ?node"
    using grows_node[OF g3 n] by (simp add: the_node_def)
  have run: "GemmGradFn_input1 gc (Some gv) st = Inr ((), st')"
  proof (cases tb)
    case True
    then have "trans_b (node_heap st ! gc_node gc)" by (simp add: tb_def the_node_def)
    then show ?thesis
      using B1 A1 A0 O A1' O1 G nd1 n3 nd3 vh pr nh
      by (simp add: GemmGradFn_input1_def builder_def bindM_def getM_def returnM_def
          producer_of_def update_node_def the_value_def the_node_def nth_append
          gb_def[symmetric] ins_def s5_def ndf_def ta_def tb_def al_def)
  next
    case False
    then have "\<not> trans_b (node_heap st ! gc_node gc)" by (simp add: tb_def the_node_def)
    then show ?thesis
      using B1 A1 A0 O A1' O1 G nd1 n3 nd3 vh pr nh
      by (simp add: GemmGradFn_input1_def builder_def bindM_def getM_def returnM_def
          producer_of_def update_node_def the_value_def the_node_def nth_append
          gb_def[symmetric] ins_def s5_def ndf_def ta_def tb_def al_def)
  qed
  have dB: "contributes AddOp (array_kernel Linear Plus AddOp ext) \<rho> st st' xb
      (gemm_grad_b al ta tb A G)"
    if A: "evals (array_kernel Linear Plus AddOp ext) st \<rho> xa A"
      and B: "evals (array_kernel Linear Plus AddOp ext) st \<rho> xb B"
      and G': "evals (array_kernel Linear Plus AddOp ext) st \<rho> gv G"
      and mG: "is_matrix G d n m"
      and mA: "is_matrix A d (if ta then k else n) (if ta then n else k)"
      and mB: "is_matrix B d (if tb then m else k) (if tb then k else m)"
    for Linear Plus AddOp ext \<rho> A B G d n m k
  proof -
    let ?K = "array_kernel Linear Plus AddOp ext"
    let ?dB = "gemm_grad_b al ta tb A G"
    note cf = GemmOp_grad_b(1)[OF mG mA, where tb = tb and L = Linear and P = Plus
        and al = al and x = B]
      GemmOp_grad_b(2)[OF mG mA, where tb = tb and al = al]
    have x0: "evals ?K s3 \<rho> x0 A"
      using ev0 A by (intro evals_extends[OF _ e23]) blast
    have x1: "evals ?K s3 \<rho> x1 B" using ev1 B by blast
    have gv3: "evals ?K s3 \<rho> gv G" by (rule grows_evals[OF g3 G'])
    have "evals ?K s5 \<rho> (length (value_heap s3)) ?dB"
    proof (rule appended_node_evals[OF vh5 pr nh5 gh5,
          where rs = "if tb then [G, A, B] else [A, G, B]"])
      show "list_all2 (evals ?K s3 \<rho>) (inputs ndf) (if tb then [G, A, B] else [A, G, B])"
        using x1 x0 gv3 by (simp add: ndf_def ins_def new_Node_def)
      show "?K ndf (if tb then [G, A, B] else [A, G, B]) = Some ?dB"
        using cf(1) by (cases tb) (simp_all add: array_kernel_def ndf_def new_Node_def)
    qed (simp_all add: ndf_def new_Node_def)
    then have gx7: "evals ?K s7 \<rho> (length (value_heap s3)) ?dB"
      by (intro evals_extends[OF _ e67] evals_extends[OF _ e56])
    have "evals ?K s6 \<rho> x1' B" using ev1' B by blast
    then have sh7: "evals ?K s7 \<rho> sh (ShapeOp B)"
      using evs[rule_format, of ?K \<rho> "[B]" "ShapeOp B"]
      by (simp add: array_kernel_def new_Node_def)
    have "ReshapeOp ?dB (ShapeOp B) = Some ?dB"
      using cf(2) mB by (intro Reshape_to_own_shape) (simp_all add: is_matrix_def)
    then show ?thesis
      using con[rule_format, of ?K ?dB AddOp \<rho> "[?dB, ShapeOp B]"] gx7 sh7
      by (simp add: array_kernel_def new_Node_def)
  qed
  show ?thesis
    using run e' dB unfolding ta_def tb_def al_def by simp
qed

lemma extends_node:
  "extends a b \<Longrightarrow> n < length (node_heap a) \<Longrightarrow> the_node n b = the_node n a"
  by (simp add: extends_def the_node_def)

lemma extends_lengths:
  "extends a b \<Longrightarrow> length (value_heap a) \<le> length (value_heap b)
     \<and> length (node_heap a) \<le> length (node_heap b)"
  by (simp add: extends_def)

text \<open>
  Claim C4. Let the node of the context have the inputs \<open>xa\<close>, \<open>xb\<close> and \<open>xc\<close>, and let its
  output 0 have the gradient \<open>g\<close>. The rule succeeds, and it makes three contributions in a
  row, one by each block of its body: to the gradient of \<open>xa\<close>, then of \<open>xb\<close>, then of \<open>xc\<close>.
  The nodes it adds are evaluated by \<open>GemmOp::RunImpl\<close>. Whenever \<open>g\<close> evaluates to an
  \<open>n\<close> by \<open>m\<close> matrix \<open>G\<close>, and \<open>xa\<close> and \<open>xb\<close> to matrices \<open>A\<close> and \<open>B\<close> of the dimensions
  that the transpose flags of the node ask for, the contributions are the closed forms:
  \<open>alpha \<cdot> G \<cdot> B'\<^sup>T\<close> for \<open>A'\<close> and \<open>alpha \<cdot> A'\<^sup>T \<cdot> G\<close> for \<open>B'\<close>, where \<open>A'\<close> and \<open>B'\<close> are
  the operands as the flags transpose them, each transposed back when its flag is set; and
  the sum of the rows of \<open>G\<close> for the bias, computed by a reduce-sum node over \<open>g\<close> with
  axes \<open>[0]\<close> and without kept dimensions. \<open>beta\<close> plays no part.
\<close>

theorem GemmGradFn_closed_forms:
  assumes n: "gc_node gc < length (node_heap st)"
    and xs: "gc_xs gc st = [xa, xb, xc]"
    and al: "xa < length (value_heap st)" "xb < length (value_heap st)"
      "xc < length (value_heap st)"
    and oy: "operand gc (Y 0) st = Some yv"
    and gy: "grad (the_value yv st) = Some g"
  shows "\<exists>st1 st2 st3 p.
       GemmGradFn_input0 gc (Some g) st = Inr ((), st1)
     \<and> GemmGradFn_input1 gc (Some g) st1 = Inr ((), st2)
     \<and> GemmGradFn gc st = Inr ((), st3)
     \<and> length (node_heap st2) \<le> p \<and> p < length (node_heap st3)
     \<and> op_type (the_node p st3) = kReduceSum \<and> inputs (the_node p st3) = [g]
     \<and> axes (the_node p st3) = [0] \<and> \<not> keepdims (the_node p st3)
     \<and> (\<forall>Linear Plus AddOp ext \<rho> A B G d n m k.
           evals (array_kernel Linear Plus AddOp ext) st \<rho> xa A
           \<longrightarrow> evals (array_kernel Linear Plus AddOp ext) st \<rho> xb B
           \<longrightarrow> evals (array_kernel Linear Plus AddOp ext) st \<rho> g G
           \<longrightarrow> is_matrix G d n m
           \<longrightarrow> is_matrix A d (if trans_a (the_node (gc_node gc) st) then k else n)
                 (if trans_a (the_node (gc_node gc) st) then n else k)
           \<longrightarrow> is_matrix B d (if trans_b (the_node (gc_node gc) st) then m else k)
                 (if trans_b (the_node (gc_node gc) st) then k else m)
           \<longrightarrow> contributes AddOp (array_kernel Linear Plus AddOp ext) \<rho> st st1 xa
                 (gemm_grad_a (alpha (the_node (gc_node gc) st))
                    (trans_a (the_node (gc_node gc) st)) (trans_b (the_node (gc_node gc) st))
                    G B)
             \<and> contributes AddOp (array_kernel Linear Plus AddOp ext) \<rho> st1 st2 xb
                 (gemm_grad_b (alpha (the_node (gc_node gc) st))
                    (trans_a (the_node (gc_node gc) st)) (trans_b (the_node (gc_node gc) st))
                    A G)
             \<and> contributes AddOp (array_kernel Linear Plus AddOp ext) \<rho> st2 st3 xc
                 (sum_rows G))"
proof -
  let ?node = "the_node (gc_node gc) st"
  have o0: "operand gc (X 0) st = Some xa" and o1: "operand gc (X 1) st = Some xb"
    and o2: "operand gc (X 2) st = Some xc"
    using xs by simp_all
  from GemmGradFn_input0_contributes[OF n o0 al(1) o1 al(2), of g] obtain st1 where
    R1: "GemmGradFn_input0 gc (Some g) st = Inr ((), st1)" and e1: "extends st st1"
    and c1: "\<forall>Linear Plus AddOp ext \<rho> A B G d n m k.
           evals (array_kernel Linear Plus AddOp ext) st \<rho> xa A
           \<longrightarrow> evals (array_kernel Linear Plus AddOp ext) st \<rho> xb B
           \<longrightarrow> evals (array_kernel Linear Plus AddOp ext) st \<rho> g G
           \<longrightarrow> is_matrix G d n m
           \<longrightarrow> is_matrix A d (if trans_a ?node then k else n) (if trans_a ?node then n else k)
           \<longrightarrow> is_matrix B d (if trans_b ?node then m else k) (if trans_b ?node then k else m)
           \<longrightarrow> contributes AddOp (array_kernel Linear Plus AddOp ext) \<rho> st st1 xa
                 (gemm_grad_a (alpha ?node) (trans_a ?node) (trans_b ?node) G B)"
    by (elim exE conjE) (rule that)
  have n1: "gc_node gc < length (node_heap st1)"
    and al1: "xa < length (value_heap st1)" "xb < length (value_heap st1)"
      "xc < length (value_heap st1)"
    using extends_lengths[OF e1] n al by simp_all
  have o01: "operand gc (X 0) st1 = Some xa" and o11: "operand gc (X 1) st1 = Some xb"
    and o21: "operand gc (X 2) st1 = Some xc"
    by (rule trans[OF operand_extends[OF n e1] o0], rule trans[OF operand_extends[OF n e1] o1],
        rule trans[OF operand_extends[OF n e1] o2])
  have nd1: "the_node (gc_node gc) st1 = ?node" by (rule extends_node[OF e1 n])
  from GemmGradFn_input1_contributes[OF n1 o01 al1(1) o11 al1(2), of g] obtain st2 where
    R2: "GemmGradFn_input1 gc (Some g) st1 = Inr ((), st2)" and e2: "extends st1 st2"
    and c2: "\<forall>Linear Plus AddOp ext \<rho> A B G d n m k.
           evals (array_kernel Linear Plus AddOp ext) st1 \<rho> xa A
           \<longrightarrow> evals (array_kernel Linear Plus AddOp ext) st1 \<rho> xb B
           \<longrightarrow> evals (array_kernel Linear Plus AddOp ext) st1 \<rho> g G
           \<longrightarrow> is_matrix G d n m
           \<longrightarrow> is_matrix A d (if trans_a ?node then k else n) (if trans_a ?node then n else k)
           \<longrightarrow> is_matrix B d (if trans_b ?node then m else k) (if trans_b ?node then k else m)
           \<longrightarrow> contributes AddOp (array_kernel Linear Plus AddOp ext) \<rho> st1 st2 xb
                 (gemm_grad_b (alpha ?node) (trans_a ?node) (trans_b ?node) A G)"
    unfolding nd1 by (elim exE conjE) (rule that)
  have e02: "extends st st2" by (rule extends_trans[OF e1 e2])
  have n2: "gc_node gc < length (node_heap st2)" and al2: "xc < length (value_heap st2)"
    using extends_lengths[OF e02] n al by simp_all
  have o22: "operand gc (X 2) st2 = Some xc"
    by (rule trans[OF operand_extends[OF n e02] o2])
  define f where "f = (\<lambda>nd::Node. nd\<lparr>axes := [0], keepdims := False\<rparr>)"
  have i3: "None \<notin> set [Some g]"
    and op3: "kReduceSum \<noteq> kOnikuxBackpropStackPop" "kReduceSum \<noteq> kAdd"
    by simp_all
  have f3: "op_type (f nd) = op_type nd \<and> inputs (f nd) = inputs nd \<and> outputs (f nd) = outputs nd"
    for nd by (simp add: f_def)
  from GradOp_contributes[OF grows_refl n2 o22 al2 i3 op3, of f, OF f3] obtain gx s3 p where
    G: "GradOp gc kReduceSum 2 [Some g] st2 = Inr (gx, s3)"
    and pr: "producer (the_value gx s3) = Some p" "p < length (node_heap s3)"
      "length (node_heap st2) \<le> p"
      "the_node p s3 = new_Node kReduceSum (map the [Some g]) [gx] (gc_name gc)"
    and c3: "\<forall>K add \<rho> rs c.
           (\<forall>nd r. op_type nd = kAdd \<longrightarrow> K nd [r, c] = add r c)
           \<longrightarrow> list_all2 (evals K st2 \<rho>) (map the [Some g]) rs
           \<longrightarrow> (\<forall>v. K (f (new_Node kReduceSum (map the [Some g]) [v] (gc_name gc))) rs = Some c)
           \<longrightarrow> contributes add K \<rho> st2
                 (s3\<lparr>node_heap := (node_heap s3)[p := f (node_heap s3 ! p)]\<rparr>) xc
                 (c::real Array)"
    by (elim exE conjE) (rule that)
  define st3 where "st3 = s3\<lparr>node_heap := (node_heap s3)[p := f (node_heap s3 ! p)]\<rparr>"
  have GY: "gc_gy gc 0 st = Inr (Some g, st)"
    using gc_gy_eq[OF oy] gy by simp
  have R3: "GemmGradFn gc st = Inr ((), st3)"
    using GY R1 R2 G pr(1,2)
    by (simp add: GemmGradFn_def bindM_def producer_of_def update_node_def st3_def f_def)
  have node: "the_node p st3 = f (new_Node kReduceSum [g] [gx] (gc_name gc))"
    using pr(2,4) by (simp add: st3_def the_node_def)
  have all: "contributes AddOp (array_kernel Linear Plus AddOp ext) \<rho> st st1 xa
                 (gemm_grad_a (alpha ?node) (trans_a ?node) (trans_b ?node) G B)
             \<and> contributes AddOp (array_kernel Linear Plus AddOp ext) \<rho> st1 st2 xb
                 (gemm_grad_b (alpha ?node) (trans_a ?node) (trans_b ?node) A G)
             \<and> contributes AddOp (array_kernel Linear Plus AddOp ext) \<rho> st2 st3 xc
                 (sum_rows G)"
    if A: "evals (array_kernel Linear Plus AddOp ext) st \<rho> xa A"
      and B: "evals (array_kernel Linear Plus AddOp ext) st \<rho> xb B"
      and G': "evals (array_kernel Linear Plus AddOp ext) st \<rho> g G"
      and mG: "is_matrix G d n m"
      and mA: "is_matrix A d (if trans_a ?node then k else n) (if trans_a ?node then n else k)"
      and mB: "is_matrix B d (if trans_b ?node then m else k) (if trans_b ?node then k else m)"
    for Linear Plus AddOp ext \<rho> A B G d n m k
  proof (intro conjI)
    let ?K = "array_kernel Linear Plus AddOp ext"
    show "contributes AddOp ?K \<rho> st st1 xa
        (gemm_grad_a (alpha ?node) (trans_a ?node) (trans_b ?node) G B)"
      using c1 A B G' mG mA mB by blast
    show "contributes AddOp ?K \<rho> st1 st2 xb
        (gemm_grad_b (alpha ?node) (trans_a ?node) (trans_b ?node) A G)"
      using c2 evals_extends[OF A e1] evals_extends[OF B e1] evals_extends[OF G' e1] mG mA mB
      by blast
    have "evals ?K st2 \<rho> g G" by (rule evals_extends[OF G' e02])
    then show "contributes AddOp ?K \<rho> st2 st3 xc (sum_rows G)"
      using c3[rule_format, of ?K "sum_rows G" AddOp \<rho> "[G]"]
      by (simp add: st3_def array_kernel_def f_def new_Node_def)
  qed
  show ?thesis
  proof (rule exI[of _ st1], rule exI[of _ st2], rule exI[of _ st3], rule exI[of _ p],
      intro conjI allI impI)
    show "GemmGradFn_input0 gc (Some g) st = Inr ((), st1)" by (rule R1)
    show "GemmGradFn_input1 gc (Some g) st1 = Inr ((), st2)" by (rule R2)
    show "GemmGradFn gc st = Inr ((), st3)" by (rule R3)
    show "length (node_heap st2) \<le> p" by (rule pr(3))
    show "p < length (node_heap st3)" using pr(2) by (simp add: st3_def)
    show "op_type (the_node p st3) = kReduceSum" "inputs (the_node p st3) = [g]"
      "axes (the_node p st3) = [0]" "\<not> keepdims (the_node p st3)"
      by (simp_all add: node f_def new_Node_def)
  next
    fix Linear Plus AddOp ext \<rho> A B G d n m k
    let ?K = "array_kernel Linear Plus AddOp ext"
    assume h: "evals ?K st \<rho> xa A" "evals ?K st \<rho> xb B" "evals ?K st \<rho> g G"
      "is_matrix G d n m"
      "is_matrix A d (if trans_a ?node then k else n) (if trans_a ?node then n else k)"
      "is_matrix B d (if trans_b ?node then m else k) (if trans_b ?node then k else m)"
    note r = all[OF h]
    show "contributes AddOp ?K \<rho> st st1 xa
        (gemm_grad_a (alpha ?node) (trans_a ?node) (trans_b ?node) G B)"
      by (rule r[THEN conjunct1])
    show "contributes AddOp ?K \<rho> st1 st2 xb
        (gemm_grad_b (alpha ?node) (trans_a ?node) (trans_b ?node) A G)"
      by (rule r[THEN conjunct2, THEN conjunct1])
    show "contributes AddOp ?K \<rho> st2 st3 xc (sum_rows G)"
      by (rule r[THEN conjunct2, THEN conjunct2])
  qed
qed

lemma contributes_fresh:
  "contributes add K \<rho> st st' xv c \<Longrightarrow> grad (the_value xv st) = None \<Longrightarrow>
     \<exists>s. grad (the_value xv st') = Some s \<and> evals K st' \<rho> s c"
  by (auto simp: contributes_def split: option.splits)

lemma contributes_frame:
  "contributes add K \<rho> st st' xv c \<Longrightarrow> u < length (value_heap st) \<Longrightarrow> u \<noteq> xv \<Longrightarrow>
     grad (the_value u st') = grad (the_value u st)"
  by (simp add: contributes_def)

lemma contributes_extends: "contributes add K \<rho> st st' xv c \<Longrightarrow> extends st st'"
  by (simp add: contributes_def)

lemma example_gemm_context_eq:
  "example_gemm_context =
     \<lparr>gc_graph = 0, gc_node = 0, gc_name = ''GemmGrad'', gc_retain_in_stack = True\<rparr>"
  by (simp add: example_gemm_context_def example_gemm_store_def new_GradientOpContext_def
      the_node_def new_Node_def Let_def HasPrefix_def)

lemma example_gemm_facts:
  "gc_node example_gemm_context < length (node_heap example_gemm_store)"
  "gc_xs example_gemm_context example_gemm_store = [0, 1, 2]"
  "0 < length (value_heap example_gemm_store)"
  "1 < length (value_heap example_gemm_store)"
  "2 < length (value_heap example_gemm_store)"
  "operand example_gemm_context (Y 0) example_gemm_store = Some 3"
  "grad (the_value 3 example_gemm_store) = Some 4"
  unfolding example_gemm_context_eq
  by (simp_all add: example_gemm_store_def example_value_def gc_xs_def gc_ys_def
      the_node_def the_value_def new_Node_def)

lemma example_gemm_node:
  "alpha (the_node (gc_node example_gemm_context) example_gemm_store) = 2"
  "trans_a (the_node (gc_node example_gemm_context) example_gemm_store) = False"
  "trans_b (the_node (gc_node example_gemm_context) example_gemm_store) = True"
  unfolding example_gemm_context_eq
  by (simp_all add: example_gemm_store_def the_node_def new_Node_def)

lemma example_gemm_grads:
  "grad (the_value 0 example_gemm_store) = None"
  "grad (the_value 1 example_gemm_store) = None"
  "grad (the_value 2 example_gemm_store) = None"
  by (simp_all add: example_gemm_store_def example_value_def the_value_def)

lemma example_gemm_leaves:
  "evals K example_gemm_store \<rho> 0 (\<rho> 0)"
  "evals K example_gemm_store \<rho> 1 (\<rho> 1)"
  "evals K example_gemm_store \<rho> 4 (\<rho> 4)"
  by (rule evals.leaf; simp add: example_gemm_store_def example_value_def)+

lemma example_gemm_closed_forms:
  "gemm_grad_a 2 False True (example_matrix 1 1 [3]) (example_matrix 1 2 [5, 7])
     = example_matrix 1 2 [30, 42]"
  "gemm_grad_b 2 False True (example_matrix 1 2 [1, 2]) (example_matrix 1 1 [3])
     = example_matrix 1 2 [6, 12]"
  "sum_rows (example_matrix 1 1 [3]) = \<lparr>dtype = kFloat32, shape = [1], data = [3]\<rparr>"
  by (simp_all add: gemm_grad_a_def gemm_grad_b_def sum_rows_def mat_scale_def mat_mul_def
      mat_T_def tabulate2_def at2_def example_matrix_def upt_rec)

theorem GemmGradFn_closed_forms_witness:
  "\<exists>st3 sa sb sc.
     GemmGradFn example_gemm_context example_gemm_store = Inr ((), st3)
     \<and> grad (the_value 0 st3) = Some sa
     \<and> evals (array_kernel (\<lambda>_ _ _. Inl ChainerxError) (\<lambda>_ _. Inl ChainerxError)
                (\<lambda>_ _. None) (\<lambda>_ _. None)) st3 example_arrays sa
          (example_matrix 1 2 [30, 42])
     \<and> grad (the_value 1 st3) = Some sb
     \<and> evals (array_kernel (\<lambda>_ _ _. Inl ChainerxError) (\<lambda>_ _. Inl ChainerxError)
                (\<lambda>_ _. None) (\<lambda>_ _. None)) st3 example_arrays sb
          (example_matrix 1 2 [6, 12])
     \<and> grad (the_value 2 st3) = Some sc
     \<and> evals (array_kernel (\<lambda>_ _ _. Inl ChainerxError) (\<lambda>_ _. Inl ChainerxError)
                (\<lambda>_ _. None) (\<lambda>_ _. None)) st3 example_arrays sc
          \<lparr>dtype = kFloat32, shape = [1], data = [3]\<rparr>"
proof -
  let ?st = example_gemm_store
  let ?K = "array_kernel (\<lambda>_ _ _. Inl ChainerxError) (\<lambda>_ _. Inl ChainerxError)
      (\<lambda>_ _. None) (\<lambda>_ _. None)"
  let ?node = "the_node (gc_node example_gemm_context) ?st"
  let ?A = "example_matrix 1 2 [1, 2]" and ?B = "example_matrix 1 2 [5, 7]"
  let ?G = "example_matrix 1 1 [3]"
  from GemmGradFn_closed_forms[OF example_gemm_facts]
  obtain st1 st2 st3 where
    R: "GemmGradFn example_gemm_context ?st = Inr ((), st3)"
    and c: "\<forall>Linear Plus AddOp ext \<rho> A B G d n m k.
           evals (array_kernel Linear Plus AddOp ext) ?st \<rho> 0 A
           \<longrightarrow> evals (array_kernel Linear Plus AddOp ext) ?st \<rho> 1 B
           \<longrightarrow> evals (array_kernel Linear Plus AddOp ext) ?st \<rho> 4 G
           \<longrightarrow> is_matrix G d n m
           \<longrightarrow> is_matrix A d (if trans_a ?node then k else n) (if trans_a ?node then n else k)
           \<longrightarrow> is_matrix B d (if trans_b ?node then m else k) (if trans_b ?node then k else m)
           \<longrightarrow> contributes AddOp (array_kernel Linear Plus AddOp ext) \<rho> ?st st1 0
                 (gemm_grad_a (alpha ?node) (trans_a ?node) (trans_b ?node) G B)
             \<and> contributes AddOp (array_kernel Linear Plus AddOp ext) \<rho> st1 st2 1
                 (gemm_grad_b (alpha ?node) (trans_a ?node) (trans_b ?node) A G)
             \<and> contributes AddOp (array_kernel Linear Plus AddOp ext) \<rho> st2 st3 2
                 (sum_rows G)"
    by (elim exE conjE) (rule that)
  have A: "evals ?K ?st example_arrays 0 ?A" and B: "evals ?K ?st example_arrays 1 ?B"
    and G: "evals ?K ?st example_arrays 4 ?G"
    using example_gemm_leaves[of ?K example_arrays] by (simp_all add: example_arrays_def)
  have mG: "is_matrix ?G kFloat32 1 1"
    and mA: "is_matrix ?A kFloat32 (if trans_a ?node then 2 else 1) (if trans_a ?node then 1 else 2)"
    and mB: "is_matrix ?B kFloat32 (if trans_b ?node then 1 else 2) (if trans_b ?node then 2 else 1)"
    unfolding example_gemm_node by (simp_all add: is_matrix_def example_matrix_def)
  note r = c[rule_format, OF A B G mG mA mB, unfolded example_gemm_node example_gemm_closed_forms]
  note ca = r[THEN conjunct1] and cb = r[THEN conjunct2, THEN conjunct1]
    and cc = r[THEN conjunct2, THEN conjunct2]
  note e1 = contributes_extends[OF ca] and e2 = contributes_extends[OF cb]
    and e3 = contributes_extends[OF cc]
  have l1: "0 < length (value_heap st1)" "1 < length (value_heap st1)"
    "2 < length (value_heap st1)"
    using extends_lengths[OF e1] example_gemm_facts(3-5)
    by (simp_all del: length_greater_0_conv)
  have l2: "0 < length (value_heap st2)" "1 < length (value_heap st2)"
    "2 < length (value_heap st2)"
    using extends_lengths[OF e2] l1 by (simp_all del: length_greater_0_conv)
  from contributes_fresh[OF ca example_gemm_grads(1)] obtain sa where
    sa: "grad (the_value 0 st1) = Some sa" "evals ?K st1 example_arrays sa (example_matrix 1 2 [30, 42])"
    by blast
  have "grad (the_value 1 st1) = None"
    using contributes_frame[OF ca example_gemm_facts(4)] example_gemm_grads(2) by simp
  from contributes_fresh[OF cb this] obtain sb where
    sb: "grad (the_value 1 st2) = Some sb" "evals ?K st2 example_arrays sb (example_matrix 1 2 [6, 12])"
    by blast
  have "grad (the_value 2 st1) = None"
    using contributes_frame[OF ca example_gemm_facts(5)] example_gemm_grads(3) by simp
  then have "grad (the_value 2 st2) = None"
    using contributes_frame[OF cb l1(3)] by simp
  from contributes_fresh[OF cc this] obtain sc where
    sc: "grad (the_value 2 st3) = Some sc"
      "evals ?K st3 example_arrays sc \<lparr>dtype = kFloat32, shape = [1], data = [3]\<rparr>"
    by blast
  have ga: "grad (the_value 0 st3) = Some sa"
    using contributes_frame[OF cc l2(1)] contributes_frame[OF cb l1(1)] sa(1) by simp
  have gb: "grad (the_value 1 st3) = Some sb"
    using contributes_frame[OF cc l2(2)] sb(1) by simp
  have ea: "evals ?K st3 example_arrays sa (example_matrix 1 2 [30, 42])"
    by (rule evals_extends[OF evals_extends[OF sa(2) e2] e3])
  have eb: "evals ?K st3 example_arrays sb (example_matrix 1 2 [6, 12])"
    by (rule evals_extends[OF sb(2) e3])
  from R ga ea gb eb sc show ?thesis by blast
qed

end
